theory Spec2Isabelle
  imports Main "HOL-Library.AList"
begin

section \<open>Scalars and errors\<close>

text \<open>
  A Python float is an IEEE double: \<open>Finite s m e\<close> stands for \<open>(-1)^s * m * 2^e\<close>
  (so \<open>Finite True 0 0\<close> is the negative zero), \<open>Infinity s\<close> for the signed
  infinity and \<open>NaN\<close> for not-a-number.
\<close>

datatype pyfloat = Finite bool nat int | Infinity bool | NaN

text \<open>
  The values a table cell, an index entry or a dictionary key can hold. \<open>SInt\<close> is a
  Python \<open>int\<close>, \<open>SNaT\<close> is pandas' missing timestamp, \<open>SOther s\<close> a value of
  any other type (a numpy integer, a timestamp, ...) carried with its default string
  conversion \<open>s\<close>. Equality of scalars is structural.
\<close>

datatype scalar =
  SNone | SBool bool | SInt int | SFloat pyfloat | SStr string | SNaT | SOther string

datatype error = ValueError | TypeError | KeyError | IndexError | AssertionError | AttributeError

definition bind_err :: "error + 'a \<Rightarrow> ('a \<Rightarrow> error + 'b) \<Rightarrow> error + 'b" where
  "bind_err r f = (case r of Inl e \<Rightarrow> Inl e | Inr v \<Rightarrow> f v)"

section \<open>The value formatter (reacttable.py, display\_value)\<close>

subsection \<open>Python's number formatting\<close>

definition digit_char :: "nat \<Rightarrow> char" where
  "digit_char d = ''0123456789'' ! d"

fun nat_str :: "nat \<Rightarrow> string" where
  "nat_str n = (if n < 10 then [digit_char n] else nat_str (n div 10) @ [digit_char (n mod 10)])"

declare nat_str.simps [simp del]

definition int_str :: "int \<Rightarrow> string" where
  "int_str i = (if i < 0 then ''-'' else '''') @ nat_str (nat \<bar>i\<bar>)"

text \<open>\<open>group_rev\<close> works on the digits least significant first: a comma after every third.\<close>

fun group_rev :: "string \<Rightarrow> string" where
  "group_rev (a # b # c # d # rest) = a # b # c # CHR '','' # group_rev (d # rest)"
| "group_rev xs = xs"

text \<open>\<open>'{:,}'.format(i)\<close> for an \<open>int\<close>.\<close>

definition int_commas :: "int \<Rightarrow> string" where
  "int_commas i = (if i < 0 then ''-'' else '''') @ rev (group_rev (rev (nat_str (nat \<bar>i\<bar>))))"

text \<open>
  \<open>scaled_round p m e\<close> is \<open>m * 2^e * 10^p\<close> rounded to the nearest natural number,
  ties to even: the digits of a correctly rounded fixed-point conversion.
\<close>

definition scaled_round :: "nat \<Rightarrow> nat \<Rightarrow> int \<Rightarrow> nat" where
  "scaled_round p m e =
     (if 0 \<le> e then m * 10 ^ p * 2 ^ nat e
      else (let num = m * 10 ^ p; den = 2 ^ nat (- e); q = num div den; r = num mod den
            in if 2 * r < den then q
               else if den < 2 * r then q + 1
               else if even q then q else q + 1))"

definition zero_pad :: "nat \<Rightarrow> string \<Rightarrow> string" where
  "zero_pad p ds = replicate (p - length ds) CHR ''0'' @ ds"

text \<open>\<open>'{:.{p}f}'.format(x)\<close> for a float \<open>x\<close> and a precision \<open>p \<ge> 0\<close>.\<close>

definition format_fixed :: "nat \<Rightarrow> pyfloat \<Rightarrow> string" where
  "format_fixed p x =
     (case x of
        Finite s m e \<Rightarrow>
          (let n = scaled_round p m e
           in (if s then ''-'' else '''') @ nat_str (n div 10 ^ p) @
              (if p = 0 then '''' else ''.'' @ zero_pad p (nat_str (n mod 10 ^ p))))
      | Infinity s \<Rightarrow> (if s then ''-inf'' else ''inf'')
      | NaN \<Rightarrow> ''nan'')"

text \<open>
  \<open>'{}'.format(v)\<close>, the default string conversion. The shortest-repr conversion of a
  float is the interpreter's; it is the parameter \<open>float_str\<close>.
\<close>

definition py_str :: "(pyfloat \<Rightarrow> string) \<Rightarrow> scalar \<Rightarrow> string" where
  "py_str float_str v =
     (case v of
        SNone \<Rightarrow> ''None''
      | SBool b \<Rightarrow> (if b then ''True'' else ''False'')
      | SInt i \<Rightarrow> int_str i
      | SFloat x \<Rightarrow> float_str x
      | SStr s \<Rightarrow> s
      | SNaT \<Rightarrow> ''NaT''
      | SOther s \<Rightarrow> s)"

subsection \<open>display\_value\<close>

text \<open>
  The inner function of \<open>display_value\<close>. The precision goes into the format
  specification as it is: \<open>str.format\<close> refuses a negative one (\<open>'.-1f'\<close>) and
  one above the largest C \<open>int\<close> (\<open>precision too big\<close>), each with a
  \<open>ValueError\<close>.
\<close>

definition INT_MAX :: int where
  "INT_MAX = 2147483647"

definition format_numeric_value :: "(pyfloat \<Rightarrow> string) \<Rightarrow> int option \<Rightarrow> scalar \<Rightarrow> error + string" where
  "format_numeric_value float_str precision v =
     (case (precision, v) of
        (Some p, SFloat x) \<Rightarrow>
          (if p < 0 \<or> INT_MAX < p then Inl ValueError else Inr (format_fixed (nat p) x))
      | _ \<Rightarrow>
        (case v of
           SInt i \<Rightarrow> Inr (int_commas i)
         | _ \<Rightarrow> Inr (py_str float_str v)))"

text \<open>\<open>prefix or ""\<close>\<close>

definition or_empty :: "string option \<Rightarrow> string" where
  "or_empty s = (case s of None \<Rightarrow> '''' | Some t \<Rightarrow> t)"

text \<open>
  A \<open>bool\<close> is replaced by \<open>str(value).lower()\<close>, the string \<open>true\<close> or
  \<open>false\<close>, before the numeric formatting sees it.
\<close>

definition display_value ::
  "(pyfloat \<Rightarrow> string) \<Rightarrow> scalar \<Rightarrow> string option \<Rightarrow> string option \<Rightarrow> int option \<Rightarrow> error + string" where
  "display_value float_str v prefix suffix precision =
     (let v' = (case v of SBool b \<Rightarrow> SStr (if b then ''true'' else ''false'') | _ \<Rightarrow> v)
      in bind_err (format_numeric_value float_str precision v')
           (\<lambda>s. Inr (or_empty prefix @ s @ or_empty suffix)))"

text \<open>A precision \<open>str.format\<close> accepts for a float: unset, or from 0 to \<open>INT_MAX\<close>.\<close>

definition precision_ok :: "int option \<Rightarrow> bool" where
  "precision_ok precision =
     (case precision of None \<Rightarrow> True | Some p \<Rightarrow> 0 \<le> p \<and> p \<le> INT_MAX)"

definition is_digit :: "char \<Rightarrow> bool" where
  "is_digit c = (c \<in> set ''0123456789'')"

section \<open>Tables\<close>

text \<open>
  A pandas index: the default \<open>RangeIndex\<close> of a given length, a flat \<open>Index\<close> with
  its name and values, or a \<open>MultiIndex\<close> with its level names and one tuple per entry.
  A level name is a scalar, \<open>SNone\<close> when the level is unnamed.
\<close>

datatype index = RangeIndex nat | Index scalar "scalar list" | MultiIndex "scalar list" "scalar list list"

definition index_names :: "index \<Rightarrow> scalar list" where
  "index_names idx =
     (case idx of RangeIndex n \<Rightarrow> [SNone] | Index nm vs \<Rightarrow> [nm] | MultiIndex nms ts \<Rightarrow> nms)"

text \<open>The entries of a flat index, in order.\<close>

definition index_values :: "index \<Rightarrow> scalar list" where
  "index_values idx =
     (case idx of
        RangeIndex n \<Rightarrow> map (\<lambda>i. SInt (int i)) [0..<n]
      | Index nm vs \<Rightarrow> vs
      | MultiIndex nms ts \<Rightarrow> [])"

text \<open>
  The entries of an index as tuples: what iterating over the rows or the items of a
  series yields, a scalar entry of a flat index wrapped as the one-tuple that
  \<open>transform_data\<close> and \<open>setdeepattr\<close> make of it.
\<close>

definition index_tuples :: "index \<Rightarrow> scalar list list" where
  "index_tuples idx =
     (case idx of MultiIndex nms ts \<Rightarrow> ts | _ \<Rightarrow> map (\<lambda>v. [v]) (index_values idx))"

definition index_size :: "index \<Rightarrow> nat" where
  "index_size idx = length (index_tuples idx)"

text \<open>
  A data frame: row index, column index, the cells row by row, and the attribute
  \<open>name\<close> that the pivot step sets on the frame when it drops the metrics level.
\<close>

record data_frame =
  df_index :: index
  df_columns :: index
  df_values :: "scalar list list"
  df_name :: "scalar option"

definition wf_index :: "index \<Rightarrow> bool" where
  "wf_index idx =
     (case idx of
        MultiIndex nms ts \<Rightarrow> nms \<noteq> [] \<and> list_all (\<lambda>t. length t = length nms) ts
      | _ \<Rightarrow> True)"

definition wf_frame :: "data_frame \<Rightarrow> bool" where
  "wf_frame df =
     (wf_index (df_index df) \<and> wf_index (df_columns df)
      \<and> length (df_values df) = index_size (df_index df)
      \<and> list_all (\<lambda>r. length r = index_size (df_columns df)) (df_values df))"

text \<open>\<open>pd.isnull\<close> on a scalar.\<close>

definition isnull :: "scalar \<Rightarrow> bool" where
  "isnull v = (v = SNone \<or> v = SFloat NaN \<or> v = SNaT)"

section \<open>Descriptors and lookups\<close>

text \<open>
  What \<open>ReferenceItem\<close> and \<open>TotalsItem\<close> carry: both classes define all five
  attributes, so \<open>getattr(item, 'label', item.key)\<close> is the label.
\<close>

record item =
  it_key :: scalar
  it_label :: string
  it_prefix :: "string option"
  it_suffix :: "string option"
  it_precision :: "int option"

type_synonym item_map = "scalar \<Rightarrow> item option"

text \<open>
  Modelled from the spec: the constants \<open>TOTALS_VALUE\<close> (the spec's TotalsSentinel)
  and \<open>RAW_VALUE\<close> (the key \<open>raw\<close> of a CellValue) of \<open>fireant.formats\<close>, which is
  not among the sources.
\<close>

definition TOTALS_VALUE :: scalar where
  "TOTALS_VALUE = SStr ''~~totals''"

definition RAW_VALUE :: scalar where
  "RAW_VALUE = SStr ''raw''"

definition TotalsItem :: item where
  "TotalsItem = \<lparr>it_key = TOTALS_VALUE, it_label = ''Totals'', it_prefix = None,
     it_suffix = None, it_precision = None\<rparr>"

text \<open>
  The display values of the dimensions: level name, then level value, to display value.
\<close>

type_synonym display_values = "scalar \<Rightarrow> (scalar \<Rightarrow> scalar option) option"

text \<open>
  Modelled from the spec: \<open>getdeepattr\<close> of \<open>fireant.utils\<close> (not among the sources),
  the display-value lookup for (level key, value): the value found by following the keys,
  the default when a key is missing. The source calls it with two-component paths on the
  display values only.
\<close>

definition getdeepattr :: "display_values \<Rightarrow> scalar \<times> scalar \<Rightarrow> scalar \<Rightarrow> scalar" where
  "getdeepattr d keys default_value =
     (case d (fst keys) of
        None \<Rightarrow> default_value
      | Some d_level \<Rightarrow> (case d_level (snd keys) of None \<Rightarrow> default_value | Some v \<Rightarrow> v))"

text \<open>A row record: nested dictionaries, in insertion order, with scalars at the leaves.\<close>

datatype pyval = Scalar scalar | Dict "(scalar \<times> pyval) list"

text \<open>
  Modelled from the spec: \<open>setdeepattr\<close> of \<open>fireant.utils\<close> (not among the sources):
  assigns the value at the path of keys, creating intermediate nested mappings as needed.
  An empty path and a path that runs through a value that is not a mapping are errors.
\<close>

fun setdeepattr :: "(scalar \<times> pyval) list \<Rightarrow> scalar list \<Rightarrow> pyval \<Rightarrow> error + (scalar \<times> pyval) list" where
  "setdeepattr d [] v = Inl ValueError"
| "setdeepattr d [top_key] v = Inr (AList.update top_key v d)"
| "setdeepattr d (top_key # k # rest) v =
     (case map_of d top_key of
        None \<Rightarrow>
          bind_err (setdeepattr [] (k # rest) v) (\<lambda>sub. Inr (AList.update top_key (Dict sub) d))
      | Some (Dict sub) \<Rightarrow>
          bind_err (setdeepattr sub (k # rest) v) (\<lambda>sub'. Inr (AList.update top_key (Dict sub') d))
      | Some (Scalar x) \<Rightarrow> Inl TypeError)"

text \<open>The first error of a list of results, or all the values: a loop that may raise.\<close>

fun sequence_err :: "(error + 'a) list \<Rightarrow> error + 'a list" where
  "sequence_err [] = Inr []"
| "sequence_err (r # rs) =
     (case r of
        Inl e \<Rightarrow> Inl e
      | Inr v \<Rightarrow> (case sequence_err rs of Inl e \<Rightarrow> Inl e | Inr vs \<Rightarrow> Inr (v # vs)))"

section \<open>The row data builder (reacttable.py, transform\_data)\<close>

text \<open>The dictionary \<open>data\<close> of one cell: \<open>raw\<close>, and \<open>display\<close> unless it is \<open>None\<close>.\<close>

definition cell_value :: "scalar \<Rightarrow> scalar \<Rightarrow> pyval" where
  "cell_value raw display =
     Dict (if display \<noteq> SNone
           then AList.update (SStr ''display'') (Scalar display) [(RAW_VALUE, Scalar raw)]
           else [(RAW_VALUE, Scalar raw)])"

text \<open>An index entry that is a key of the item map is replaced by that item's label.\<close>

definition index_labels :: "item_map \<Rightarrow> scalar list \<Rightarrow> scalar list" where
  "index_labels item_map idx =
     map (\<lambda>item. case item_map item of None \<Rightarrow> item | Some it \<Rightarrow> SStr (it_label it)) idx"

text \<open>The loop over \<open>zip(data_frame.index.names, index)\<close>.\<close>

fun add_index :: "display_values \<Rightarrow> (scalar \<times> scalar) list \<Rightarrow> (scalar \<times> pyval) list \<Rightarrow> (scalar \<times> pyval) list" where
  "add_index ddv [] row = row"
| "add_index ddv ((key, v) # rest) row =
     (if key = SNone then add_index ddv rest row
      else add_index ddv rest
             (AList.update key (cell_value v (getdeepattr ddv (key, v) SNone)) row))"

text \<open>
  The cell of one column: the item is looked up by the first component of the column
  key; without an item the display is the value itself.
\<close>

definition column_cell :: "(pyfloat \<Rightarrow> string) \<Rightarrow> item_map \<Rightarrow> scalar list \<Rightarrow> scalar \<Rightarrow> error + pyval" where
  "column_cell float_str item_map key v =
     (case key of
        [] \<Rightarrow> Inl IndexError
      | k # ks \<Rightarrow>
          (case item_map k of
             Some it \<Rightarrow>
               bind_err (display_value float_str v (it_prefix it) (it_suffix it) (it_precision it))
                 (\<lambda>s. Inr (cell_value v (SStr s)))
           | None \<Rightarrow> Inr (cell_value v v)))"

text \<open>The loop over \<open>series.iteritems()\<close>.\<close>

fun add_values :: "(pyfloat \<Rightarrow> string) \<Rightarrow> item_map \<Rightarrow> (scalar list \<times> scalar) list \<Rightarrow> (scalar \<times> pyval) list \<Rightarrow> error + (scalar \<times> pyval) list" where
  "add_values float_str item_map [] row = Inr row"
| "add_values float_str item_map ((key, v) # rest) row =
     bind_err (column_cell float_str item_map key v)
       (\<lambda>data. bind_err (setdeepattr row key data) (add_values float_str item_map rest))"

definition row_record :: "(pyfloat \<Rightarrow> string) \<Rightarrow> data_frame \<Rightarrow> item_map \<Rightarrow> display_values \<Rightarrow> scalar list \<times> scalar list \<Rightarrow> error + pyval" where
  "row_record float_str df item_map ddv r =
     bind_err
       (add_values float_str item_map (zip (index_tuples (df_columns df)) (snd r))
          (add_index ddv (zip (index_names (df_index df)) (index_labels item_map (fst r))) []))
       (\<lambda>row. Inr (Dict row))"

definition iterrows :: "data_frame \<Rightarrow> (scalar list \<times> scalar list) list" where
  "iterrows df = zip (index_tuples (df_index df)) (df_values df)"

definition transform_data :: "(pyfloat \<Rightarrow> string) \<Rightarrow> data_frame \<Rightarrow> item_map \<Rightarrow> display_values \<Rightarrow> error + pyval list" where
  "transform_data float_str df item_map ddv =
     sequence_err (map (row_record float_str df item_map ddv) (iterrows df))"

section \<open>The index normalizer (reacttable.py, map\_index\_level, fillna\_index)\<close>

text \<open>
  \<open>index.levels[level]\<close> of a \<open>MultiIndex\<close>: the values of that level that are
  not null, each once.
\<close>

definition level_values :: "scalar list list \<Rightarrow> nat \<Rightarrow> scalar list" where
  "level_values ts level =
     remdups (filter (\<lambda>x. \<not> isnull x) (map (\<lambda>t. if level < length t then t ! level else SNone) ts))"

text \<open>
  \<open>map_index_level\<close>: an empty index is returned as it is. The levels of a
  \<open>MultiIndex\<close> hold its values that are not null, so \<open>func\<close> reaches those only;
  \<open>set_levels\<close> refuses the mapped values with a \<open>ValueError\<close> when two of them
  are equal; a level beyond the last is an \<open>IndexError\<close>. On a flat index the level
  has to be 0, and \<open>index.map\<close> applies \<open>func\<close> to every entry.
\<close>

definition map_index_level :: "index \<Rightarrow> nat \<Rightarrow> (scalar \<Rightarrow> scalar) \<Rightarrow> error + index" where
  "map_index_level idx level func =
     (if index_size idx = 0 then Inr idx
      else (case idx of
              MultiIndex nms ts \<Rightarrow>
                (if level < length nms
                 then (if distinct (map func (level_values ts level))
                       then Inr (MultiIndex nms
                              (map (\<lambda>t. if level < length t \<and> \<not> isnull (t ! level)
                                         then t[level := func (t ! level)] else t) ts))
                       else Inl ValueError)
                 else Inl IndexError)
            | Index nm vs \<Rightarrow>
                (if level = 0 then Inr (Index nm (map func vs)) else Inl AssertionError)
            | RangeIndex n \<Rightarrow>
                (if level = 0 then Inr (Index SNone (map func (index_values idx)))
                 else Inl AssertionError)))"

definition fillna_index :: "index \<Rightarrow> scalar \<Rightarrow> index" where
  "fillna_index idx v =
     (case idx of
        MultiIndex nms ts \<Rightarrow> MultiIndex nms (map (map (\<lambda>x. if isnull x then v else x)) ts)
      | Index nm vs \<Rightarrow> Index nm (map (\<lambda>x. if isnull x then v else x) vs)
      | RangeIndex n \<Rightarrow> RangeIndex n)"

section \<open>The column header tree builder (reacttable.py, transform\_metric\_column\_headers)\<close>

text \<open>One column definition: the dictionary with the keys Header, columns, accessor, className.\<close>

datatype column =
  Column (Header: scalar) (columns: "column list option") (accessor: "string option")
    (className: "string option")

definition get_header :: "item_map \<Rightarrow> display_values \<Rightarrow> scalar \<Rightarrow> scalar \<Rightarrow> scalar \<Rightarrow> bool \<Rightarrow> error + scalar" where
  "get_header item_map ddv metrics_dimension_key column_value f_dimension_key is_totals =
     (if f_dimension_key = metrics_dimension_key \<or> is_totals
      then (case item_map column_value of
              None \<Rightarrow> Inl KeyError
            | Some it \<Rightarrow> Inr (SStr (it_label it)))
      else Inr (getdeepattr ddv (f_dimension_key, column_value) column_value))"

fun join :: "string \<Rightarrow> string list \<Rightarrow> string" where
  "join sep [] = ''''"
| "join sep [x] = x"
| "join sep (x # y # ys) = x @ sep @ join sep (y # ys)"

text \<open>\<open>'.'.join(levels)\<close>: a \<open>TypeError\<close> unless every component is a string.\<close>

fun strs :: "scalar list \<Rightarrow> string list option" where
  "strs [] = Some []"
| "strs (SStr s # rest) = (case strs rest of None \<Rightarrow> None | Some ss \<Rightarrow> Some (s # ss))"
| "strs (v # rest) = None"

definition join_levels :: "scalar list \<Rightarrow> error + string" where
  "join_levels levels = (case strs levels of None \<Rightarrow> Inl TypeError | Some ss \<Rightarrow> Inr (join ''.'' ss))"

text \<open>
  \<open>groupby(level=0)\<close> on the frame of a column \<open>MultiIndex\<close>: one group per value of
  the outermost level that is not null, the groups sorted by that value, each with
  its entries in their order. The order pandas sorts the keys by is the parameter
  \<open>le\<close>.
\<close>

definition level0 :: "scalar list \<Rightarrow> scalar" where
  "level0 t = (case t of [] \<Rightarrow> SNone | x # xs \<Rightarrow> x)"

fun insort_by :: "('a \<Rightarrow> 'a \<Rightarrow> bool) \<Rightarrow> 'a \<Rightarrow> 'a list \<Rightarrow> 'a list" where
  "insort_by le x [] = [x]"
| "insort_by le x (y # ys) = (if le x y then x # y # ys else y # insort_by le x ys)"

definition sort_by :: "('a \<Rightarrow> 'a \<Rightarrow> bool) \<Rightarrow> 'a list \<Rightarrow> 'a list" where
  "sort_by le xs = foldr (insort_by le) xs []"

definition groupby_level0 :: "(scalar \<Rightarrow> scalar \<Rightarrow> bool) \<Rightarrow> scalar list list \<Rightarrow> (scalar \<times> scalar list list) list" where
  "groupby_level0 le ts =
     map (\<lambda>k. (k, filter (\<lambda>t. level0 t = k) ts))
       (sort_by le (remdups (filter (\<lambda>k. \<not> isnull k) (map level0 ts))))"

text \<open>
  \<open>group.reset_index(level=0, drop=True)\<close>: the index of a group without its outermost
  level. Two levels leave a flat index, one level leaves the default index.
\<close>

definition reset_index_level0 :: "scalar list \<Rightarrow> scalar list list \<Rightarrow> index" where
  "reset_index_level0 nms ts =
     (case nms of
        n0 # n1 # n2 # rest \<Rightarrow> MultiIndex (n1 # n2 # rest) (map tl ts)
      | [n0, n1] \<Rightarrow> Index n1 (map (\<lambda>t. level0 (tl t)) ts)
      | _ \<Rightarrow> RangeIndex (length ts))"

text \<open>The body of the loop of \<open>_make_columns\<close>, given what the branch on \<open>group\<close> yields.\<close>

definition make_column ::
  "item_map \<Rightarrow> display_values \<Rightarrow> scalar \<Rightarrow> scalar \<Rightarrow> scalar \<Rightarrow>
   error + (column list option \<times> string option) \<Rightarrow> error + column" where
  "make_column item_map ddv metrics_dimension_key f_dimension_key column_value branch =
     (let is_totals = (TOTALS_VALUE = column_value)
      in bind_err (get_header item_map ddv metrics_dimension_key column_value f_dimension_key is_totals)
           (\<lambda>header. bind_err branch
              (\<lambda>b. Inr (Column header (fst b) (snd b)
                          (if is_totals then Some ''fireant-totals'' else None)))))"

text \<open>The leaf branch: the name of the frame, when it has one, ends the path.\<close>

definition leaf_branch :: "scalar option \<Rightarrow> scalar list \<Rightarrow> error + (column list option \<times> string option)" where
  "leaf_branch frame_name levels =
     bind_err (join_levels (levels @ (case frame_name of None \<Rightarrow> [] | Some n \<Rightarrow> [n])))
       (\<lambda>a. Inr (None, Some a))"

definition index_depth :: "index \<Rightarrow> nat" where
  "index_depth idx = (case idx of MultiIndex nms ts \<Rightarrow> Suc (length nms) | _ \<Rightarrow> 0)"

lemma reset_index_level0_depth:
  "index_depth (reset_index_level0 nms ts) < index_depth (MultiIndex nms ts')"
  by (simp add: index_depth_def reset_index_level0_def split: list.splits)

function make_columns ::
  "(scalar \<Rightarrow> scalar \<Rightarrow> bool) \<Rightarrow> item_map \<Rightarrow> display_values \<Rightarrow> scalar \<Rightarrow> scalar option \<Rightarrow>
   index \<Rightarrow> scalar list \<Rightarrow> error + column list" where
  "make_columns le item_map ddv mdk frame_name (MultiIndex nms ts) previous_levels =
     (case nms of
        [] \<Rightarrow> Inl IndexError
      | f_dimension_key # rest \<Rightarrow>
          sequence_err
            (map (\<lambda>g. make_column item_map ddv mdk f_dimension_key (fst g)
                        (bind_err
                           (make_columns le item_map ddv mdk frame_name
                              (reset_index_level0 nms (snd g)) (previous_levels @ [fst g]))
                           (\<lambda>cs. Inr (Some cs, None))))
               (groupby_level0 le ts)))"
| "make_columns le item_map ddv mdk frame_name (Index nm vs) previous_levels =
     sequence_err
       (map (\<lambda>column_value. make_column item_map ddv mdk nm column_value
                        (leaf_branch frame_name (previous_levels @ [column_value])))
          vs)"
| "make_columns le item_map ddv mdk frame_name (RangeIndex n) previous_levels =
     sequence_err
       (map (\<lambda>column_value. make_column item_map ddv mdk SNone column_value
                        (leaf_branch frame_name (previous_levels @ [column_value])))
          (index_values (RangeIndex n)))"
  by pat_completeness auto
termination
  by (relation "measure (\<lambda>(le, item_map, ddv, mdk, frame_name, idx, previous_levels). index_depth idx)")
     (auto simp: reset_index_level0_depth)

definition transform_metric_column_headers ::
  "(scalar \<Rightarrow> scalar \<Rightarrow> bool) \<Rightarrow> scalar \<Rightarrow> data_frame \<Rightarrow> item_map \<Rightarrow> display_values \<Rightarrow> error + column list" where
  "transform_metric_column_headers le mdk df item_map ddv =
     make_columns le item_map ddv mdk (df_name df) (df_columns df) []"

section \<open>Reading records\<close>

text \<open>The value a record holds at a path of keys, if the path leads anywhere.\<close>

fun lookup :: "pyval \<Rightarrow> scalar list \<Rightarrow> pyval option" where
  "lookup v [] = Some v"
| "lookup (Scalar x) (k # ks) = None"
| "lookup (Dict d) (k # ks) = (case map_of d k of None \<Rightarrow> None | Some v \<Rightarrow> lookup v ks)"

text \<open>Two paths of which one continues the other.\<close>

definition comparable :: "scalar list \<Rightarrow> scalar list \<Rightarrow> bool" where
  "comparable p q = (take (length p) q = p \<or> take (length q) p = q)"

section \<open>A worked table\<close>

text \<open>
  A stand-in for the interpreter's conversion of a float to a string, for the worked
  tables below; none of them holds a float.
\<close>

definition repr_unmodelled :: "pyfloat \<Rightarrow> string" where
  "repr_unmodelled x = ''<float>''"

text \<open>
  One metric \<open>wins\<close> with the prefix \<open>$\<close>, the totals item, a display value for the
  state \<open>tx\<close>, and a table of two rows (the second the totals row) with the metric
  column and a column \<open>x\<close> that has no descriptor. \<open>ex_rows\<close> is what the row data
  builder makes of it.
\<close>

definition ex_items :: item_map where
  "ex_items = map_of
     [(SStr ''$m$wins'', \<lparr>it_key = SStr ''wins'', it_label = ''Wins'', it_prefix = Some ''$'',
         it_suffix = None, it_precision = None\<rparr>),
      (TOTALS_VALUE, TotalsItem)]"

definition ex_display_values :: display_values where
  "ex_display_values = map_of [(SStr ''$d$state'', map_of [(SStr ''tx'', SStr ''Texas'')])]"

definition ex_frame :: data_frame where
  "ex_frame = \<lparr>df_index = Index (SStr ''$d$state'') [SStr ''tx'', TOTALS_VALUE],
      df_columns = Index (SStr ''$d$metrics'') [SStr ''$m$wins'', SStr ''x''],
      df_values = [[SInt 5, SInt 7], [SInt 12, SNone]],
      df_name = None\<rparr>"

definition ex_rows :: "pyval list" where
  "ex_rows =
     [Dict [(SStr ''$d$state'', Dict [(SStr ''raw'', Scalar (SStr ''tx'')), (SStr ''display'', Scalar (SStr ''Texas''))]),
            (SStr ''$m$wins'', Dict [(SStr ''raw'', Scalar (SInt 5)), (SStr ''display'', Scalar (SStr ''$5''))]),
            (SStr ''x'', Dict [(SStr ''raw'', Scalar (SInt 7)), (SStr ''display'', Scalar (SInt 7))])],
      Dict [(SStr ''$d$state'', Dict [(SStr ''raw'', Scalar (SStr ''Totals''))]),
            (SStr ''$m$wins'', Dict [(SStr ''raw'', Scalar (SInt 12)), (SStr ''display'', Scalar (SStr ''$12''))]),
            (SStr ''x'', Dict [(SStr ''raw'', Scalar SNone)])]]"

text \<open>The nodes of a header tree, parents before their children, and its leaves.\<close>

fun flatten :: "column \<Rightarrow> column list" where
  "flatten (Column h cs a c) =
     Column h cs a c # (case cs of None \<Rightarrow> [] | Some xs \<Rightarrow> concat (map flatten xs))"

fun leaves :: "column \<Rightarrow> column list" where
  "leaves (Column h cs a c) =
     (case cs of None \<Rightarrow> [Column h cs a c] | Some xs \<Rightarrow> concat (map leaves xs))"

text \<open>
  The column values the header tree has a node for, in the order of \<open>flatten\<close>: one per
  group of every level, the groups of a value before the next value.
\<close>

function node_values :: "(scalar \<Rightarrow> scalar \<Rightarrow> bool) \<Rightarrow> index \<Rightarrow> scalar list" where
  "node_values le (MultiIndex nms ts) =
     concat (map (\<lambda>g. fst g # node_values le (reset_index_level0 nms (snd g)))
               (groupby_level0 le ts))"
| "node_values le (Index nm vs) = vs"
| "node_values le (RangeIndex n) = index_values (RangeIndex n)"
  by pat_completeness auto

termination
  by (relation "measure (\<lambda>(le, idx). index_depth idx)") (auto simp: reset_index_level0_depth)

text \<open>
  The accumulated path components of the leaves, in the order of \<open>leaves\<close>: the values
  of the groups from the outermost level down to the leaf.
\<close>

function leaf_paths :: "(scalar \<Rightarrow> scalar \<Rightarrow> bool) \<Rightarrow> index \<Rightarrow> scalar list \<Rightarrow> scalar list list" where
  "leaf_paths le (MultiIndex nms ts) previous_levels =
     concat (map (\<lambda>g. leaf_paths le (reset_index_level0 nms (snd g)) (previous_levels @ [fst g]))
               (groupby_level0 le ts))"
| "leaf_paths le (Index nm vs) previous_levels = map (\<lambda>v. previous_levels @ [v]) vs"
| "leaf_paths le (RangeIndex n) previous_levels =
     map (\<lambda>v. previous_levels @ [v]) (index_values (RangeIndex n))"
  by pat_completeness auto

termination
  by (relation "measure (\<lambda>(le, idx, previous_levels). index_depth idx)")
     (auto simp: reset_index_level0_depth)

text \<open>What the totals invariant asks of the node made for a column value.\<close>

definition totals_node :: "scalar \<Rightarrow> column \<Rightarrow> bool" where
  "totals_node v c =
     (className c = (if v = TOTALS_VALUE then Some ''fireant-totals'' else None)
      \<and> (v = TOTALS_VALUE \<longrightarrow> Header c = SStr ''Totals''))"

text \<open>
  What the accessor construction asks of the leaf made at a path: no children, and the
  accessor is the path components, then the name of the frame if it has one, all of
  them strings, joined with dots.
\<close>

definition leaf_accessor_ok :: "scalar option \<Rightarrow> scalar list \<Rightarrow> column \<Rightarrow> bool" where
  "leaf_accessor_ok frame_name p c =
     (columns c = None
      \<and> (\<exists>ss. strs (p @ (case frame_name of None \<Rightarrow> [] | Some n \<Rightarrow> [n])) = Some ss
               \<and> accessor c = Some (join ''.'' ss)))"

text \<open>The key paths of a record that lead somewhere, and whether one of them, joined with dots, is the accessor.\<close>

fun key_paths :: "pyval \<Rightarrow> scalar list list" where
  "key_paths (Scalar x) = []"
| "key_paths (Dict d) = concat (map (\<lambda>kv. [fst kv] # map ((#) (fst kv)) (key_paths (snd kv))) d)"

definition has_accessor :: "pyval \<Rightarrow> string \<Rightarrow> bool" where
  "has_accessor row a = (Inr a \<in> set (map join_levels (key_paths row)))"

text \<open>The order of string keys, for the worked tables.\<close>

fun chars_le :: "string \<Rightarrow> string \<Rightarrow> bool" where
  "chars_le [] ys = True"
| "chars_le (x # xs) [] = False"
| "chars_le (x # xs) (y # ys) = ((of_char x :: nat) < of_char y \<or> (x = y \<and> chars_le xs ys))"

definition key_le :: "scalar \<Rightarrow> scalar \<Rightarrow> bool" where
  "key_le a b = (case (a, b) of (SStr x, SStr y) \<Rightarrow> chars_le x y | _ \<Rightarrow> True)"

text \<open>
  The worked table pivoted on the state: with the metrics level kept, and with the
  metrics level dropped and the metric key left as the name of the frame.
\<close>

definition ex_pivot_frame :: data_frame where
  "ex_pivot_frame = \<lparr>df_index = Index (SStr ''$d$year'') [SStr ''2019''],
      df_columns = MultiIndex [SStr ''$d$metrics'', SStr ''$d$state'']
        [[SStr ''$m$wins'', SStr ''tx''], [SStr ''$m$wins'', TOTALS_VALUE]],
      df_values = [[SInt 5, SInt 12]],
      df_name = None\<rparr>"

definition ex_pivot_columns :: "column list" where
  "ex_pivot_columns =
     [Column (SStr ''Wins'')
        (Some [Column (SStr ''Texas'') None (Some ''$m$wins.tx'') None,
               Column (SStr ''Totals'') None (Some ''$m$wins.~~totals'') (Some ''fireant-totals'')])
        None None]"

definition ex_collapsed_frame :: data_frame where
  "ex_collapsed_frame = \<lparr>df_index = Index (SStr ''$d$year'') [SStr ''2019''],
      df_columns = Index (SStr ''$d$state'') [SStr ''tx'', TOTALS_VALUE],
      df_values = [[SInt 5, SInt 12]],
      df_name = Some (SStr ''$m$wins'')\<rparr>"

definition ex_collapsed_columns :: "column list" where
  "ex_collapsed_columns =
     [Column (SStr ''Texas'') None (Some ''tx.$m$wins'') None,
      Column (SStr ''Totals'') None (Some ''~~totals.$m$wins'') (Some ''fireant-totals'')]"

definition ex_collapsed_rows :: "pyval list" where
  "ex_collapsed_rows =
     [Dict [(SStr ''$d$year'', Dict [(SStr ''raw'', Scalar (SStr ''2019''))]),
            (SStr ''tx'', Dict [(SStr ''raw'', Scalar (SInt 5)), (SStr ''display'', Scalar (SInt 5))]),
            (SStr ''~~totals'', Dict [(SStr ''raw'', Scalar (SInt 12)), (SStr ''display'', Scalar (SStr ''12''))])]]"

section \<open>Modifiers (modifiers.py)\<close>

text \<open>
  Objects live in a store, an address being a position in it. A value is a reference
  to an object, a primitive value, the \<open>NullValue()\<close> of pypika, a method, or another
  attribute every object answers to.
\<close>

datatype val = VNone | VInt int | VStr string | VRef nat | VNullValue | VMethod string | VBuiltin string

datatype modifier_kind = Modifier | DimensionModifier | FilterModifier | Rollup | OmitFromRollup

text \<open>
  The class of an object: one of the modifier classes, or any other class, given by
  its class attributes; instances of such a class are ordinary objects, with no
  attribute hooks, properties or slots.
\<close>

datatype pyclass = PlainClass "(string \<times> val) list" | ModifierClass modifier_kind

record pyobj =
  obj_class :: pyclass
  obj_dict :: "(string \<times> val) list"

type_synonym heap = "pyobj list"

definition heap_get :: "heap \<Rightarrow> nat \<Rightarrow> pyobj option" where
  "heap_get h a = (if a < length h then Some (h ! a) else None)"

text \<open>The class attribute \<open>wrapped_key\<close> of each modifier class.\<close>

definition wrapped_key :: "modifier_kind \<Rightarrow> string" where
  "wrapped_key k =
     (case k of
        Modifier \<Rightarrow> ''wrapped''
      | DimensionModifier \<Rightarrow> ''dimension''
      | FilterModifier \<Rightarrow> ''filter''
      | Rollup \<Rightarrow> ''dimension''
      | OmitFromRollup \<Rightarrow> ''filter'')"

definition modifier_methods :: "string list" where
  "modifier_methods = [''__init__'', ''__copy__'', ''__deepcopy__'', ''__getattr__'',
     ''__setattr__'', ''__hash__'', ''__repr__'', ''for_'']"

text \<open>Methods every object inherits from \<open>object\<close>.\<close>

definition object_methods :: "string list" where
  "object_methods = [''__init__'', ''__new__'', ''__repr__'', ''__str__'', ''__hash__'',
     ''__eq__'', ''__ne__'', ''__lt__'', ''__le__'', ''__gt__'', ''__ge__'', ''__format__'',
     ''__dir__'', ''__sizeof__'', ''__reduce__'', ''__reduce_ex__'', ''__getattribute__'',
     ''__setattr__'', ''__delattr__'', ''__init_subclass__'', ''__subclasshook__'',
     ''__doc__'', ''__module__'']"

text \<open>
  The data descriptors of a type, which come before the instance dictionary:
  \<open>__class__\<close> and \<open>__dict__\<close> of every object, and the property \<open>definition\<close> of
  \<open>Rollup\<close>, which returns \<open>NullValue()\<close>.
\<close>

definition data_descriptor :: "pyclass \<Rightarrow> string \<Rightarrow> val option" where
  "data_descriptor c name =
     (if name = ''__class__'' \<or> name = ''__dict__'' then Some (VBuiltin name)
      else if c = ModifierClass Rollup \<and> name = ''definition'' then Some VNullValue
      else None)"

definition class_attr :: "pyclass \<Rightarrow> string \<Rightarrow> val option" where
  "class_attr c name =
     (case (case c of
              PlainClass attrs \<Rightarrow> map_of attrs name
            | ModifierClass k \<Rightarrow>
                (if name = ''wrapped_key'' then Some (VStr (wrapped_key k))
                 else if name \<in> set modifier_methods then Some (VMethod name)
                 else None)) of
        Some v \<Rightarrow> Some v
      | None \<Rightarrow> (if name \<in> set object_methods then Some (VMethod name) else None))"

text \<open>
  \<open>object.__getattribute__\<close>, which is \<open>super().__getattribute__\<close> in \<open>Modifier\<close>: data
  descriptors of the type, the instance dictionary, the other class attributes, or an
  \<open>AttributeError\<close>.
\<close>

definition object_getattribute :: "pyobj \<Rightarrow> string \<Rightarrow> error + val" where
  "object_getattribute ob name =
     (case data_descriptor (obj_class ob) name of
        Some v \<Rightarrow> Inr v
      | None \<Rightarrow>
          (case map_of (obj_dict ob) name of
             Some v \<Rightarrow> Inr v
           | None \<Rightarrow>
               (case class_attr (obj_class ob) name of
                  Some v \<Rightarrow> Inr v
                | None \<Rightarrow> Inl AttributeError)))"

text \<open>
  \<open>object.__setattr__\<close>: \<open>__class__\<close> takes a class and \<open>__dict__\<close> a dictionary only
  (no value of the model is one), a property without setter cannot be set, anything
  else goes to the instance dictionary.
\<close>

definition object_setattr :: "heap \<Rightarrow> nat \<Rightarrow> string \<Rightarrow> val \<Rightarrow> error + heap" where
  "object_setattr h a name x =
     (case heap_get h a of
        None \<Rightarrow> Inl AttributeError
      | Some ob \<Rightarrow>
          (if name = ''__class__'' \<or> name = ''__dict__'' then Inl TypeError
           else if data_descriptor (obj_class ob) name \<noteq> None then Inl AttributeError
           else Inr (h[a := ob\<lparr>obj_dict := AList.update name x (obj_dict ob)\<rparr>])))"

text \<open>\<open>wrapped.__dict__\<close>: the instance dictionary of an object; a primitive value has none.\<close>

definition own_dict :: "heap \<Rightarrow> val \<Rightarrow> error + (string \<times> val) list" where
  "own_dict h w =
     (case w of
        VRef b \<Rightarrow> (case heap_get h b of None \<Rightarrow> Inl AttributeError | Some ob \<Rightarrow> Inr (obj_dict ob))
      | _ \<Rightarrow> Inl AttributeError)"

text \<open>
  \<open>getattr(v, name)\<close>. The ordinary lookup comes first; for a modifier that fails,
  \<open>Modifier.__getattr__\<close> forwards to the wrapped object. Attributes of primitive values
  are not modelled: reading one is an \<open>AttributeError\<close>. A chain of modifiers that
  never ends does not return.
\<close>

partial_function (option) py_getattr :: "heap \<Rightarrow> val \<Rightarrow> string \<Rightarrow> (error + val) option" where
  "py_getattr h v attr =
     (case v of
        VRef a \<Rightarrow>
          (case heap_get h a of
             None \<Rightarrow> Some (Inl AttributeError)
           | Some ob \<Rightarrow>
               (case object_getattribute ob attr of
                  Inr r \<Rightarrow> Some (Inr r)
                | Inl e \<Rightarrow>
                    (case obj_class ob of
                       PlainClass attrs \<Rightarrow> Some (Inl e)
                     | ModifierClass k \<Rightarrow>
                         (if map_of (obj_dict ob) attr \<noteq> None
                          then Some (object_getattribute ob attr)
                          else (case object_getattribute ob ''wrapped_key'' of
                                  Inl e' \<Rightarrow> Some (Inl e')
                                | Inr (VStr wk) \<Rightarrow>
                                    (case object_getattribute ob wk of
                                       Inl e' \<Rightarrow> Some (Inl e')
                                     | Inr wrapped \<Rightarrow> py_getattr h wrapped attr)
                                | Inr _ \<Rightarrow> Some (Inl TypeError))))))
      | _ \<Rightarrow> Some (Inl AttributeError))"

text \<open>
  \<open>setattr(v, name, value)\<close>: \<open>Modifier.__setattr__\<close> for a modifier,
  \<open>object.__setattr__\<close> for any other object.
\<close>

partial_function (option) py_setattr :: "heap \<Rightarrow> val \<Rightarrow> string \<Rightarrow> val \<Rightarrow> (error + heap) option" where
  "py_setattr h v attr x =
     (case v of
        VRef a \<Rightarrow>
          (case heap_get h a of
             None \<Rightarrow> Some (Inl AttributeError)
           | Some ob \<Rightarrow>
               (case obj_class ob of
                  PlainClass attrs \<Rightarrow> Some (object_setattr h a attr x)
                | ModifierClass k \<Rightarrow>
                    (case object_getattribute ob ''wrapped_key'' of
                       Inl e \<Rightarrow> Some (Inl e)
                     | Inr wk \<Rightarrow>
                         (if VStr attr = wk then Some (object_setattr h a attr x)
                          else (case wk of
                                  VStr wks \<Rightarrow>
                                    (case object_getattribute ob wks of
                                       Inl e \<Rightarrow> Some (Inl e)
                                     | Inr wrapped \<Rightarrow>
                                         (case own_dict h wrapped of
                                            Inl e \<Rightarrow> Some (Inl e)
                                          | Inr d \<Rightarrow>
                                              (if map_of d attr \<noteq> None
                                               then py_setattr h wrapped attr x
                                               else Some (object_setattr h a attr x))))
                                | _ \<Rightarrow> Some (Inl TypeError))))))
      | _ \<Rightarrow> Some (Inl AttributeError))"

text \<open>
  \<open>Modifier(wrapped)\<close> and its subclasses: a new object of the class, then
  \<open>setattr(self, wrapped_key, wrapped)\<close>.
\<close>

definition new_modifier :: "heap \<Rightarrow> modifier_kind \<Rightarrow> val \<Rightarrow> (error + heap \<times> val) option" where
  "new_modifier h k wrapped =
     (case py_setattr (h @ [\<lparr>obj_class = ModifierClass k, obj_dict = []\<rparr>]) (VRef (length h))
             (wrapped_key k) wrapped of
        None \<Rightarrow> None
      | Some (Inl e) \<Rightarrow> Some (Inl e)
      | Some (Inr h') \<Rightarrow> Some (Inr (h', VRef (length h))))"

text \<open>A modifier of class \<open>k\<close> at address \<open>a\<close> that wraps \<open>w\<close>, its slot name not shadowed.\<close>

definition wraps :: "heap \<Rightarrow> nat \<Rightarrow> modifier_kind \<Rightarrow> val \<Rightarrow> bool" where
  "wraps h a k w =
     (case heap_get h a of
        None \<Rightarrow> False
      | Some ob \<Rightarrow> obj_class ob = ModifierClass k
          \<and> map_of (obj_dict ob) (wrapped_key k) = Some w
          \<and> map_of (obj_dict ob) ''wrapped_key'' = None)"

declare py_getattr.simps [code] py_setattr.simps [code]

text \<open>
  A worked store: a dimension with a definition, a modifier that wraps it, and a
  modifier that wraps that modifier.
\<close>

definition ex_heap :: heap where
  "ex_heap =
     [\<lparr>obj_class = PlainClass [], obj_dict = [(''key'', VStr ''state''), (''definition'', VStr ''sql'')]\<rparr>,
      \<lparr>obj_class = ModifierClass Modifier, obj_dict = [(''wrapped'', VRef 0)]\<rparr>,
      \<lparr>obj_class = ModifierClass Modifier, obj_dict = [(''wrapped'', VRef 1)]\<rparr>]"

section \<open>The transform (reacttable.py, ReactTable.transform)\<close>

subsection \<open>Descriptors and collaborators\<close>

datatype interval = hourly | daily | weekly | monthly | quarterly | annually | other_interval

definition DATE_FORMATS :: "interval \<Rightarrow> string option" where
  "DATE_FORMATS i =
     (case i of
        hourly \<Rightarrow> Some ''%Y-%m-%d %h''
      | daily \<Rightarrow> Some ''%Y-%m-%d''
      | weekly \<Rightarrow> Some ''%Y-%m''
      | monthly \<Rightarrow> Some ''%Y''
      | quarterly \<Rightarrow> Some ''%Y-%q''
      | annually \<Rightarrow> Some ''%Y''
      | other_interval \<Rightarrow> None)"

text \<open>\<open>DATE_FORMATS.get(dimension.interval, DATE_FORMATS[daily])\<close>\<close>

definition date_format :: "interval \<Rightarrow> string" where
  "date_format i = (case DATE_FORMATS i of Some f \<Rightarrow> f | None \<Rightarrow> ''%Y-%m-%d'')"

text \<open>
  A dimension descriptor: its key, its label if it has the attribute, whether it has a
  display field and under which key, its table of display values if it has the
  attribute, and its interval when it is a \<open>DatetimeDimension\<close>.
\<close>

record dimension =
  dim_key :: string
  dim_label :: "string option"
  dim_has_display_field :: bool
  dim_display_key :: string
  dim_display_values :: "(scalar \<Rightarrow> scalar option) option"
  dim_interval :: "interval option"

record metric =
  m_key :: string
  m_label :: string
  m_prefix :: "string option"
  m_suffix :: "string option"
  m_precision :: "int option"

text \<open>
  What the transform takes from code that is not among the sources: the key formats of
  \<open>fireant.utils\<close>, the key and label of a reference (\<open>..references\<close>), the
  module-level dimension \<open>metrics\<close> (its class is in \<open>..dimensions\<close>), the pivot
  step of the base class \<open>Pandas\<close>; and from the libraries: \<open>strftime\<close>, the
  conversion of a float to a string, the order pandas sorts group keys by.
\<close>

record 'r env =
  format_dimension_key :: "string \<Rightarrow> string"
  format_metric_key :: "string \<Rightarrow> string"
  reference_key :: "metric \<Rightarrow> 'r option \<Rightarrow> string"
  reference_label :: "metric \<Rightarrow> 'r \<Rightarrow> string"
  metrics :: dimension
  pivot_data_frame :: "data_frame \<Rightarrow> scalar list \<Rightarrow> bool \<Rightarrow> error + data_frame"
  strftime :: "string \<Rightarrow> scalar \<Rightarrow> scalar"
  float_str :: "pyfloat \<Rightarrow> string"
  sort_le :: "scalar \<Rightarrow> scalar \<Rightarrow> bool"

definition metrics_dimension_key :: "'r env \<Rightarrow> scalar" where
  "metrics_dimension_key env = SStr (format_dimension_key env (dim_key (metrics env)))"

text \<open>The widget: its items, the dimensions to pivot, whether to transpose.\<close>

record widget =
  w_items :: "metric list"
  w_pivot :: "dimension list"
  w_transpose :: bool

definition ReferenceItem :: "'r env \<Rightarrow> metric \<Rightarrow> 'r option \<Rightarrow> item" where
  "ReferenceItem env it reference =
     \<lparr>it_key = SStr (case reference of None \<Rightarrow> m_key it | Some r \<Rightarrow> reference_key env it (Some r)),
      it_label = (case reference of None \<Rightarrow> m_label it | Some r \<Rightarrow> reference_label env it r),
      it_prefix = m_prefix it, it_suffix = m_suffix it, it_precision = m_precision it\<rparr>"

text \<open>\<open>OrderedDict(pairs)\<close>: a later pair replaces the value of an earlier one with its key.\<close>

definition ordered_dict :: "('k \<times> 'v) list \<Rightarrow> ('k \<times> 'v) list" where
  "ordered_dict pairs = foldl (\<lambda>d kv. AList.update (fst kv) (snd kv) d) [] pairs"

definition item_pairs :: "'r env \<Rightarrow> widget \<Rightarrow> 'r list \<Rightarrow> (scalar \<times> item) list" where
  "item_pairs env w references =
     ordered_dict
       (concat (map (\<lambda>i. map (\<lambda>reference.
                       (SStr (format_metric_key env (reference_key env i reference)),
                        ReferenceItem env i reference))
                     (None # map Some references))
                  (w_items w)))"

subsection \<open>Operations on frames\<close>

definition positions :: "'a list \<Rightarrow> 'a \<Rightarrow> nat list" where
  "positions xs x = filter (\<lambda>j. xs ! j = x) [0..<length xs]"

text \<open>
  \<open>data_frame[keys]\<close> for a list of keys, on the flat column index of a result set:
  a new frame with the columns of each key in turn, a \<open>KeyError\<close> when a key names no
  column. A new frame does not inherit the attribute \<open>name\<close>.
\<close>

definition select_columns :: "data_frame \<Rightarrow> scalar list \<Rightarrow> error + data_frame" where
  "select_columns df keys =
     (case df_columns df of
        Index nm vs \<Rightarrow>
          (if list_all (\<lambda>k. positions vs k \<noteq> []) keys
           then Inr \<lparr>df_index = df_index df,
                     df_columns = Index nm (concat (map (\<lambda>k. map (\<lambda>j. k) (positions vs k)) keys)),
                     df_values = map (\<lambda>row. concat (map (\<lambda>k. map (\<lambda>j. row ! j) (positions vs k)) keys))
                                   (df_values df),
                     df_name = None\<rparr>
           else Inl KeyError)
      | _ \<Rightarrow> Inl KeyError)"

text \<open>\<open>.copy()\<close>: a new frame that holds the same.\<close>

definition copy_frame :: "data_frame \<Rightarrow> data_frame" where
  "copy_frame df = df\<lparr>df_name := None\<rparr>"

text \<open>\<open>.fillna(value=v)\<close> and \<open>.replace([np.inf, -np.inf], v)\<close>, each a new frame.\<close>

definition fillna_frame :: "scalar \<Rightarrow> data_frame \<Rightarrow> data_frame" where
  "fillna_frame v df = df\<lparr>df_values := map (map (\<lambda>x. if isnull x then v else x)) (df_values df),
     df_name := None\<rparr>"

definition is_inf :: "scalar \<Rightarrow> bool" where
  "is_inf x = (x = SFloat (Infinity False) \<or> x = SFloat (Infinity True))"

definition replace_inf :: "scalar \<Rightarrow> data_frame \<Rightarrow> data_frame" where
  "replace_inf v df = df\<lparr>df_values := map (map (\<lambda>x. if is_inf x then v else x)) (df_values df),
     df_name := None\<rparr>"

text \<open>\<open>del df[key]\<close>: in place, removes the columns of that key.\<close>

definition del_column :: "data_frame \<Rightarrow> scalar \<Rightarrow> error + data_frame" where
  "del_column df key =
     (case df_columns df of
        Index nm vs \<Rightarrow>
          (if positions vs key = [] then Inl KeyError
           else Inr (df\<lparr>df_columns := Index nm (filter (\<lambda>c. c \<noteq> key) vs),
                        df_values := map (\<lambda>row. map snd (filter (\<lambda>cx. fst cx \<noteq> key) (zip vs row)))
                                       (df_values df)\<rparr>))
      | _ \<Rightarrow> Inl KeyError)"

text \<open>
  \<open>df[display_key].groupby(level_key).first().fillna('null').to_dict()\<close>: for every
  value of the index level that is not null, the first value of the column in its rows
  that is not null, or \<open>null\<close>. A \<open>KeyError\<close> when the column or the level is missing.
\<close>

definition display_dict :: "data_frame \<Rightarrow> scalar \<Rightarrow> scalar \<Rightarrow> error + (scalar \<Rightarrow> scalar option)" where
  "display_dict df display_key level_key =
     (case (positions (index_values (df_columns df)) display_key,
            positions (index_names (df_index df)) level_key) of
        (j # js, p # ps) \<Rightarrow>
          (let lv = map (\<lambda>t. if p < length t then t ! p else SNone) (index_tuples (df_index df));
               cv = map (\<lambda>row. if j < length row then row ! j else SNone) (df_values df)
           in Inr (\<lambda>k. if isnull k \<or> k \<notin> set lv then None
                        else Some (case find (\<lambda>iv. fst iv = k \<and> \<not> isnull (snd iv)) (zip lv cv) of
                                     None \<Rightarrow> SStr ''null''
                                   | Some iv \<Rightarrow> snd iv)))
      | _ \<Rightarrow> Inl KeyError)"

text \<open>\<open>data_frame.columns.name = v\<close>\<close>

definition set_index_name :: "index \<Rightarrow> scalar \<Rightarrow> index" where
  "set_index_name idx v =
     (case idx of
        Index nm vs \<Rightarrow> Index v vs
      | RangeIndex n \<Rightarrow> Index v (index_values (RangeIndex n))
      | MultiIndex nms ts \<Rightarrow> MultiIndex nms ts)"

subsection \<open>The steps of the transform\<close>

text \<open>
  Frames are objects in a store, an address being a position in it: the steps that
  work in place on the frame \<open>df\<close> replace the frame at that address.
\<close>

fun map_display_values ::
  "'r env \<Rightarrow> data_frame list \<Rightarrow> nat \<Rightarrow> dimension list \<Rightarrow> display_values \<Rightarrow>
   error + (display_values \<times> data_frame list)" where
  "map_display_values env st df [] ddv = Inr (ddv, st)"
| "map_display_values env st df (dimension # rest) ddv =
     (let f_dimension_key = SStr (format_dimension_key env (dim_key dimension))
      in bind_err
           (if dim_has_display_field dimension
            then (let f_display_key = SStr (format_dimension_key env (dim_display_key dimension))
                  in bind_err (display_dict (st ! df) f_display_key f_dimension_key)
                       (\<lambda>d. bind_err (del_column (st ! df) f_display_key)
                          (\<lambda>f. Inr (ddv(f_dimension_key := Some d), st[df := f]))))
            else Inr (ddv, st))
           (\<lambda>r. map_display_values env (snd r) df rest
                  (case dim_display_values dimension of
                     Some dv \<Rightarrow> (fst r)(f_dimension_key := Some dv)
                   | None \<Rightarrow> fst r)))"

text \<open>The loop of \<open>format_data_frame\<close> over \<open>enumerate(dimensions)\<close>.\<close>

fun format_dates :: "'r env \<Rightarrow> index \<Rightarrow> nat \<Rightarrow> dimension list \<Rightarrow> error + index" where
  "format_dates env idx i [] = Inr idx"
| "format_dates env idx i (dimension # rest) =
     (case dim_interval dimension of
        Some iv \<Rightarrow>
          bind_err (map_index_level idx i (strftime env (date_format iv)))
            (\<lambda>idx'. format_dates env idx' (Suc i) rest)
      | None \<Rightarrow> format_dates env idx (Suc i) rest)"

definition format_data_frame :: "'r env \<Rightarrow> data_frame list \<Rightarrow> nat \<Rightarrow> dimension list \<Rightarrow> error + data_frame list" where
  "format_data_frame env st df dimensions =
     bind_err (format_dates env (df_index (st ! df)) 0 dimensions)
       (\<lambda>idx. Inr (st[df := (st ! df)\<lparr>df_index := fillna_index idx TOTALS_VALUE,
                                      df_columns := set_index_name (df_columns (st ! df))
                                                      (metrics_dimension_key env)\<rparr>]))"

definition dimension_map :: "'r env \<Rightarrow> dimension list \<Rightarrow> scalar \<Rightarrow> dimension option" where
  "dimension_map env dimensions =
     map_of (rev (map (\<lambda>d. (SStr (format_dimension_key env (dim_key d)), d))
                    (dimensions @ [metrics env])))"

definition is_range_index :: "index \<Rightarrow> bool" where
  "is_range_index idx = (case idx of RangeIndex n \<Rightarrow> True | _ \<Rightarrow> False)"

definition transform_dimension_column_headers :: "'r env \<Rightarrow> data_frame \<Rightarrow> dimension list \<Rightarrow> error + column list" where
  "transform_dimension_column_headers env df dimensions =
     (if is_range_index (df_index df) then Inr []
      else sequence_err
             (map (\<lambda>f_dimension_key.
                     case (f_dimension_key, dimension_map env dimensions f_dimension_key) of
                       (SStr s, Some d) \<Rightarrow>
                         Inr (Column (SStr (case dim_label d of Some l \<Rightarrow> l | None \<Rightarrow> dim_key d))
                                None (Some s) None)
                     | _ \<Rightarrow> Inl KeyError)
                (index_names (df_index df))))"

record table_output =
  out_columns :: "column list"
  out_data :: "pyval list"

text \<open>
  \<open>transform\<close>, on the store \<open>st\<close> with the caller's frame at the address
  \<open>data_frame\<close>: the selection, the copy, the two fills are new frames; the display
  values and the formatting work on the last of them in place; the pivot step is given
  that frame and returns the frame the headers and the rows are built from.
\<close>

definition transform ::
  "'r env \<Rightarrow> widget \<Rightarrow> data_frame list \<Rightarrow> nat \<Rightarrow> dimension list \<Rightarrow> 'r list \<Rightarrow>
   error + (table_output \<times> data_frame list)" where
  "transform env self st data_frame dimensions references =
     (let df_dimension_columns =
            map (\<lambda>d. SStr (format_dimension_key env (dim_display_key d)))
              (filter dim_has_display_field dimensions);
          items = item_pairs env self references;
          df_metric_columns = map fst items;
          item_map = map_of (AList.update TOTALS_VALUE TotalsItem items)
      in bind_err (select_columns (st ! data_frame) (df_dimension_columns @ df_metric_columns))
           (\<lambda>selected.
              let copied = copy_frame selected;
                  filled = fillna_frame (SStr ''NaN'') copied;
                  replaced = replace_inf (SStr ''Inf'') filled;
                  st1 = st @ [selected, copied, filled, replaced];
                  df = length st + 3
              in bind_err (map_display_values env st1 df dimensions (\<lambda>k. None))
                   (\<lambda>r. let dimension_display_values = fst r
                         in bind_err (format_data_frame env (snd r) df dimensions)
                              (\<lambda>st2. bind_err
                                 (pivot_data_frame env (st2 ! df)
                                    (map (\<lambda>d. SStr (format_dimension_key env (dim_key d))) (w_pivot self))
                                    (w_transpose self))
                                 (\<lambda>pivoted.
                                    bind_err (transform_dimension_column_headers env pivoted dimensions)
                                      (\<lambda>dimension_columns.
                                         bind_err (transform_metric_column_headers (sort_le env)
                                                     (metrics_dimension_key env) pivoted item_map
                                                     dimension_display_values)
                                           (\<lambda>metric_columns.
                                              bind_err (transform_data (float_str env) pivoted item_map
                                                          dimension_display_values)
                                                (\<lambda>data.
                                                   Inr (\<lparr>out_columns = dimension_columns @ metric_columns,
                                                          out_data = data\<rparr>,
                                                        st2 @ [pivoted])))))))))"

text \<open>
  A worked call. The key formats put \<open>$d$\<close> and \<open>$m$\<close> before a key, there are no
  references, the pivot step returns the frame it is given, and dates are left as they
  are. The caller's frame has a null index entry, a null and an infinite metric cell,
  a display column and a column that is not selected.
\<close>

definition ex_env :: "unit env" where
  "ex_env = \<lparr>format_dimension_key = (\<lambda>k. ''$d$'' @ k),
              format_metric_key = (\<lambda>k. ''$m$'' @ k),
              reference_key = (\<lambda>m r. m_key m),
              reference_label = (\<lambda>m r. m_label m),
              metrics = \<lparr>dim_key = ''metrics'', dim_label = Some '''', dim_has_display_field = False,
                          dim_display_key = '''', dim_display_values = None, dim_interval = None\<rparr>,
              pivot_data_frame = (\<lambda>f keys t. Inr f),
              strftime = (\<lambda>f v. v),
              float_str = repr_unmodelled,
              sort_le = key_le\<rparr>"

definition ex_widget :: widget where
  "ex_widget = \<lparr>w_items = [\<lparr>m_key = ''wins'', m_label = ''Wins'', m_prefix = Some ''$'',
                               m_suffix = None, m_precision = None\<rparr>],
                 w_pivot = [], w_transpose = False\<rparr>"

definition ex_dimensions :: "dimension list" where
  "ex_dimensions = [\<lparr>dim_key = ''state'', dim_label = Some ''State'', dim_has_display_field = True,
                      dim_display_key = ''state_display'', dim_display_values = None,
                      dim_interval = None\<rparr>]"

definition ex_result_set :: data_frame where
  "ex_result_set = \<lparr>df_index = Index (SStr ''$d$state'') [SStr ''tx'', SNone],
      df_columns = Index SNone [SStr ''$m$wins'', SStr ''$d$state_display'', SStr ''$m$other''],
      df_values = [[SFloat NaN, SStr ''Texas'', SInt 1], [SFloat (Infinity False), SNone, SInt 2]],
      df_name = None\<rparr>"

text \<open>What the two fills make of a cell.\<close>

definition clean_cell :: "scalar \<Rightarrow> scalar" where
  "clean_cell x = (if isnull x then SStr ''NaN'' else if is_inf x then SStr ''Inf'' else x)"

definition cells_clean :: "data_frame \<Rightarrow> bool" where
  "cells_clean df = list_all (list_all (\<lambda>x. \<not> isnull x \<and> \<not> is_inf x)) (df_values df)"

definition ex_working_copy :: data_frame where
  "ex_working_copy = \<lparr>df_index = Index (SStr ''$d$state'') [SStr ''tx'', TOTALS_VALUE],
     df_columns = Index (SStr ''$d$metrics'') [SStr ''$m$wins''],
     df_values = [[SStr ''NaN''], [SStr ''Inf'']], df_name = None\<rparr>"

definition ex_selected :: data_frame where
  "ex_selected = \<lparr>df_index = Index (SStr ''$d$state'') [SStr ''tx'', SNone],
     df_columns = Index SNone [SStr ''$d$state_display'', SStr ''$m$wins''],
     df_values = [[SStr ''Texas'', SFloat NaN], [SNone, SFloat (Infinity False)]],
     df_name = None\<rparr>"

definition ex_final_store :: "data_frame list" where
  "ex_final_store =
     [ex_result_set, ex_selected, ex_selected,
      ex_selected\<lparr>df_values := [[SStr ''Texas'', SStr ''NaN''], [SStr ''NaN'', SFloat (Infinity False)]]\<rparr>,
      ex_working_copy, ex_working_copy]"

definition ex_output :: table_output where
  "ex_output =
     \<lparr>out_columns = [Column (SStr ''State'') None (Some ''$d$state'') None,
                      Column (SStr ''Wins'') None (Some ''$m$wins'') None],
      out_data =
        [Dict [(SStr ''$d$state'', Dict [(SStr ''raw'', Scalar (SStr ''tx'')),
                                        (SStr ''display'', Scalar (SStr ''Texas''))]),
               (SStr ''$m$wins'', Dict [(SStr ''raw'', Scalar (SStr ''NaN'')),
                                       (SStr ''display'', Scalar (SStr ''$NaN''))])],
         Dict [(SStr ''$d$state'', Dict [(SStr ''raw'', Scalar (SStr ''Totals''))]),
               (SStr ''$m$wins'', Dict [(SStr ''raw'', Scalar (SStr ''Inf'')),
                                       (SStr ''display'', Scalar (SStr ''$Inf''))])]]\<rparr>"

subsection \<open>A table with no rows\<close>

text \<open>
  The column definitions the descriptors give: for a level of the row index the label
  of its dimension (the key when it has no label) with the level key as accessor, for
  a metric column the label of its item with the column key as accessor.
\<close>

definition key_string :: "scalar \<Rightarrow> string" where
  "key_string k = (case k of SStr s \<Rightarrow> s | _ \<Rightarrow> [])"

definition dimension_column :: "'r env \<Rightarrow> dimension list \<Rightarrow> scalar \<Rightarrow> column" where
  "dimension_column env dimensions n =
     (case dimension_map env dimensions n of
        Some d \<Rightarrow> Column (SStr (case dim_label d of Some l \<Rightarrow> l | None \<Rightarrow> dim_key d))
                    None (Some (key_string n)) None
      | None \<Rightarrow> Column SNone None None None)"

definition metric_column :: "item_map \<Rightarrow> scalar \<Rightarrow> column" where
  "metric_column item_map v =
     (case item_map v of
        Some it \<Rightarrow> Column (SStr (it_label it)) None (Some (key_string v))
                     (if TOTALS_VALUE = v then Some ''fireant-totals'' else None)
      | None \<Rightarrow> Column SNone None None None)"

text \<open>Every level of the row index is named by the key of a dimension, or the index is the default one.\<close>

definition levels_are_dimensions :: "'r env \<Rightarrow> dimension list \<Rightarrow> index \<Rightarrow> bool" where
  "levels_are_dimensions env dimensions idx =
     (is_range_index idx \<or>
      list_all (\<lambda>n. case (n, dimension_map env dimensions n) of
                       (SStr s, Some d) \<Rightarrow> True
                     | _ \<Rightarrow> False)
        (index_names idx))"

text \<open>The result set of the worked call with no rows.\<close>

definition ex_empty_result_set :: data_frame where
  "ex_empty_result_set = \<lparr>df_index = Index (SStr ''$d$state'') [],
      df_columns = Index SNone [SStr ''$m$wins'', SStr ''$d$state_display'', SStr ''$m$other''],
      df_values = [], df_name = None\<rparr>"

subsection \<open>The cells of the working copy\<close>

text \<open>
  The cells a selection by keys takes from a row: for each key in turn, for each
  position the key has among the column labels \<open>vs\<close>, the cell \<open>cell k j\<close> of
  that key and position.
\<close>

definition select_cells :: "'k list \<Rightarrow> 'k list \<Rightarrow> ('k \<Rightarrow> nat \<Rightarrow> 'a) \<Rightarrow> 'a list" where
  "select_cells vs keys cell = concat (map (\<lambda>k. map (cell k) (positions vs k)) keys)"

text \<open>
  The keys of the columns the working copy keeps: the metric columns, without the
  display columns that \<open>map_display_values\<close> deletes.
\<close>

definition remaining_keys :: "'r env \<Rightarrow> widget \<Rightarrow> dimension list \<Rightarrow> 'r list \<Rightarrow> scalar list" where
  "remaining_keys env self dimensions references =
     filter (\<lambda>k. k \<notin> set (map (\<lambda>d. SStr (format_dimension_key env (dim_display_key d)))
                              (filter dim_has_display_field dimensions)))
       (map fst (item_pairs env self references))"

section \<open>Properties of the value formatter\<close>

lemma digit_char_is_digit: "d < 10 \<Longrightarrow> is_digit (digit_char d)"
proof -
  assume "d < 10"
  then have "d \<in> {0, 1, 2, 3, 4, 5, 6, 7, 8, 9}" by auto
  then show ?thesis
    by (auto simp: is_digit_def digit_char_def)
qed

lemma nat_str_digits: "list_all is_digit (nat_str n)"
proof (induction n rule: nat_str.induct)
  case (1 n)
  show ?case
  proof (cases "n < 10")
    case True
    then show ?thesis
      by (subst nat_str.simps) (simp add: digit_char_is_digit)
  next
    case False
    with 1 show ?thesis
      by (subst nat_str.simps) (simp add: digit_char_is_digit)
  qed
qed

lemma nat_str_length: "n < 10 ^ Suc k \<Longrightarrow> length (nat_str n) \<le> Suc k"
proof (induction k arbitrary: n)
  case 0
  then show ?case by (subst nat_str.simps) simp
next
  case (Suc k)
  show ?case
  proof (cases "n < 10")
    case True
    then show ?thesis by (subst nat_str.simps) simp
  next
    case False
    from Suc.prems have "n div 10 < 10 ^ Suc k"
      by (simp add: less_mult_imp_div_less mult.commute)
    then have "length (nat_str (n div 10)) \<le> Suc k" by (rule Suc.IH)
    with False show ?thesis by (subst nat_str.simps) simp
  qed
qed

lemma zero_pad_length: "length ds \<le> p \<Longrightarrow> length (zero_pad p ds) = p"
  by (simp add: zero_pad_def)

lemma zero_pad_digits: "list_all is_digit ds \<Longrightarrow> list_all is_digit (zero_pad p ds)"
proof -
  have "is_digit CHR ''0''" by (simp add: is_digit_def)
  then show "list_all is_digit ds \<Longrightarrow> list_all is_digit (zero_pad p ds)"
    by (auto simp: zero_pad_def list_all_iff)
qed

lemma format_fixed_fraction:
  assumes "0 < p"
  shows "\<exists>ip fp. format_fixed p (Finite s m e) = ip @ ''.'' @ fp \<and> length fp = p \<and> list_all is_digit fp"
proof -
  obtain k where k: "p = Suc k" using assms by (cases p) auto
  define n where "n = scaled_round p m e"
  define fp where "fp = zero_pad p (nat_str (n mod 10 ^ p))"
  define ip where "ip = (if s then ''-'' else '''') @ nat_str (n div 10 ^ p)"
  have "n mod 10 ^ Suc k < 10 ^ Suc k" by simp
  then have "length (nat_str (n mod 10 ^ p)) \<le> p"
    unfolding k by (rule nat_str_length)
  then have len: "length fp = p" unfolding fp_def by (rule zero_pad_length)
  have dig: "list_all is_digit fp"
    unfolding fp_def by (rule zero_pad_digits) (rule nat_str_digits)
  have "format_fixed p (Finite s m e) = ip @ ''.'' @ fp"
    using assms by (simp add: format_fixed_def Let_def ip_def fp_def n_def)
  with len dig show ?thesis by blast
qed

lemma display_value_bool:
  "display_value fs (SBool b) pre suf prec =
     Inr (or_empty pre @ (if b then ''true'' else ''false'') @ or_empty suf)"
  by (simp add: display_value_def format_numeric_value_def bind_err_def py_str_def Let_def
        split: option.splits)

lemma display_value_float_precision:
  "0 \<le> p \<Longrightarrow> p \<le> INT_MAX \<Longrightarrow> display_value fs (SFloat x) pre suf (Some p) =
     Inr (or_empty pre @ format_fixed (nat p) x @ or_empty suf)"
  by (simp add: display_value_def format_numeric_value_def bind_err_def Let_def)

lemma display_value_float_refused:
  "p < 0 \<or> INT_MAX < p \<Longrightarrow> display_value fs (SFloat x) pre suf (Some p) = Inl ValueError"
  by (auto simp: display_value_def format_numeric_value_def bind_err_def Let_def)

lemma display_value_float_default:
  "display_value fs (SFloat x) pre suf None = Inr (or_empty pre @ fs x @ or_empty suf)"
  by (simp add: display_value_def format_numeric_value_def bind_err_def py_str_def Let_def)

lemma display_value_int:
  "display_value fs (SInt i) pre suf prec = Inr (or_empty pre @ int_commas i @ or_empty suf)"
  by (simp add: display_value_def format_numeric_value_def bind_err_def Let_def
        split: option.splits)

lemma display_value_other:
  "v = SNone \<or> v = SNaT \<or> v = SStr t \<or> v = SOther t \<Longrightarrow>
   display_value fs v pre suf prec = Inr (or_empty pre @ py_str fs v @ or_empty suf)"
  by (auto simp: display_value_def format_numeric_value_def bind_err_def Let_def
        split: option.splits)

lemma display_value_total:
  "(\<exists>s. display_value fs v pre suf prec = Inr s) \<longleftrightarrow> (precision_ok prec \<or> (\<forall>x. v \<noteq> SFloat x))"
  by (cases v; cases prec)
     (auto simp: precision_ok_def display_value_def format_numeric_value_def bind_err_def
        Let_def)

lemma nat_str_1234567: "nat_str 1234567 = ''1234567''"
  by (simp add: nat_str.simps digit_char_def)

lemma scaled_round_pi: "scaled_round 2 7074231776675438 (- 51) = 314"
  by (simp add: scaled_round_def Let_def)

lemma format_fixed_pi: "format_fixed 2 (Finite False 7074231776675438 (- 51)) = ''3.14''"
  by (simp add: format_fixed_def scaled_round_pi zero_pad_def nat_str.simps digit_char_def)

lemma display_value_example_bool:
  "display_value fs (SBool True) None None None = Inr ''true''"
  by (simp add: display_value_bool or_empty_def)

lemma display_value_example_int:
  "display_value fs (SInt 1234567) None None None = Inr ''1,234,567''"
  by (simp add: display_value_int or_empty_def int_commas_def nat_str_1234567)

lemma display_value_example_float:
  "display_value fs (SFloat (Finite False 7074231776675438 (- 51))) None None (Some 2) = Inr ''3.14''"
  by (simp add: display_value_float_precision INT_MAX_def or_empty_def format_fixed_pi)

lemma display_value_example_prefix:
  "display_value fs (SInt 5) (Some ''$'') None None = Inr ''$5''"
  by (simp add: display_value_int or_empty_def int_commas_def nat_str.simps digit_char_def)

text \<open>
  Claim C2, as amended. \<open>display_value\<close> is a function of its arguments (so
  deterministic). It returns a string exactly when the precision is unset or from 0 to
  2147483647, or the value is not a float: a float with a negative precision, or with
  one above 2147483647, raises \<open>ValueError\<close>. A bool renders as \<open>true\<close> or
  \<open>false\<close> whatever the precision; a float with a precision \<open>p\<close> in that range
  renders as the fixed-point conversion, whose fraction has exactly \<open>p\<close> digits; an
  int renders with thousands separators; a float without precision, a string,
  \<open>None\<close> and any other value render through the default string conversion; the
  result is prefix, formatted value, suffix, an unset prefix or suffix being empty. The
  float \<open>3.14159\<close> is the double \<open>7074231776675438 * 2^(-51)\<close>.
\<close>

theorem display_value_formats:
  "((\<exists>s. display_value fs v pre suf prec = Inr s)
      \<longleftrightarrow> (precision_ok prec \<or> (\<forall>y. v \<noteq> SFloat y)))
    \<and> display_value fs (SBool b) pre suf prec =
        Inr (or_empty pre @ (if b then ''true'' else ''false'') @ or_empty suf)
    \<and> (\<forall>p. prec = Some p \<and> 0 \<le> p \<and> p \<le> 2147483647 \<longrightarrow>
          display_value fs (SFloat x) pre suf prec =
            Inr (or_empty pre @ format_fixed (nat p) x @ or_empty suf))
    \<and> (\<forall>p. prec = Some p \<and> (p < 0 \<or> 2147483647 < p) \<longrightarrow>
          display_value fs (SFloat x) pre suf prec = Inl ValueError)
    \<and> (\<forall>p. 0 < p \<longrightarrow>
          (\<exists>ip fp. format_fixed (nat p) (Finite sg m e) = ip @ ''.'' @ fp
             \<and> length fp = nat p \<and> list_all is_digit fp))
    \<and> display_value fs (SInt i) pre suf prec = Inr (or_empty pre @ int_commas i @ or_empty suf)
    \<and> (prec = None \<longrightarrow>
          display_value fs (SFloat x) pre suf prec = Inr (or_empty pre @ fs x @ or_empty suf))
    \<and> display_value fs (SStr t) pre suf prec = Inr (or_empty pre @ t @ or_empty suf)
    \<and> display_value fs (SOther t) pre suf prec = Inr (or_empty pre @ t @ or_empty suf)
    \<and> display_value fs SNone pre suf prec = Inr (or_empty pre @ ''None'' @ or_empty suf)
    \<and> or_empty None = ''''
    \<and> display_value fs (SBool True) None None None = Inr ''true''
    \<and> display_value fs (SInt 1234567) None None None = Inr ''1,234,567''
    \<and> display_value fs (SFloat (Finite False 7074231776675438 (- 51))) None None (Some 2)
        = Inr ''3.14''
    \<and> display_value fs (SInt 5) (Some ''$'') None None = Inr ''$5''"
proof -
  have total: "(\<exists>s. display_value fs v pre suf prec = Inr s)
      \<longleftrightarrow> (precision_ok prec \<or> (\<forall>y. v \<noteq> SFloat y))"
    by (rule display_value_total)
  have flt: "\<forall>p. prec = Some p \<and> 0 \<le> p \<and> p \<le> 2147483647 \<longrightarrow>
          display_value fs (SFloat x) pre suf prec =
            Inr (or_empty pre @ format_fixed (nat p) x @ or_empty suf)"
    by (auto simp: display_value_float_precision INT_MAX_def)
  have ref: "\<forall>p. prec = Some p \<and> (p < 0 \<or> 2147483647 < p) \<longrightarrow>
          display_value fs (SFloat x) pre suf prec = Inl ValueError"
    by (auto simp: display_value_float_refused INT_MAX_def)
  have frac: "\<forall>p. 0 < p \<longrightarrow>
          (\<exists>ip fp. format_fixed (nat p) (Finite sg m e) = ip @ ''.'' @ fp
             \<and> length fp = nat p \<and> list_all is_digit fp)"
  proof (intro allI impI)
    fix p :: int
    assume "0 < p"
    then have "0 < nat p" by simp
    then show "\<exists>ip fp. format_fixed (nat p) (Finite sg m e) = ip @ ''.'' @ fp
             \<and> length fp = nat p \<and> list_all is_digit fp"
      by (rule format_fixed_fraction)
  qed
  have dflt: "prec = None \<longrightarrow>
          display_value fs (SFloat x) pre suf prec = Inr (or_empty pre @ fs x @ or_empty suf)"
    by (simp add: display_value_float_default)
  have str: "display_value fs (SStr t) pre suf prec = Inr (or_empty pre @ t @ or_empty suf)"
    using display_value_other [of "SStr t" t fs pre suf prec] by (simp add: py_str_def)
  have oth: "display_value fs (SOther t) pre suf prec = Inr (or_empty pre @ t @ or_empty suf)"
    using display_value_other [of "SOther t" t fs pre suf prec] by (simp add: py_str_def)
  have non: "display_value fs SNone pre suf prec = Inr (or_empty pre @ ''None'' @ or_empty suf)"
    using display_value_other [of SNone t fs pre suf prec] by (simp add: py_str_def)
  have emp: "or_empty None = ''''" by (simp add: or_empty_def)
  show ?thesis
    by (intro conjI total display_value_bool flt ref frac display_value_int dflt str oth non emp
          display_value_example_bool display_value_example_int display_value_example_float
          display_value_example_prefix)
qed

theorem display_value_formats_witness:
  "precision_ok (Some 2)
   \<and> display_value (\<lambda>x. ''?'') (SFloat (Finite False 7074231776675438 (- 51)))
        (Some ''$'') None (Some 2) = Inr ''$3.14''
   \<and> display_value (\<lambda>x. ''?'') (SFloat (Finite False 3 (- 1))) None None (Some 2147483648)
        = Inl ValueError"
proof -
  have ok: "precision_ok (Some 2)" by (simp add: precision_ok_def INT_MAX_def)
  note th = display_value_formats [where pre = "Some ''$''" and suf = None and prec = "Some 2"
      and x = "Finite False 7074231776675438 (- 51)" and fs = "\<lambda>x. ''?''"]
  from th [THEN conjunct2, THEN conjunct2, THEN conjunct1]
  have a: "display_value (\<lambda>x. ''?'') (SFloat (Finite False 7074231776675438 (- 51)))
          (Some ''$'') None (Some 2)
        = Inr (or_empty (Some ''$'') @ format_fixed (nat 2)
            (Finite False 7074231776675438 (- 51)) @ or_empty None)"
    by simp
  note th2 = display_value_formats [where pre = None and suf = None and prec = "Some 2147483648"
      and x = "Finite False 3 (- 1)" and fs = "\<lambda>x. ''?''"]
  from th2 [THEN conjunct2, THEN conjunct2, THEN conjunct2, THEN conjunct1]
  have b: "display_value (\<lambda>x. ''?'') (SFloat (Finite False 3 (- 1))) None None (Some 2147483648)
        = Inl ValueError"
    by simp
  from ok a b show ?thesis by (simp add: or_empty_def format_fixed_pi)
qed

text \<open>
  Claim C2 as stated fails: it has \<open>display_value\<close> never raise, and the float
  \<open>1.5\<close> (the double \<open>3 * 2^(-1)\<close>) with the precision \<open>-1\<close> raises
  \<open>ValueError\<close>.
\<close>

theorem negative_precision_raises:
  "display_value repr_unmodelled (SFloat (Finite False 3 (- 1))) None None (Some (- 1))
   = Inl ValueError"
  by (simp add: display_value_def format_numeric_value_def bind_err_def Let_def)

section \<open>Properties of the row data builder\<close>

lemma map_of_update: "map_of (AList.update k v d) k' = (if k' = k then Some v else map_of d k')"
  by (simp add: update_conv')

lemma lookup_append:
  "lookup r (p @ q) = (case lookup r p of None \<Rightarrow> None | Some r' \<Rightarrow> lookup r' q)"
proof (induction r p rule: lookup.induct)
  case (1 v)
  then show ?case by simp
next
  case (2 x k ks)
  then show ?case by simp
next
  case (3 d k ks)
  then show ?case by (cases "map_of d k") simp_all
qed

lemma setdeepattr_lookup_same:
  "setdeepattr d p v = Inr d' \<Longrightarrow> lookup (Dict d') p = Some v"
proof (induction d p v arbitrary: d' rule: setdeepattr.induct)
  case (1 d v)
  then show ?case by simp
next
  case (2 d top_key v)
  then show ?case by (auto simp: map_of_update)
next
  case (3 d top_key k rest v)
  show ?case
  proof (cases "map_of d top_key")
    case None
    with 3(3) obtain sub where s: "setdeepattr [] (k # rest) v = Inr sub"
      and d': "d' = AList.update top_key (Dict sub) d"
      by (auto simp: bind_err_def split: sum.splits)
    from 3(1) [OF None s] have "lookup (Dict sub) (k # rest) = Some v" .
    with d' show ?thesis by (simp add: map_of_update)
  next
    case (Some x)
    show ?thesis
    proof (cases x)
      case (Scalar y)
      with Some 3(3) show ?thesis by simp
    next
      case (Dict sub0)
      with Some 3(3) obtain sub where s: "setdeepattr sub0 (k # rest) v = Inr sub"
        and d': "d' = AList.update top_key (Dict sub) d"
        by (auto simp: bind_err_def split: sum.splits)
      from 3(2) [OF Some Dict s] have "lookup (Dict sub) (k # rest) = Some v" .
      with d' show ?thesis by (simp add: map_of_update)
    qed
  qed
qed

lemma setdeepattr_lookup_other:
  "setdeepattr d p v = Inr d' \<Longrightarrow> \<not> comparable p q \<Longrightarrow> lookup (Dict d') q = lookup (Dict d) q"
proof (induction d p v arbitrary: d' q rule: setdeepattr.induct)
  case (1 d v)
  then show ?case by simp
next
  case (2 d top_key v)
  then obtain q0 qs where q: "q = q0 # qs" and ne: "q0 \<noteq> top_key"
    by (cases q) (auto simp: comparable_def)
  with 2 show ?case by (auto simp: map_of_update)
next
  case (3 d top_key k rest v)
  from 3(4) obtain q0 qs where q: "q = q0 # qs"
    by (cases q) (auto simp: comparable_def)
  show ?case
  proof (cases "q0 = top_key")
    case False
    with 3(3) q show ?thesis
      by (auto simp: bind_err_def map_of_update split: sum.splits option.splits pyval.splits)
  next
    case True
    with 3(4) q have nc: "\<not> comparable (k # rest) qs"
      by (auto simp: comparable_def)
    then have qs: "qs \<noteq> []" by (auto simp: comparable_def)
    show ?thesis
    proof (cases "map_of d top_key")
      case None
      with 3(3) obtain sub where s: "setdeepattr [] (k # rest) v = Inr sub"
        and d': "d' = AList.update top_key (Dict sub) d"
        by (auto simp: bind_err_def split: sum.splits)
      from 3(1) [OF None s nc] have "lookup (Dict sub) qs = lookup (Dict []) qs" .
      moreover from qs have "lookup (Dict []) qs = None" by (cases qs) auto
      ultimately show ?thesis using d' q True None by (simp add: map_of_update)
    next
      case (Some x)
      show ?thesis
      proof (cases x)
        case (Scalar y)
        with Some 3(3) show ?thesis by simp
      next
        case (Dict sub0)
        with Some 3(3) obtain sub where s: "setdeepattr sub0 (k # rest) v = Inr sub"
          and d': "d' = AList.update top_key (Dict sub) d"
          by (auto simp: bind_err_def split: sum.splits)
        from 3(2) [OF Some Dict s nc] have "lookup (Dict sub) qs = lookup (Dict sub0) qs" .
        with d' q True Some Dict show ?thesis by (simp add: map_of_update)
      qed
    qed
  qed
qed

lemma comparable_same_length: "length p = length q \<Longrightarrow> comparable p q \<Longrightarrow> p = q"
  by (auto simp: comparable_def)

lemma sequence_err_map:
  "sequence_err (map f xs) = Inr ys \<Longrightarrow> list_all2 (\<lambda>x y. f x = Inr y) xs ys"
proof (induction xs arbitrary: ys)
  case Nil
  then show ?case by simp
next
  case (Cons x xs)
  then show ?case by (auto split: sum.splits)
qed

lemma add_values_lookup_other:
  "add_values fs im kvs row = Inr row' \<Longrightarrow> list_all (\<lambda>kv. \<not> comparable (fst kv) q) kvs
   \<Longrightarrow> lookup (Dict row') q = lookup (Dict row) q"
proof (induction kvs arbitrary: row)
  case Nil
  then show ?case by simp
next
  case (Cons kv kvs)
  obtain key v where kv: "kv = (key, v)" by (cases kv)
  with Cons.prems(1) obtain data row1 where c: "column_cell fs im key v = Inr data"
    and s: "setdeepattr row key data = Inr row1"
    and r: "add_values fs im kvs row1 = Inr row'"
    by (auto simp: bind_err_def split: sum.splits)
  from Cons.prems(2) kv have nc: "\<not> comparable key q" and rest: "list_all (\<lambda>kv. \<not> comparable (fst kv) q) kvs"
    by simp_all
  from Cons.IH [OF r rest] have "lookup (Dict row') q = lookup (Dict row1) q" .
  also from setdeepattr_lookup_other [OF s nc] have "\<dots> = lookup (Dict row) q" .
  finally show ?case .
qed

lemma add_values_lookup:
  assumes "add_values fs im kvs row = Inr row'"
    and "distinct (map fst kvs)"
    and "list_all (\<lambda>kv. length (fst kv) = n) kvs"
    and "(key, v) \<in> set kvs"
  shows "\<exists>data. column_cell fs im key v = Inr data \<and> lookup (Dict row') key = Some data"
  using assms
proof (induction kvs arbitrary: row)
  case Nil
  then show ?case by simp
next
  case (Cons kv kvs)
  obtain key0 v0 where kv: "kv = (key0, v0)" by (cases kv)
  with Cons.prems(1) obtain data row1 where c: "column_cell fs im key0 v0 = Inr data"
    and s: "setdeepattr row key0 data = Inr row1"
    and r: "add_values fs im kvs row1 = Inr row'"
    by (auto simp: bind_err_def split: sum.splits)
  from Cons.prems(2) have d: "distinct (map fst kvs)" and notin: "fst kv \<notin> fst ` set kvs" by auto
  from Cons.prems(3) have len: "list_all (\<lambda>kv. length (fst kv) = n) kvs" and len0: "length (fst kv) = n"
    by simp_all
  show ?case
  proof (cases "(key, v) = kv")
    case True
    with kv have eq: "key = key0" "v = v0" by simp_all
    have "list_all (\<lambda>kv'. \<not> comparable (fst kv') key0) kvs"
      unfolding list_all_iff
    proof
      fix kv' assume m: "kv' \<in> set kvs"
      with len have "length (fst kv') = n" by (simp add: list_all_iff)
      with len0 kv have "length (fst kv') = length key0" by simp
      moreover from m notin kv have "fst kv' \<noteq> key0" by force
      ultimately show "\<not> comparable (fst kv') key0"
        using comparable_same_length by blast
    qed
    from add_values_lookup_other [OF r this]
    have "lookup (Dict row') key0 = lookup (Dict row1) key0" .
    with setdeepattr_lookup_same [OF s] c eq show ?thesis by simp
  next
    case False
    with Cons.prems(4) have "(key, v) \<in> set kvs" by auto
    from Cons.IH [OF r d len this] show ?thesis .
  qed
qed

lemma add_index_other:
  "key \<notin> fst ` set kvs \<Longrightarrow> map_of (add_index ddv kvs row) key = map_of row key"
proof (induction ddv kvs row rule: add_index.induct)
  case (1 ddv row)
  then show ?case by simp
next
  case (2 ddv k v rest row)
  then show ?case by (auto simp: map_of_update)
qed

lemma add_index_lookup:
  "distinct (map fst kvs) \<Longrightarrow> (key, v) \<in> set kvs \<Longrightarrow> key \<noteq> SNone \<Longrightarrow>
   map_of (add_index ddv kvs row) key = Some (cell_value v (getdeepattr ddv (key, v) SNone))"
proof (induction ddv kvs row rule: add_index.induct)
  case (1 ddv row)
  then show ?case by simp
next
  case (2 ddv k w rest row)
  show ?case
  proof (cases "(key, v) = (k, w)")
    case True
    with 2(3) have "key \<notin> fst ` set rest" by auto
    from add_index_other [OF this] True 2(5) show ?thesis
      by (simp add: map_of_update)
  next
    case False
    with 2(4) have m: "(key, v) \<in> set rest" by auto
    from 2(3) have d: "distinct (map fst rest)" by simp
    show ?thesis
    proof (cases "k = SNone")
      case True
      from 2(1) [OF True d m 2(5)] True show ?thesis by simp
    next
      case False
      from 2(2) [OF False d m 2(5)] False show ?thesis by simp
    qed
  qed
qed

lemma raw_not_display: "RAW_VALUE \<noteq> SStr ''display''"
  by (simp add: RAW_VALUE_def)

lemma lookup_cell_value_raw: "lookup (cell_value v d) [RAW_VALUE] = Some (Scalar v)"
  using raw_not_display by (simp add: cell_value_def map_of_update)

lemma lookup_cell_value_display:
  "lookup (cell_value v d) [SStr ''display''] = (if d = SNone then None else Some (Scalar d))"
  using raw_not_display by (auto simp: cell_value_def map_of_update)

lemma wf_index_tuples_length:
  "wf_index idx \<Longrightarrow> list_all (\<lambda>t. length t = length (index_names idx)) (index_tuples idx)"
  by (cases idx) (simp_all add: wf_index_def index_names_def index_tuples_def list_all_iff)

lemma wf_index_names_nonempty: "wf_index idx \<Longrightarrow> index_names idx \<noteq> []"
  by (cases idx) (simp_all add: wf_index_def index_names_def)

lemma transform_data_rows:
  assumes "transform_data fs df im ddv = Inr rows" and "wf_frame df" and "i < length rows"
  shows "length rows = index_size (df_index df)"
    and "row_record fs df im ddv (index_tuples (df_index df) ! i, df_values df ! i) = Inr (rows ! i)"
proof -
  from assms(1) have l2: "list_all2 (\<lambda>x y. row_record fs df im ddv x = Inr y) (iterrows df) rows"
    unfolding transform_data_def by (rule sequence_err_map)
  from assms(2) have len: "length (iterrows df) = index_size (df_index df)"
    by (simp add: wf_frame_def iterrows_def index_size_def)
  from l2 have eq: "length (iterrows df) = length rows" by (rule list_all2_lengthD)
  with len show "length rows = index_size (df_index df)" by simp
  from assms(3) eq have "iterrows df ! i = (index_tuples (df_index df) ! i, df_values df ! i)"
    by (simp add: iterrows_def)
  moreover from l2 assms(3) have "row_record fs df im ddv (iterrows df ! i) = Inr (rows ! i)"
    by (simp add: list_all2_conv_all_nth)
  ultimately show "row_record fs df im ddv (index_tuples (df_index df) ! i, df_values df ! i) = Inr (rows ! i)"
    by simp
qed

lemma wf_frame_row_length:
  "wf_frame df \<Longrightarrow> i < index_size (df_index df) \<Longrightarrow>
   length (df_values df ! i) = length (index_tuples (df_columns df))"
  by (simp add: wf_frame_def list_all_iff index_size_def)

lemma row_cells_at_columns:
  assumes "transform_data fs df im ddv = Inr rows"
    and "wf_frame df"
    and "distinct (index_tuples (df_columns df))"
    and "i < length rows"
    and "j < index_size (df_columns df)"
  shows "let key = index_tuples (df_columns df) ! j; v = df_values df ! i ! j in
      lookup (rows ! i) (key @ [RAW_VALUE]) = Some (Scalar v)
      \<and> (case im (level0 key) of
            None \<Rightarrow>
              lookup (rows ! i) (key @ [SStr ''display'']) =
                (if v = SNone then None else Some (Scalar v))
          | Some it \<Rightarrow>
              (\<exists>s. display_value fs v (it_prefix it) (it_suffix it) (it_precision it) = Inr s
                 \<and> lookup (rows ! i) (key @ [SStr ''display'']) = Some (Scalar (SStr s))))"
proof -
  define keys where "keys = index_tuples (df_columns df)"
  define vals where "vals = df_values df ! i"
  define key where "key = keys ! j"
  define v where "v = vals ! j"
  define row0 where "row0 = add_index ddv (zip (index_names (df_index df))
      (index_labels im (index_tuples (df_index df) ! i))) []"
  from transform_data_rows [OF assms(1,2,4)]
  have n: "length rows = index_size (df_index df)"
    and rr: "row_record fs df im ddv (index_tuples (df_index df) ! i, vals) = Inr (rows ! i)"
    by (simp_all add: vals_def)
  from rr obtain row where av: "add_values fs im (zip keys vals) row0 = Inr row"
    and ri: "rows ! i = Dict row"
    by (auto simp: row_record_def bind_err_def keys_def row0_def split: sum.splits)
  from assms(2,4) n have lv: "length vals = length keys"
    by (simp add: vals_def keys_def wf_frame_row_length)
  then have fst_zip: "map fst (zip keys vals) = keys" by simp
  from assms(5) have j: "j < length keys" by (simp add: keys_def index_size_def)
  from assms(2) have wfc: "wf_index (df_columns df)" by (simp add: wf_frame_def)
  from wf_index_tuples_length [OF wfc]
  have lens: "list_all (\<lambda>t. length t = length (index_names (df_columns df))) keys"
    by (simp add: keys_def)
  then have lens': "list_all (\<lambda>kv. length (fst kv) = length (index_names (df_columns df))) (zip keys vals)"
    by (auto simp: list_all_iff dest: set_zip_leftD)
  from j lv have mem: "(key, v) \<in> set (zip keys vals)"
    by (auto simp: key_def v_def set_zip)
  from assms(3) have dist: "distinct (map fst (zip keys vals))"
    unfolding fst_zip by (simp add: keys_def)
  from add_values_lookup [OF av dist lens' mem]
  obtain data where cc: "column_cell fs im key v = Inr data"
    and lk: "lookup (Dict row) key = Some data" by blast
  from lens j have "length key = length (index_names (df_columns df))"
    by (simp add: list_all_iff key_def)
  with wf_index_names_nonempty [OF wfc] obtain k ks where kk: "key = k # ks"
    by (cases key) auto
  have raw: "lookup (rows ! i) (key @ [RAW_VALUE]) = lookup data [RAW_VALUE]"
    and dis: "lookup (rows ! i) (key @ [SStr ''display'']) = lookup data [SStr ''display'']"
    using lk ri by (simp_all add: lookup_append)
  have "lookup (rows ! i) (key @ [RAW_VALUE]) = Some (Scalar v)
      \<and> (case im (level0 key) of
            None \<Rightarrow>
              lookup (rows ! i) (key @ [SStr ''display'']) =
                (if v = SNone then None else Some (Scalar v))
          | Some it \<Rightarrow>
              (\<exists>s. display_value fs v (it_prefix it) (it_suffix it) (it_precision it) = Inr s
                 \<and> lookup (rows ! i) (key @ [SStr ''display'']) = Some (Scalar (SStr s))))"
  proof (cases "im k")
    case None
    with cc kk have "data = cell_value v v" by (simp add: column_cell_def)
    with raw dis None kk show ?thesis
      by (simp add: lookup_cell_value_raw lookup_cell_value_display level0_def)
  next
    case (Some it)
    with cc kk obtain s where
      s: "display_value fs v (it_prefix it) (it_suffix it) (it_precision it) = Inr s"
      and "data = cell_value v (SStr s)"
      by (auto simp: column_cell_def bind_err_def split: sum.splits)
    with raw dis Some kk show ?thesis
      by (simp add: lookup_cell_value_raw lookup_cell_value_display level0_def)
  qed
  then show ?thesis
    unfolding Let_def key_def v_def keys_def vals_def .
qed

text \<open>
  Claim C4, as amended. When \<open>transform_data\<close> returns the rows of a well-formed
  table whose column keys are distinct, row \<open>i\<close> holds at the key path of column \<open>j\<close>
  a cell whose \<open>raw\<close> is the table's scalar, verbatim. When the item map has no
  descriptor for the first component of the key, the \<open>display\<close> entry is that same
  scalar, unformatted, and is absent only when the scalar is \<open>None\<close>; when it has one,
  \<open>display\<close> is the string \<open>display_value\<close> returns for the descriptor's prefix,
  suffix and precision.
\<close>

theorem column_cells_of_rows:
  assumes "transform_data fs df im ddv = Inr rows"
    and "wf_frame df"
    and "distinct (index_tuples (df_columns df))"
    and "i < length rows"
    and "j < index_size (df_columns df)"
  shows "let key = index_tuples (df_columns df) ! j; v = df_values df ! i ! j in
      lookup (rows ! i) (key @ [RAW_VALUE]) = Some (Scalar v)
      \<and> (case im (level0 key) of
            None \<Rightarrow>
              lookup (rows ! i) (key @ [SStr ''display'']) =
                (if v = SNone then None else Some (Scalar v))
          | Some it \<Rightarrow>
              (\<exists>s. display_value fs v (it_prefix it) (it_suffix it) (it_precision it) = Inr s
                 \<and> lookup (rows ! i) (key @ [SStr ''display'']) = Some (Scalar (SStr s))))"
  using assms by (rule row_cells_at_columns)


lemma not_comparable_first:
  "t \<noteq> [] \<Longrightarrow> level0 t \<noteq> k \<Longrightarrow> \<not> comparable t [k]"
  by (cases t) (auto simp: comparable_def level0_def)

text \<open>
  Claim C7, as amended. When \<open>transform_data\<close> returns the rows of a well-formed
  table with distinct index level names, row \<open>i\<close> holds under every named level \<open>l\<close>
  of the row index (no column key starting with that name) a cell whose \<open>raw\<close> is the
  index value itself, unless that value is a key of the item map: then \<open>raw\<close> is the
  label of that descriptor, in place of the value. The \<open>display\<close> entry is the
  display value found for the level name and \<open>raw\<close>, and is absent when there is none.
\<close>

theorem index_cells_of_rows:
  assumes "transform_data fs df im ddv = Inr rows"
    and "wf_frame df"
    and "distinct (index_names (df_index df))"
    and "i < length rows"
    and "l < length (index_names (df_index df))"
    and "index_names (df_index df) ! l \<noteq> SNone"
    and "list_all (\<lambda>t. level0 t \<noteq> index_names (df_index df) ! l) (index_tuples (df_columns df))"
  shows "let key = index_names (df_index df) ! l;
             x = index_tuples (df_index df) ! i ! l;
             raw = (case im x of None \<Rightarrow> x | Some it \<Rightarrow> SStr (it_label it));
             display = getdeepattr ddv (key, raw) SNone
         in lookup (rows ! i) [key, RAW_VALUE] = Some (Scalar raw)
            \<and> lookup (rows ! i) [key, SStr ''display''] =
                (if display = SNone then None else Some (Scalar display))"
proof -
  define names where "names = index_names (df_index df)"
  define idx where "idx = index_tuples (df_index df) ! i"
  define keys where "keys = index_tuples (df_columns df)"
  define vals where "vals = df_values df ! i"
  define key where "key = names ! l"
  define raw where "raw = index_labels im idx ! l"
  define row0 where "row0 = add_index ddv (zip names (index_labels im idx)) []"
  from transform_data_rows [OF assms(1,2,4)]
  have n: "length rows = index_size (df_index df)"
    and rr: "row_record fs df im ddv (idx, vals) = Inr (rows ! i)"
    by (simp_all add: vals_def idx_def)
  from rr obtain row where av: "add_values fs im (zip keys vals) row0 = Inr row"
    and ri: "rows ! i = Dict row"
    by (auto simp: row_record_def bind_err_def keys_def row0_def names_def split: sum.splits)
  from assms(2) have wfi: "wf_index (df_index df)" and wfc: "wf_index (df_columns df)"
    by (simp_all add: wf_frame_def)
  from assms(4) n have "idx \<in> set (index_tuples (df_index df))"
    by (simp add: idx_def index_size_def)
  with wf_index_tuples_length [OF wfi] have li: "length idx = length names"
    by (simp add: list_all_iff names_def)
  with assms(5) have l: "l < length names" "l < length (index_labels im idx)"
    by (simp_all add: names_def index_labels_def)
  then have mem: "(key, raw) \<in> set (zip names (index_labels im idx))"
    by (auto simp: set_zip key_def raw_def)
  from li have "map fst (zip names (index_labels im idx)) = names"
    by (simp add: index_labels_def)
  with assms(3) have dist: "distinct (map fst (zip names (index_labels im idx)))"
    by (simp add: names_def)
  from assms(6) have ne: "key \<noteq> SNone" by (simp add: key_def names_def)
  from add_index_lookup [OF dist mem ne]
  have r0: "map_of row0 key = Some (cell_value raw (getdeepattr ddv (key, raw) SNone))"
    by (simp add: row0_def)
  have "list_all (\<lambda>kv. \<not> comparable (fst kv) [key]) (zip keys vals)"
    unfolding list_all_iff
  proof
    fix kv assume "kv \<in> set (zip keys vals)"
    then have "(fst kv, snd kv) \<in> set (zip keys vals)" by simp
    then have m: "fst kv \<in> set keys" by (rule set_zip_leftD)
    with assms(7) have "level0 (fst kv) \<noteq> key"
      by (simp add: list_all_iff keys_def key_def names_def)
    moreover from m wf_index_tuples_length [OF wfc] wf_index_names_nonempty [OF wfc]
    have "fst kv \<noteq> []" by (auto simp: list_all_iff keys_def)
    ultimately show "\<not> comparable (fst kv) [key]" by (simp add: not_comparable_first)
  qed
  from add_values_lookup_other [OF av this]
  have "lookup (Dict row) [key] = lookup (Dict row0) [key]" .
  with r0 ri have lk: "lookup (rows ! i) [key] = Some (cell_value raw (getdeepattr ddv (key, raw) SNone))"
    by simp
  have two: "\<And>k. lookup (rows ! i) [key, k] = lookup (cell_value raw (getdeepattr ddv (key, raw) SNone)) [k]"
    using lookup_append [of "rows ! i" "[key]"] lk by simp
  from l have raw_eq: "raw = (case im (idx ! l) of None \<Rightarrow> idx ! l | Some it \<Rightarrow> SStr (it_label it))"
    by (simp add: raw_def index_labels_def)
  have "lookup (rows ! i) [key, RAW_VALUE] = Some (Scalar raw)
        \<and> lookup (rows ! i) [key, SStr ''display''] =
            (if getdeepattr ddv (key, raw) SNone = SNone then None
             else Some (Scalar (getdeepattr ddv (key, raw) SNone)))"
    by (simp add: two lookup_cell_value_raw lookup_cell_value_display)
  then show ?thesis
    unfolding Let_def raw_eq key_def names_def idx_def .
qed

lemma nat_str_small: "nat_str 5 = ''5''" "nat_str 12 = ''12''"
  by (simp_all add: nat_str.simps digit_char_def)

lemma display_value_ex:
  "display_value fs (SInt 5) (Some ''$'') None None = Inr ''$5''"
  "display_value fs (SInt 12) (Some ''$'') None None = Inr ''$12''"
  by (simp_all add: display_value_int or_empty_def int_commas_def nat_str_small)

lemma column_cell_ex:
  "column_cell fs ex_items [SStr ''$m$wins''] (SInt 5) = Inr (cell_value (SInt 5) (SStr ''$5''))"
  "column_cell fs ex_items [SStr ''$m$wins''] (SInt 12) = Inr (cell_value (SInt 12) (SStr ''$12''))"
  "column_cell fs ex_items [SStr ''x''] v = Inr (cell_value v v)"
  by (simp_all add: column_cell_def ex_items_def TOTALS_VALUE_def display_value_ex bind_err_def)

lemma transform_data_ex:
  "transform_data repr_unmodelled ex_frame ex_items ex_display_values = Inr ex_rows"
  by (simp add: transform_data_def iterrows_def row_record_def ex_frame_def index_tuples_def
      index_values_def index_names_def index_labels_def ex_items_def [THEN fun_cong] TOTALS_VALUE_def
      TotalsItem_def column_cell_ex bind_err_def cell_value_def RAW_VALUE_def getdeepattr_def
      ex_display_values_def ex_rows_def)

lemma wf_ex_frame: "wf_frame ex_frame"
  by (simp add: wf_frame_def wf_index_def ex_frame_def index_size_def index_tuples_def
      index_values_def)

theorem column_cells_of_rows_witness:
  "transform_data repr_unmodelled ex_frame ex_items ex_display_values = Inr ex_rows
   \<and> wf_frame ex_frame
   \<and> distinct (index_tuples (df_columns ex_frame))
   \<and> (0::nat) < length ex_rows
   \<and> (0::nat) < index_size (df_columns ex_frame)
   \<and> lookup (ex_rows ! 0) [SStr ''$m$wins'', RAW_VALUE] = Some (Scalar (SInt 5))
   \<and> lookup (ex_rows ! 0) [SStr ''$m$wins'', SStr ''display''] = Some (Scalar (SStr ''$5''))"
proof -
  have d: "distinct (index_tuples (df_columns ex_frame))"
    by (simp add: ex_frame_def index_tuples_def index_values_def)
  have i: "(0::nat) < length ex_rows" by (simp add: ex_rows_def)
  have j: "(0::nat) < index_size (df_columns ex_frame)"
    by (simp add: ex_frame_def index_size_def index_tuples_def index_values_def)
  have key: "index_tuples (df_columns ex_frame) ! 0 = [SStr ''$m$wins'']"
    by (simp add: ex_frame_def index_tuples_def index_values_def)
  have v: "df_values ex_frame ! 0 ! 0 = SInt 5" by (simp add: ex_frame_def)
  have it: "ex_items (SStr ''$m$wins'') = Some \<lparr>it_key = SStr ''wins'', it_label = ''Wins'',
      it_prefix = Some ''$'', it_suffix = None, it_precision = None\<rparr>"
    by (simp add: ex_items_def)
  from column_cells_of_rows [OF transform_data_ex wf_ex_frame d i j]
  have "lookup (ex_rows ! 0) [SStr ''$m$wins'', RAW_VALUE] = Some (Scalar (SInt 5))
    \<and> (\<exists>s. display_value repr_unmodelled (SInt 5) (Some ''$'') None None = Inr s
          \<and> lookup (ex_rows ! 0) [SStr ''$m$wins'', SStr ''display''] = Some (Scalar (SStr s)))"
    by (simp add: Let_def key v level0_def it)
  then have "lookup (ex_rows ! 0) [SStr ''$m$wins'', RAW_VALUE] = Some (Scalar (SInt 5))
    \<and> lookup (ex_rows ! 0) [SStr ''$m$wins'', SStr ''display''] = Some (Scalar (SStr ''$5''))"
    by (simp add: display_value_ex)
  with transform_data_ex wf_ex_frame d i j show ?thesis by simp
qed

text \<open>
  Claim C4 as stated fails: the column \<open>x\<close> has no descriptor, and its cell in the
  first row has a \<open>display\<close> entry, the raw value 7.
\<close>

theorem missing_descriptor_has_display:
  "ex_items (SStr ''x'') = None
   \<and> transform_data repr_unmodelled ex_frame ex_items ex_display_values = Inr ex_rows
   \<and> lookup (ex_rows ! 0) [SStr ''x'', SStr ''raw''] = Some (Scalar (SInt 7))
   \<and> lookup (ex_rows ! 0) [SStr ''x'', SStr ''display''] = Some (Scalar (SInt 7))"
  by (simp add: transform_data_ex) (simp add: ex_items_def TOTALS_VALUE_def ex_rows_def)

theorem index_cells_of_rows_witness:
  "transform_data repr_unmodelled ex_frame ex_items ex_display_values = Inr ex_rows
   \<and> wf_frame ex_frame
   \<and> distinct (index_names (df_index ex_frame))
   \<and> (1::nat) < length ex_rows
   \<and> (0::nat) < length (index_names (df_index ex_frame))
   \<and> index_names (df_index ex_frame) ! 0 \<noteq> SNone
   \<and> list_all (\<lambda>t. level0 t \<noteq> index_names (df_index ex_frame) ! 0)
        (index_tuples (df_columns ex_frame))
   \<and> lookup (ex_rows ! 1) [SStr ''$d$state'', RAW_VALUE] = Some (Scalar (SStr ''Totals''))
   \<and> lookup (ex_rows ! 1) [SStr ''$d$state'', SStr ''display''] = None"
proof -
  have nm: "index_names (df_index ex_frame) = [SStr ''$d$state'']"
    by (simp add: ex_frame_def index_names_def)
  have d: "distinct (index_names (df_index ex_frame))" by (simp add: nm)
  have i: "(1::nat) < length ex_rows" by (simp add: ex_rows_def)
  have l: "(0::nat) < length (index_names (df_index ex_frame))" by (simp add: nm)
  have n: "index_names (df_index ex_frame) ! 0 \<noteq> SNone" by (simp add: nm)
  have c: "list_all (\<lambda>t. level0 t \<noteq> index_names (df_index ex_frame) ! 0)
        (index_tuples (df_columns ex_frame))"
    unfolding nm by (simp add: ex_frame_def index_tuples_def index_values_def level0_def)
  have x: "index_tuples (df_index ex_frame) ! Suc 0 ! 0 = TOTALS_VALUE"
    by (simp add: ex_frame_def index_tuples_def index_values_def)
  have it: "ex_items TOTALS_VALUE = Some TotalsItem" by (simp add: ex_items_def TOTALS_VALUE_def)
  have dv: "getdeepattr ex_display_values (SStr ''$d$state'', SStr ''Totals'') SNone = SNone"
    by (simp add: getdeepattr_def ex_display_values_def)
  from index_cells_of_rows [OF transform_data_ex wf_ex_frame d i l n c]
  have "lookup (ex_rows ! 1) [SStr ''$d$state'', RAW_VALUE] = Some (Scalar (SStr ''Totals''))
   \<and> lookup (ex_rows ! 1) [SStr ''$d$state'', SStr ''display''] = None"
    by (simp add: Let_def nm x it TotalsItem_def dv)
  with transform_data_ex wf_ex_frame d i l n c show ?thesis by simp
qed

text \<open>
  Claim C7 as stated fails: the index value of the second row is the totals key, and
  the \<open>raw\<close> of its cell is the label \<open>Totals\<close>, not that value.
\<close>

theorem index_raw_is_label:
  "ex_items TOTALS_VALUE = Some TotalsItem
   \<and> index_tuples (df_index ex_frame) ! 1 = [TOTALS_VALUE]
   \<and> transform_data repr_unmodelled ex_frame ex_items ex_display_values = Inr ex_rows
   \<and> lookup (ex_rows ! 1) [SStr ''$d$state'', SStr ''raw''] = Some (Scalar (SStr ''Totals''))
   \<and> TOTALS_VALUE \<noteq> SStr ''Totals''"
  by (simp add: transform_data_ex)
     (simp add: ex_items_def TOTALS_VALUE_def ex_rows_def ex_frame_def index_tuples_def
        index_values_def)

section \<open>Properties of the column header tree builder\<close>

section \<open>Reading header trees\<close>

lemma list_all2_concat:
  "list_all2 (\<lambda>x y. list_all2 P (f x) (g y)) xs ys \<Longrightarrow>
   list_all2 P (concat (map f xs)) (concat (map g ys))"
  by (induction xs ys rule: list_all2_induct) (auto intro: list_all2_appendI)

lemma make_column_Inr:
  assumes "make_column im ddv mdk f v branch = Inr c"
  obtains h b where "get_header im ddv mdk v f (TOTALS_VALUE = v) = Inr h"
    and "branch = Inr b"
    and "c = Column h (fst b) (snd b) (if TOTALS_VALUE = v then Some ''fireant-totals'' else None)"
  using assms by (auto simp: make_column_def Let_def bind_err_def split: sum.splits)

lemma get_header_totals:
  "im TOTALS_VALUE = Some TotalsItem \<Longrightarrow>
   get_header im ddv mdk TOTALS_VALUE f True = Inr h \<Longrightarrow> h = SStr ''Totals''"
  by (simp add: get_header_def TotalsItem_def)

lemma make_column_totals_node:
  assumes "make_column im ddv mdk f v branch = Inr c" and "im TOTALS_VALUE = Some TotalsItem"
  shows "totals_node v c"
proof -
  from assms(1) obtain h b where h: "get_header im ddv mdk v f (TOTALS_VALUE = v) = Inr h"
    and c: "c = Column h (fst b) (snd b) (if TOTALS_VALUE = v then Some ''fireant-totals'' else None)"
    by (rule make_column_Inr)
  show ?thesis
  proof (cases "v = TOTALS_VALUE")
    case True
    with h assms(2) have "h = SStr ''Totals''" by (auto dest: get_header_totals)
    with c True show ?thesis by (simp add: totals_node_def)
  next
    case False
    with c show ?thesis by (auto simp: totals_node_def)
  qed
qed

lemma leaf_branch_Inr:
  "leaf_branch nm levels = Inr b \<Longrightarrow> fst b = None"
  by (auto simp: leaf_branch_def bind_err_def split: sum.splits)

lemma make_columns_totals:
  "make_columns le im ddv mdk nm ci prev = Inr cols \<Longrightarrow> im TOTALS_VALUE = Some TotalsItem \<Longrightarrow>
   list_all2 totals_node (node_values le ci) (concat (map flatten cols))"
proof (induction le im ddv mdk nm ci prev arbitrary: cols rule: make_columns.induct)
  case (1 le im ddv mdk nm nms ts prev)
  note tot = "1.prems"(2)
  from "1.prems"(1) obtain f rest where nms: "nms = f # rest"
    by (cases nms) auto
  let ?sub = "\<lambda>g. make_columns le im ddv mdk nm (reset_index_level0 nms (snd g)) (prev @ [fst g])"
  let ?mk = "\<lambda>g. make_column im ddv mdk f (fst g) (bind_err (?sub g) (\<lambda>cs. Inr (Some cs, None)))"
  from "1.prems"(1) nms have "sequence_err (map ?mk (groupby_level0 le ts)) = Inr cols"
    by simp
  then have l2: "list_all2 (\<lambda>g c. ?mk g = Inr c) (groupby_level0 le ts) cols"
    by (rule sequence_err_map)
  have "list_all2 (\<lambda>g c. list_all2 totals_node
            (fst g # node_values le (reset_index_level0 nms (snd g))) (flatten c))
          (groupby_level0 le ts) cols"
    using l2
  proof (rule list.rel_mono_strong)
    fix g c
    assume g: "g \<in> set (groupby_level0 le ts)" and mk: "?mk g = Inr c"
    from mk tot have tn: "totals_node (fst g) c" by (rule make_column_totals_node)
    from mk obtain h b where b: "bind_err (?sub g) (\<lambda>cs. Inr (Some cs, None)) = Inr b"
      and c: "c = Column h (fst b) (snd b)
                (if TOTALS_VALUE = fst g then Some ''fireant-totals'' else None)"
      by (rule make_column_Inr)
    from b obtain cs where cs: "?sub g = Inr cs" and fb: "fst b = Some cs"
      by (auto simp: bind_err_def split: sum.splits)
    from "1.IH" [OF nms g cs tot]
    have "list_all2 totals_node (node_values le (reset_index_level0 nms (snd g)))
            (concat (map flatten cs))" .
    with tn c fb
    show "list_all2 totals_node (fst g # node_values le (reset_index_level0 nms (snd g)))
            (flatten c)"
      by simp
  qed
  then show ?case by (simp add: list_all2_concat)
next
  case (2 le im ddv mdk nm name vs prev)
  note tot = "2.prems"(2)
  let ?mk = "\<lambda>v. make_column im ddv mdk name v (leaf_branch nm (prev @ [v]))"
  from "2.prems"(1) have "list_all2 (\<lambda>v c. ?mk v = Inr c) vs cols"
    by (simp add: sequence_err_map)
  then have "list_all2 (\<lambda>v c. list_all2 totals_node [v] (flatten c)) vs cols"
  proof (rule list_all2_mono)
    fix v c
    assume mk: "?mk v = Inr c"
    from mk tot have tn: "totals_node v c" by (rule make_column_totals_node)
    from mk obtain h b where b: "leaf_branch nm (prev @ [v]) = Inr b"
      and c: "c = Column h (fst b) (snd b)
                (if TOTALS_VALUE = v then Some ''fireant-totals'' else None)"
      by (rule make_column_Inr)
    from leaf_branch_Inr [OF b] c tn show "list_all2 totals_node [v] (flatten c)" by simp
  qed
  from list_all2_concat [OF this] show ?case by simp
next
  case (3 le im ddv mdk nm n prev)
  note tot = "3.prems"(2)
  let ?mk = "\<lambda>v. make_column im ddv mdk SNone v (leaf_branch nm (prev @ [v]))"
  from "3.prems"(1) have "list_all2 (\<lambda>v c. ?mk v = Inr c) (index_values (RangeIndex n)) cols"
    by (simp add: sequence_err_map)
  then have "list_all2 (\<lambda>v c. list_all2 totals_node [v] (flatten c))
               (index_values (RangeIndex n)) cols"
  proof (rule list_all2_mono)
    fix v c
    assume mk: "?mk v = Inr c"
    from mk tot have tn: "totals_node v c" by (rule make_column_totals_node)
    from mk obtain h b where b: "leaf_branch nm (prev @ [v]) = Inr b"
      and c: "c = Column h (fst b) (snd b)
                (if TOTALS_VALUE = v then Some ''fireant-totals'' else None)"
      by (rule make_column_Inr)
    from leaf_branch_Inr [OF b] c tn show "list_all2 totals_node [v] (flatten c)" by simp
  qed
  from list_all2_concat [OF this] show ?case by simp
qed

lemma leaf_branch_accessor:
  "leaf_branch nm levels = Inr b \<Longrightarrow>
   fst b = None \<and> (\<exists>ss. strs (levels @ (case nm of None \<Rightarrow> [] | Some n \<Rightarrow> [n])) = Some ss
                 \<and> snd b = Some (join ''.'' ss))"
  by (auto simp: leaf_branch_def join_levels_def bind_err_def split: sum.splits option.splits)

lemma make_column_leaf:
  assumes "make_column im ddv mdk f v (leaf_branch nm levels) = Inr c"
  shows "leaf_accessor_ok nm levels c" and "leaves c = [c]"
proof -
  from assms obtain h b where b: "leaf_branch nm levels = Inr b"
    and c: "c = Column h (fst b) (snd b)
              (if TOTALS_VALUE = v then Some ''fireant-totals'' else None)"
    by (rule make_column_Inr)
  from leaf_branch_accessor [OF b] c show "leaf_accessor_ok nm levels c"
    by (auto simp: leaf_accessor_ok_def)
  from leaf_branch_accessor [OF b] c show "leaves c = [c]" by simp
qed

lemma make_columns_leaves:
  "make_columns le im ddv mdk nm ci prev = Inr cols \<Longrightarrow>
   list_all2 (leaf_accessor_ok nm) (leaf_paths le ci prev) (concat (map leaves cols))"
proof (induction le im ddv mdk nm ci prev arbitrary: cols rule: make_columns.induct)
  case (1 le im ddv mdk nm nms ts prev)
  from "1.prems" obtain f rest where nms: "nms = f # rest"
    by (cases nms) auto
  let ?sub = "\<lambda>g. make_columns le im ddv mdk nm (reset_index_level0 nms (snd g)) (prev @ [fst g])"
  let ?mk = "\<lambda>g. make_column im ddv mdk f (fst g) (bind_err (?sub g) (\<lambda>cs. Inr (Some cs, None)))"
  from "1.prems" nms have "sequence_err (map ?mk (groupby_level0 le ts)) = Inr cols"
    by simp
  then have l2: "list_all2 (\<lambda>g c. ?mk g = Inr c) (groupby_level0 le ts) cols"
    by (rule sequence_err_map)
  have "list_all2 (\<lambda>g c. list_all2 (leaf_accessor_ok nm)
            (leaf_paths le (reset_index_level0 nms (snd g)) (prev @ [fst g])) (leaves c))
          (groupby_level0 le ts) cols"
    using l2
  proof (rule list.rel_mono_strong)
    fix g c
    assume g: "g \<in> set (groupby_level0 le ts)" and mk: "?mk g = Inr c"
    from mk obtain h b where b: "bind_err (?sub g) (\<lambda>cs. Inr (Some cs, None)) = Inr b"
      and c: "c = Column h (fst b) (snd b)
                (if TOTALS_VALUE = fst g then Some ''fireant-totals'' else None)"
      by (rule make_column_Inr)
    from b obtain cs where cs: "?sub g = Inr cs" and fb: "fst b = Some cs"
      by (auto simp: bind_err_def split: sum.splits)
    from "1.IH" [OF nms g cs] c fb
    show "list_all2 (leaf_accessor_ok nm)
            (leaf_paths le (reset_index_level0 nms (snd g)) (prev @ [fst g])) (leaves c)"
      by simp
  qed
  then show ?case by (simp add: list_all2_concat)
next
  case (2 le im ddv mdk nm name vs prev)
  let ?mk = "\<lambda>v. make_column im ddv mdk name v (leaf_branch nm (prev @ [v]))"
  from "2.prems" have "list_all2 (\<lambda>v c. ?mk v = Inr c) vs cols"
    by (simp add: sequence_err_map)
  then have "list_all2 (\<lambda>v c. list_all2 (leaf_accessor_ok nm) [prev @ [v]] (leaves c)) vs cols"
  proof (rule list_all2_mono)
    fix v c
    assume mk: "?mk v = Inr c"
    from make_column_leaf [OF mk]
    show "list_all2 (leaf_accessor_ok nm) [prev @ [v]] (leaves c)" by simp
  qed
  from list_all2_concat [OF this] show ?case by (simp add: map_concat comp_def)
next
  case (3 le im ddv mdk nm n prev)
  let ?mk = "\<lambda>v. make_column im ddv mdk SNone v (leaf_branch nm (prev @ [v]))"
  from "3.prems" have "list_all2 (\<lambda>v c. ?mk v = Inr c) (index_values (RangeIndex n)) cols"
    by (simp add: sequence_err_map)
  then have "list_all2 (\<lambda>v c. list_all2 (leaf_accessor_ok nm) [prev @ [v]] (leaves c))
               (index_values (RangeIndex n)) cols"
  proof (rule list_all2_mono)
    fix v c
    assume mk: "?mk v = Inr c"
    from make_column_leaf [OF mk]
    show "list_all2 (leaf_accessor_ok nm) [prev @ [v]] (leaves c)" by simp
  qed
  from list_all2_concat [OF this] show ?case by (simp add: map_concat comp_def)
qed

lemma fillna_index_tuples:
  "\<not> isnull v \<Longrightarrow> index_tuples (fillna_index idx v) =
     map (map (\<lambda>x. if isnull x then v else x)) (index_tuples idx)"
  by (cases idx)
     (simp_all add: fillna_index_def index_tuples_def index_values_def isnull_def comp_def)

lemma fillna_index_no_null:
  "\<not> isnull v \<Longrightarrow> list_all (list_all (\<lambda>x. \<not> isnull x)) (index_tuples (fillna_index idx v))"
  by (auto simp: fillna_index_tuples list_all_iff)

lemma totals_not_null: "\<not> isnull TOTALS_VALUE"
  by (simp add: isnull_def TOTALS_VALUE_def)

lemma groupby_ex:
  "groupby_level0 key_le [[SStr ''$m$wins'', SStr ''tx''], [SStr ''$m$wins'', TOTALS_VALUE]]
   = [(SStr ''$m$wins'', [[SStr ''$m$wins'', SStr ''tx''], [SStr ''$m$wins'', TOTALS_VALUE]])]"
  by (simp add: groupby_level0_def level0_def isnull_def sort_by_def)

lemma get_header_ex:
  "get_header ex_items ex_display_values (SStr ''$d$metrics'') (SStr ''$m$wins'') (SStr ''$d$metrics'') False = Inr (SStr ''Wins'')"
  "get_header ex_items ex_display_values (SStr ''$d$metrics'') (SStr ''tx'') (SStr ''$d$state'') False = Inr (SStr ''Texas'')"
  "get_header ex_items ex_display_values (SStr ''$d$metrics'') TOTALS_VALUE (SStr ''$d$state'') True = Inr (SStr ''Totals'')"
  by (simp_all add: get_header_def ex_items_def TOTALS_VALUE_def TotalsItem_def getdeepattr_def ex_display_values_def)

lemma make_column_ex:
  "make_column ex_items ex_display_values (SStr ''$d$metrics'') (SStr ''$d$metrics'') (SStr ''$m$wins'') (Inr b)
    = Inr (Column (SStr ''Wins'') (fst b) (snd b) None)"
  "make_column ex_items ex_display_values (SStr ''$d$metrics'') (SStr ''$d$state'') (SStr ''tx'') (Inr b)
    = Inr (Column (SStr ''Texas'') (fst b) (snd b) None)"
  "make_column ex_items ex_display_values (SStr ''$d$metrics'') (SStr ''$d$state'') TOTALS_VALUE (Inr b)
    = Inr (Column (SStr ''Totals'') (fst b) (snd b) (Some ''fireant-totals''))"
    apply (simp_all add: make_column_def get_header_ex bind_err_def)
    apply (simp_all add: TOTALS_VALUE_def get_header_ex [unfolded TOTALS_VALUE_def])
  done

lemma leaf_branch_ex:
  "leaf_branch None [SStr ''$m$wins'', SStr ''tx''] = Inr (None, Some ''$m$wins.tx'')"
  "leaf_branch None [SStr ''$m$wins'', TOTALS_VALUE] = Inr (None, Some ''$m$wins.~~totals'')"
  "leaf_branch (Some (SStr ''$m$wins'')) [SStr ''tx''] = Inr (None, Some ''tx.$m$wins'')"
  "leaf_branch (Some (SStr ''$m$wins'')) [TOTALS_VALUE] = Inr (None, Some ''~~totals.$m$wins'')"
  by (simp_all add: leaf_branch_def join_levels_def bind_err_def TOTALS_VALUE_def)

lemma headers_ex_pivot:
  "transform_metric_column_headers key_le (SStr ''$d$metrics'') ex_pivot_frame ex_items ex_display_values
   = Inr ex_pivot_columns"
  by (simp add: transform_metric_column_headers_def ex_pivot_frame_def groupby_ex
      reset_index_level0_def level0_def make_column_ex leaf_branch_ex bind_err_def ex_pivot_columns_def)

lemma headers_ex_collapsed:
  "transform_metric_column_headers key_le (SStr ''$d$metrics'') ex_collapsed_frame ex_items ex_display_values
   = Inr ex_collapsed_columns"
  by (simp add: transform_metric_column_headers_def ex_collapsed_frame_def
      make_column_ex leaf_branch_ex ex_collapsed_columns_def)

text \<open>
  Claim C5. \<open>fillna_index\<close> with the totals sentinel replaces every null entry of
  every level of an index by the sentinel and leaves the other entries as they are, so
  no entry is null afterwards. In the header tree that
  \<open>transform_metric_column_headers\<close> returns, with the item map holding the totals
  item under the sentinel as \<open>transform\<close> sets it, the nodes correspond one to one to
  the column values they were made for, and a node carries the class name
  \<open>fireant-totals\<close> exactly when its column value is the sentinel, in which case its
  header is \<open>Totals\<close>; every other node carries no class name.
\<close>

theorem totals_invariant:
  assumes "transform_metric_column_headers le mdk df im ddv = Inr cols"
    and "im TOTALS_VALUE = Some TotalsItem"
  shows "index_tuples (fillna_index idx TOTALS_VALUE) =
           map (map (\<lambda>x. if isnull x then TOTALS_VALUE else x)) (index_tuples idx)
     \<and> list_all (list_all (\<lambda>x. \<not> isnull x)) (index_tuples (fillna_index idx TOTALS_VALUE))
     \<and> list_all2 totals_node (node_values le (df_columns df)) (concat (map flatten cols))"
proof -
  from assms(1) have "make_columns le im ddv mdk (df_name df) (df_columns df) [] = Inr cols"
    by (simp add: transform_metric_column_headers_def)
  then have "list_all2 totals_node (node_values le (df_columns df)) (concat (map flatten cols))"
    using assms(2) by (rule make_columns_totals)
  with fillna_index_tuples [OF totals_not_null] fillna_index_no_null [OF totals_not_null]
  show ?thesis by blast
qed

lemma node_values_ex_pivot:
  "node_values key_le (df_columns ex_pivot_frame) = [SStr ''$m$wins'', SStr ''tx'', TOTALS_VALUE]"
  by (simp add: ex_pivot_frame_def groupby_ex reset_index_level0_def level0_def)

lemma ex_items_totals: "ex_items TOTALS_VALUE = Some TotalsItem"
  by (simp add: ex_items_def TOTALS_VALUE_def)

theorem totals_invariant_witness:
  "transform_metric_column_headers key_le (SStr ''$d$metrics'') ex_pivot_frame ex_items
     ex_display_values = Inr ex_pivot_columns
   \<and> ex_items TOTALS_VALUE = Some TotalsItem
   \<and> index_tuples (fillna_index (Index (SStr ''$d$state'') [SStr ''tx'', SNone]) TOTALS_VALUE)
       = [[SStr ''tx''], [TOTALS_VALUE]]
   \<and> node_values key_le (df_columns ex_pivot_frame) = [SStr ''$m$wins'', SStr ''tx'', TOTALS_VALUE]
   \<and> map className (concat (map flatten ex_pivot_columns)) = [None, None, Some ''fireant-totals'']
   \<and> Header (concat (map flatten ex_pivot_columns) ! 2) = SStr ''Totals''"
proof -
  from totals_invariant [OF headers_ex_pivot ex_items_totals,
      of "Index (SStr ''$d$state'') [SStr ''tx'', SNone]"]
  have f: "index_tuples (fillna_index (Index (SStr ''$d$state'') [SStr ''tx'', SNone]) TOTALS_VALUE)
       = map (map (\<lambda>x. if isnull x then TOTALS_VALUE else x))
           (index_tuples (Index (SStr ''$d$state'') [SStr ''tx'', SNone]))"
    and t: "list_all2 totals_node (node_values key_le (df_columns ex_pivot_frame))
         (concat (map flatten ex_pivot_columns))"
    by simp_all
  from f have f': "index_tuples (fillna_index (Index (SStr ''$d$state'') [SStr ''tx'', SNone]) TOTALS_VALUE)
       = [[SStr ''tx''], [TOTALS_VALUE]]"
    by (simp add: index_tuples_def index_values_def isnull_def)
  from t have "list_all2 totals_node [SStr ''$m$wins'', SStr ''tx'', TOTALS_VALUE]
         (concat (map flatten ex_pivot_columns))"
    by (simp only: node_values_ex_pivot)
  then have "map className (concat (map flatten ex_pivot_columns)) = [None, None, Some ''fireant-totals'']
   \<and> Header (concat (map flatten ex_pivot_columns) ! 2) = SStr ''Totals''"
    by (simp add: ex_pivot_columns_def totals_node_def TOTALS_VALUE_def)
  with headers_ex_pivot ex_items_totals f' node_values_ex_pivot show ?thesis by simp
qed

text \<open>
  Claim C6. In the header tree that \<open>transform_metric_column_headers\<close> returns, the
  leaves correspond one to one to the accumulated paths of column values, and the
  accessor of each leaf is the components of its path joined with dots; when the frame
  carries a name (the sole metric key, left by the drop of the metrics level), that
  name is the last component joined.
\<close>

theorem leaf_accessors:
  assumes "transform_metric_column_headers le mdk df im ddv = Inr cols"
  shows "list_all2 (leaf_accessor_ok (df_name df)) (leaf_paths le (df_columns df) [])
           (concat (map leaves cols))"
proof -
  from assms have "make_columns le im ddv mdk (df_name df) (df_columns df) [] = Inr cols"
    by (simp add: transform_metric_column_headers_def)
  then show ?thesis by (rule make_columns_leaves)
qed

lemma leaf_paths_ex_collapsed:
  "leaf_paths key_le (df_columns ex_collapsed_frame) [] = [[SStr ''tx''], [TOTALS_VALUE]]"
  by (simp add: ex_collapsed_frame_def)

theorem leaf_accessors_witness:
  "transform_metric_column_headers key_le (SStr ''$d$metrics'') ex_collapsed_frame ex_items
     ex_display_values = Inr ex_collapsed_columns
   \<and> df_name ex_collapsed_frame = Some (SStr ''$m$wins'')
   \<and> leaf_paths key_le (df_columns ex_collapsed_frame) [] = [[SStr ''tx''], [TOTALS_VALUE]]
   \<and> map accessor (concat (map leaves ex_collapsed_columns))
       = [Some ''tx.$m$wins'', Some ''~~totals.$m$wins'']"
proof -
  have n: "df_name ex_collapsed_frame = Some (SStr ''$m$wins'')"
    by (simp add: ex_collapsed_frame_def)
  from leaf_accessors [OF headers_ex_collapsed]
  have "list_all2 (leaf_accessor_ok (Some (SStr ''$m$wins''))) [[SStr ''tx''], [TOTALS_VALUE]]
          (concat (map leaves ex_collapsed_columns))"
    by (simp only: n leaf_paths_ex_collapsed)
  then have "map accessor (concat (map leaves ex_collapsed_columns))
       = [Some ''tx.$m$wins'', Some ''~~totals.$m$wins'']"
    by (simp add: ex_collapsed_columns_def)
  with headers_ex_collapsed n leaf_paths_ex_collapsed show ?thesis by simp
qed

lemma transform_data_ex_collapsed:
  "transform_data repr_unmodelled ex_collapsed_frame ex_items ex_display_values
   = Inr ex_collapsed_rows"
  by (simp add: transform_data_def iterrows_def row_record_def ex_collapsed_frame_def
      index_tuples_def index_values_def index_names_def index_labels_def
      ex_items_def [THEN fun_cong] TOTALS_VALUE_def TotalsItem_def column_cell_def
      display_value_int or_empty_def int_commas_def nat_str_small
      bind_err_def cell_value_def RAW_VALUE_def getdeepattr_def
      ex_display_values_def ex_collapsed_rows_def)

text \<open>
  Claim C1 at a table whose metrics level was dropped: the header leaves have the
  accessors \<open>tx.$m$wins\<close> and \<open>~~totals.$m$wins\<close>, while the row record keeps the cells
  under the keys \<open>tx\<close> and \<open>~~totals\<close>; no key path of the row is one of the accessors.
\<close>

theorem accessors_miss_rows_when_collapsed:
  "transform_metric_column_headers key_le (SStr ''$d$metrics'') ex_collapsed_frame ex_items
     ex_display_values = Inr ex_collapsed_columns
   \<and> map accessor (concat (map leaves ex_collapsed_columns))
       = [Some ''tx.$m$wins'', Some ''~~totals.$m$wins'']
   \<and> transform_data repr_unmodelled ex_collapsed_frame ex_items ex_display_values
       = Inr ex_collapsed_rows
   \<and> \<not> has_accessor (ex_collapsed_rows ! 0) ''tx.$m$wins''
   \<and> \<not> has_accessor (ex_collapsed_rows ! 0) ''~~totals.$m$wins''
   \<and> has_accessor (ex_collapsed_rows ! 0) ''tx''
   \<and> lookup (ex_collapsed_rows ! 0) [SStr ''tx'', SStr ''$m$wins''] = None"
  by (simp add: headers_ex_collapsed transform_data_ex_collapsed)
     (simp add: ex_collapsed_columns_def ex_collapsed_rows_def has_accessor_def join_levels_def)

section \<open>Properties of the modifiers\<close>

lemma wrapped_key_plain_name:
  "wrapped_key k \<noteq> ''__class__''" "wrapped_key k \<noteq> ''__dict__''"
  "wrapped_key k \<noteq> ''definition''" "wrapped_key k \<noteq> ''wrapped_key''"
  by (cases k; simp add: wrapped_key_def)+

lemma wraps_slot_name:
  assumes "wraps h a k w" and "heap_get h a = Some ob"
  shows "object_getattribute ob ''wrapped_key'' = Inr (VStr (wrapped_key k))"
  using assms
  by (simp add: wraps_def object_getattribute_def data_descriptor_def class_attr_def)

lemma wraps_slot:
  assumes "wraps h a k w" and "heap_get h a = Some ob"
  shows "object_getattribute ob (wrapped_key k) = Inr w"
  using assms
  by (simp add: wraps_def object_getattribute_def data_descriptor_def wrapped_key_plain_name)

lemma wraps_class:
  "wraps h a k w \<Longrightarrow> heap_get h a = Some ob \<Longrightarrow> obj_class ob = ModifierClass k"
  by (simp add: wraps_def)

lemma not_held_not_in_dict:
  "object_getattribute ob attr = Inl e \<Longrightarrow> map_of (obj_dict ob) attr = None"
  by (auto simp: object_getattribute_def split: option.splits)

lemma modifier_read:
  assumes "wraps h a k w" and "heap_get h a = Some ob"
    and "object_getattribute ob attr = Inl e"
  shows "py_getattr h (VRef a) attr = py_getattr h w attr"
  using assms(2,3) wraps_class [OF assms(1,2)] wraps_slot_name [OF assms(1,2)]
    wraps_slot [OF assms(1,2)] not_held_not_in_dict [OF assms(3)]
  by (subst py_getattr.simps) simp

lemma modifier_write_through:
  assumes "wraps h a k w" and "heap_get h a = Some ob"
    and "attr \<noteq> wrapped_key k" and "own_dict h w = Inr d" and "map_of d attr \<noteq> None"
  shows "py_setattr h (VRef a) attr x = py_setattr h w attr x"
  using assms(2-5) wraps_class [OF assms(1,2)] wraps_slot_name [OF assms(1,2)]
    wraps_slot [OF assms(1,2)]
  by (subst py_setattr.simps) simp

lemma modifier_write_local:
  assumes "wraps h a k w" and "heap_get h a = Some ob"
    and "attr \<noteq> wrapped_key k" and "own_dict h w = Inr d" and "map_of d attr = None"
  shows "py_setattr h (VRef a) attr x = Some (object_setattr h a attr x)"
  using assms(2-5) wraps_class [OF assms(1,2)] wraps_slot_name [OF assms(1,2)]
    wraps_slot [OF assms(1,2)]
  by (subst py_setattr.simps) simp

lemma modifier_write_slot:
  assumes "wraps h a k w" and "heap_get h a = Some ob"
  shows "py_setattr h (VRef a) (wrapped_key k) x =
         Some (Inr (h[a := ob\<lparr>obj_dict := AList.update (wrapped_key k) x (obj_dict ob)\<rparr>]))"
  using assms(2) wraps_class [OF assms(1,2)] wraps_slot_name [OF assms(1,2)]
  by (subst py_setattr.simps)
     (simp add: object_setattr_def data_descriptor_def wrapped_key_plain_name)

lemma plain_write:
  assumes "heap_get h b = Some wo" and "obj_class wo = PlainClass attrs"
    and "attr \<noteq> ''__class__''" and "attr \<noteq> ''__dict__''"
  shows "py_setattr h (VRef b) attr x =
         Some (Inr (h[b := wo\<lparr>obj_dict := AList.update attr x (obj_dict wo)\<rparr>]))"
  using assms
  by (subst py_setattr.simps) (simp add: object_setattr_def data_descriptor_def)

lemma rollup_definition:
  assumes "heap_get h a = Some ob" and "obj_class ob = ModifierClass Rollup"
  shows "py_getattr h (VRef a) ''definition'' = Some (Inr VNullValue)"
  using assms
  by (subst py_getattr.simps) (simp add: object_getattribute_def data_descriptor_def)

lemma new_modifier_result:
  "new_modifier h k w =
     Some (Inr (h @ [\<lparr>obj_class = ModifierClass k, obj_dict = [(wrapped_key k, w)]\<rparr>],
                VRef (length h)))"
  unfolding new_modifier_def
  by (subst py_setattr.simps)
     (simp add: heap_get_def object_getattribute_def data_descriptor_def class_attr_def
        object_setattr_def wrapped_key_plain_name)

lemma new_modifier_wraps:
  "wraps (h @ [\<lparr>obj_class = ModifierClass k, obj_dict = [(wrapped_key k, w)]\<rparr>]) (length h) k w"
  by (simp add: wraps_def heap_get_def wrapped_key_plain_name(4) [symmetric])

text \<open>
  Claim C8, as amended. For a modifier of class \<open>k\<close> that wraps \<open>w\<close>: reading an
  attribute the wrapper does not hold itself is reading it from \<open>w\<close>; setting an
  attribute other than the slot name that exists in the instance dictionary of \<open>w\<close> is
  setting it on \<open>w\<close>, which for an ordinary object \<open>w\<close> updates the dictionary of \<open>w\<close>
  in the store; setting an attribute other than the slot name that does not exist there
  sets it on the wrapper; setting the slot name itself rebinds the wrapper, whatever
  \<open>w\<close> holds; reading \<open>definition\<close> from a \<open>Rollup\<close> yields \<open>NullValue()\<close>; and the
  constructor makes such a wrapper.
\<close>

theorem modifier_delegation:
  assumes "wraps h a k w" and "heap_get h a = Some ob"
  shows "(object_getattribute ob attr = Inl AttributeError \<longrightarrow>
            py_getattr h (VRef a) attr = py_getattr h w attr)
     \<and> (attr \<noteq> wrapped_key k \<and> (\<exists>d. own_dict h w = Inr d \<and> map_of d attr \<noteq> None) \<longrightarrow>
            py_setattr h (VRef a) attr x = py_setattr h w attr x)
     \<and> (\<forall>b wo attrs. w = VRef b \<and> heap_get h b = Some wo \<and> obj_class wo = PlainClass attrs
            \<and> attr \<noteq> wrapped_key k \<and> map_of (obj_dict wo) attr \<noteq> None
            \<and> attr \<noteq> ''__class__'' \<and> attr \<noteq> ''__dict__'' \<longrightarrow>
            py_setattr h (VRef a) attr x =
              Some (Inr (h[b := wo\<lparr>obj_dict := AList.update attr x (obj_dict wo)\<rparr>])))
     \<and> (attr \<noteq> wrapped_key k \<and> (\<exists>d. own_dict h w = Inr d \<and> map_of d attr = None) \<longrightarrow>
            py_setattr h (VRef a) attr x = Some (object_setattr h a attr x))
     \<and> py_setattr h (VRef a) (wrapped_key k) x =
            Some (Inr (h[a := ob\<lparr>obj_dict := AList.update (wrapped_key k) x (obj_dict ob)\<rparr>]))
     \<and> (k = Rollup \<longrightarrow> py_getattr h (VRef a) ''definition'' = Some (Inr VNullValue))
     \<and> new_modifier h0 k w =
            Some (Inr (h0 @ [\<lparr>obj_class = ModifierClass k, obj_dict = [(wrapped_key k, w)]\<rparr>],
                       VRef (length h0)))
     \<and> wraps (h0 @ [\<lparr>obj_class = ModifierClass k, obj_dict = [(wrapped_key k, w)]\<rparr>])
            (length h0) k w"
proof -
  have rd: "object_getattribute ob attr = Inl AttributeError \<longrightarrow>
            py_getattr h (VRef a) attr = py_getattr h w attr"
    using modifier_read [OF assms] by blast
  have wt: "attr \<noteq> wrapped_key k \<and> (\<exists>d. own_dict h w = Inr d \<and> map_of d attr \<noteq> None) \<longrightarrow>
            py_setattr h (VRef a) attr x = py_setattr h w attr x"
    using modifier_write_through [OF assms] by blast
  have pl: "\<forall>b wo attrs. w = VRef b \<and> heap_get h b = Some wo \<and> obj_class wo = PlainClass attrs
            \<and> attr \<noteq> wrapped_key k \<and> map_of (obj_dict wo) attr \<noteq> None
            \<and> attr \<noteq> ''__class__'' \<and> attr \<noteq> ''__dict__'' \<longrightarrow>
            py_setattr h (VRef a) attr x =
              Some (Inr (h[b := wo\<lparr>obj_dict := AList.update attr x (obj_dict wo)\<rparr>]))"
  proof (intro allI impI)
    fix b wo attrs
    assume A: "w = VRef b \<and> heap_get h b = Some wo \<and> obj_class wo = PlainClass attrs
            \<and> attr \<noteq> wrapped_key k \<and> map_of (obj_dict wo) attr \<noteq> None
            \<and> attr \<noteq> ''__class__'' \<and> attr \<noteq> ''__dict__''"
    then have od: "own_dict h w = Inr (obj_dict wo)" by (simp add: own_dict_def)
    from A have "py_setattr h (VRef a) attr x = py_setattr h w attr x"
      using modifier_write_through [OF assms _ od] by blast
    also from A have "\<dots> = Some (Inr (h[b := wo\<lparr>obj_dict := AList.update attr x (obj_dict wo)\<rparr>]))"
      using plain_write [of h b wo attrs attr x] by simp
    finally show "py_setattr h (VRef a) attr x =
              Some (Inr (h[b := wo\<lparr>obj_dict := AList.update attr x (obj_dict wo)\<rparr>]))" .
  qed
  have lc: "attr \<noteq> wrapped_key k \<and> (\<exists>d. own_dict h w = Inr d \<and> map_of d attr = None) \<longrightarrow>
            py_setattr h (VRef a) attr x = Some (object_setattr h a attr x)"
    using modifier_write_local [OF assms] by blast
  have ro: "k = Rollup \<longrightarrow> py_getattr h (VRef a) ''definition'' = Some (Inr VNullValue)"
    using rollup_definition [OF assms(2)] wraps_class [OF assms] by simp
  show ?thesis
    by (intro conjI rd wt pl lc ro modifier_write_slot [OF assms] new_modifier_result
          new_modifier_wraps)
qed

lemma ex_heap_wraps: "wraps ex_heap 1 Modifier (VRef 0)"
  by (simp add: wraps_def heap_get_def ex_heap_def wrapped_key_def)

lemma ex_heap_get_1:
  "heap_get ex_heap 1 = Some \<lparr>obj_class = ModifierClass Modifier, obj_dict = [(''wrapped'', VRef 0)]\<rparr>"
  by (simp add: heap_get_def ex_heap_def)

lemma ex_heap_get_0:
  "heap_get ex_heap 0 = Some \<lparr>obj_class = PlainClass [],
     obj_dict = [(''key'', VStr ''state''), (''definition'', VStr ''sql'')]\<rparr>"
  by (simp add: heap_get_def ex_heap_def)

lemma ex_dimension_definition: "py_getattr ex_heap (VRef 0) ''definition'' = Some (Inr (VStr ''sql''))"
  by (subst py_getattr.simps)
     (simp add: ex_heap_get_0 object_getattribute_def data_descriptor_def)

theorem modifier_delegation_witness:
  "wraps ex_heap 1 Modifier (VRef 0)
   \<and> heap_get ex_heap 1 =
       Some \<lparr>obj_class = ModifierClass Modifier, obj_dict = [(''wrapped'', VRef 0)]\<rparr>
   \<and> py_getattr ex_heap (VRef 1) ''definition'' = Some (Inr (VStr ''sql''))
   \<and> py_setattr ex_heap (VRef 1) ''definition'' (VStr ''new'') =
       Some (Inr [\<lparr>obj_class = PlainClass [],
                    obj_dict = [(''key'', VStr ''state''), (''definition'', VStr ''new'')]\<rparr>,
                  \<lparr>obj_class = ModifierClass Modifier, obj_dict = [(''wrapped'', VRef 0)]\<rparr>,
                  \<lparr>obj_class = ModifierClass Modifier, obj_dict = [(''wrapped'', VRef 1)]\<rparr>])"
proof -
  note th = modifier_delegation [OF ex_heap_wraps ex_heap_get_1,
      where attr = "''definition''" and x = "VStr ''new''"]
  have nh: "object_getattribute \<lparr>obj_class = ModifierClass Modifier,
      obj_dict = [(''wrapped'', VRef 0)]\<rparr> ''definition'' = Inl AttributeError"
    by (simp add: object_getattribute_def data_descriptor_def class_attr_def
        modifier_methods_def object_methods_def)
  from th [THEN conjunct1] nh
  have "py_getattr ex_heap (VRef 1) ''definition'' = py_getattr ex_heap (VRef 0) ''definition''"
    by simp
  then have r: "py_getattr ex_heap (VRef 1) ''definition'' = Some (Inr (VStr ''sql''))"
    by (simp add: ex_dimension_definition)
  have od: "own_dict ex_heap (VRef 0) = Inr [(''key'', VStr ''state''), (''definition'', VStr ''sql'')]"
    by (simp add: own_dict_def heap_get_def ex_heap_def)
  from th [THEN conjunct2, THEN conjunct1] od
  have "py_setattr ex_heap (VRef 1) ''definition'' (VStr ''new'')
        = py_setattr ex_heap (VRef 0) ''definition'' (VStr ''new'')"
    by (simp add: wrapped_key_def)
  also have "\<dots> = Some (Inr [\<lparr>obj_class = PlainClass [],
                    obj_dict = [(''key'', VStr ''state''), (''definition'', VStr ''new'')]\<rparr>,
                  \<lparr>obj_class = ModifierClass Modifier, obj_dict = [(''wrapped'', VRef 0)]\<rparr>,
                  \<lparr>obj_class = ModifierClass Modifier, obj_dict = [(''wrapped'', VRef 1)]\<rparr>])"
    using plain_write [OF ex_heap_get_0, of "[]" "''definition''" "VStr ''new''"]
    by (simp add: ex_heap_def)
  finally have w: "py_setattr ex_heap (VRef 1) ''definition'' (VStr ''new'') =
       Some (Inr [\<lparr>obj_class = PlainClass [],
                    obj_dict = [(''key'', VStr ''state''), (''definition'', VStr ''new'')]\<rparr>,
                  \<lparr>obj_class = ModifierClass Modifier, obj_dict = [(''wrapped'', VRef 0)]\<rparr>,
                  \<lparr>obj_class = ModifierClass Modifier, obj_dict = [(''wrapped'', VRef 1)]\<rparr>])" .
  from ex_heap_wraps ex_heap_get_1 r w show ?thesis by simp
qed

text \<open>
  Claim C8 as stated fails: the modifier at address 2 wraps the modifier at address 1,
  whose own state holds \<open>wrapped\<close>; setting \<open>wrapped\<close> on the outer modifier rebinds
  the outer one and leaves the wrapped object as it was.
\<close>

theorem slot_name_is_not_written_through:
  "wraps ex_heap 2 Modifier (VRef 1)
   \<and> own_dict ex_heap (VRef 1) = Inr [(''wrapped'', VRef 0)]
   \<and> py_setattr ex_heap (VRef 2) ''wrapped'' (VInt 5) =
       Some (Inr [\<lparr>obj_class = PlainClass [],
                    obj_dict = [(''key'', VStr ''state''), (''definition'', VStr ''sql'')]\<rparr>,
                  \<lparr>obj_class = ModifierClass Modifier, obj_dict = [(''wrapped'', VRef 0)]\<rparr>,
                  \<lparr>obj_class = ModifierClass Modifier, obj_dict = [(''wrapped'', VInt 5)]\<rparr>])"
proof -
  have w: "wraps ex_heap 2 Modifier (VRef 1)"
    by (simp add: wraps_def heap_get_def ex_heap_def wrapped_key_def)
  have g: "heap_get ex_heap 2 =
      Some \<lparr>obj_class = ModifierClass Modifier, obj_dict = [(''wrapped'', VRef 1)]\<rparr>"
    by (simp add: heap_get_def ex_heap_def)
  have d: "own_dict ex_heap (VRef 1) = Inr [(''wrapped'', VRef 0)]"
    by (simp add: own_dict_def heap_get_def ex_heap_def)
  from modifier_write_slot [OF w g, of "VInt 5"]
  have "py_setattr ex_heap (VRef 2) ''wrapped'' (VInt 5) =
       Some (Inr [\<lparr>obj_class = PlainClass [],
                    obj_dict = [(''key'', VStr ''state''), (''definition'', VStr ''sql'')]\<rparr>,
                  \<lparr>obj_class = ModifierClass Modifier, obj_dict = [(''wrapped'', VRef 0)]\<rparr>,
                  \<lparr>obj_class = ModifierClass Modifier, obj_dict = [(''wrapped'', VInt 5)]\<rparr>])"
    by (simp add: wrapped_key_def ex_heap_def)
  with w d show ?thesis by simp
qed

section \<open>Properties of the transform\<close>

lemma map_display_values_store:
  "map_display_values env st df dims ddv = Inr r \<Longrightarrow>
   length (snd r) = length st \<and> (\<forall>a. a \<noteq> df \<longrightarrow> snd r ! a = st ! a)"
proof (induction env st df dims ddv arbitrary: r rule: map_display_values.induct)
  case (1 env st df ddv)
  then show ?case by auto
next
  case (2 env st df dimension rest ddv)
  let ?fk = "SStr (format_dimension_key env (dim_key dimension))"
  let ?step = "if dim_has_display_field dimension
            then (let f_display_key = SStr (format_dimension_key env (dim_display_key dimension))
                  in bind_err (display_dict (st ! df) f_display_key ?fk)
                       (\<lambda>d. bind_err (del_column (st ! df) f_display_key)
                          (\<lambda>f. Inr (ddv(?fk := Some d), st[df := f]))))
            else Inr (ddv, st)"
  from "2.prems" obtain r1 where s: "?step = Inr r1"
    and rest: "map_display_values env (snd r1) df rest
                  (case dim_display_values dimension of
                     Some dv \<Rightarrow> (fst r1)(?fk := Some dv)
                   | None \<Rightarrow> fst r1) = Inr r"
    by (auto simp: Let_def bind_err_def split: sum.splits)
  from s have one: "length (snd r1) = length st \<and> (\<forall>a. a \<noteq> df \<longrightarrow> snd r1 ! a = st ! a)"
    by (auto simp: Let_def bind_err_def split: if_splits sum.splits)
  from "2.IH" [OF refl rest] one show ?case by simp
qed

lemma format_data_frame_store:
  "format_data_frame env st df dims = Inr st' \<Longrightarrow>
   length st' = length st \<and> (\<forall>a. a \<noteq> df \<longrightarrow> st' ! a = st ! a)"
  by (auto simp: format_data_frame_def bind_err_def split: sum.splits)

text \<open>
  Claim C9. When \<open>transform\<close> returns, every frame the store held before the call,
  the caller's frame among them, is in the store as it was: what \<open>transform\<close> selects,
  copies, fills, deletes and formats are frames it has created. The descriptors are
  values that \<open>transform\<close> reads and never writes.
\<close>

theorem transform_leaves_store:
  assumes "transform env self st data_frame dimensions references = Inr (out, st')"
  shows "length st \<le> length st' \<and> (\<forall>a. a < length st \<longrightarrow> st' ! a = st ! a)"
proof -
  from assms obtain selected r st2 pivoted where
    md: "map_display_values env
           (st @ [selected, copy_frame selected, fillna_frame (SStr ''NaN'') (copy_frame selected),
                  replace_inf (SStr ''Inf'') (fillna_frame (SStr ''NaN'') (copy_frame selected))])
           (length st + 3) dimensions (\<lambda>k. None) = Inr r"
    and fd: "format_data_frame env (snd r) (length st + 3) dimensions = Inr st2"
    and st': "st' = st2 @ [pivoted]"
    by (auto simp: transform_def Let_def bind_err_def split: sum.splits)
  let ?st1 = "st @ [selected, copy_frame selected, fillna_frame (SStr ''NaN'') (copy_frame selected),
                  replace_inf (SStr ''Inf'') (fillna_frame (SStr ''NaN'') (copy_frame selected))]"
  from map_display_values_store [OF md]
  have l1: "length (snd r) = length ?st1" and k1: "\<forall>a. a \<noteq> length st + 3 \<longrightarrow> snd r ! a = ?st1 ! a"
    by blast+
  from format_data_frame_store [OF fd]
  have l2: "length st2 = length (snd r)" and k2: "\<forall>a. a \<noteq> length st + 3 \<longrightarrow> st2 ! a = snd r ! a"
    by blast+
  have "\<forall>a. a < length st \<longrightarrow> st' ! a = st ! a"
  proof (intro allI impI)
    fix a assume a: "a < length st"
    then have ne: "a \<noteq> length st + 3" by simp
    from a l1 l2 have "a < length st2" by simp
    then have "st' ! a = st2 ! a" by (simp add: st' nth_append)
    also from k2 ne have "\<dots> = snd r ! a" by simp
    also from k1 ne have "\<dots> = ?st1 ! a" by simp
    also from a have "\<dots> = st ! a" by (simp add: nth_append)
    finally show "st' ! a = st ! a" .
  qed
  moreover from l1 l2 have "length st \<le> length st'" by (simp add: st')
  ultimately show ?thesis by simp
qed

lemma clean_cell_cases:
  "(isnull x \<longrightarrow> clean_cell x = SStr ''NaN'')
   \<and> (is_inf x \<longrightarrow> clean_cell x = SStr ''Inf'')
   \<and> (\<not> isnull x \<and> \<not> is_inf x \<longrightarrow> clean_cell x = x)"
  by (auto simp: clean_cell_def isnull_def is_inf_def)

lemma clean_cell_clean: "\<not> isnull (clean_cell x) \<and> \<not> is_inf (clean_cell x)"
  by (auto simp: clean_cell_def isnull_def is_inf_def)

lemma prepared_values:
  "df_values (replace_inf (SStr ''Inf'') (fillna_frame (SStr ''NaN'') (copy_frame f)))
   = map (map clean_cell) (df_values f)"
  by (auto simp: replace_inf_def fillna_frame_def copy_frame_def clean_cell_def isnull_def
        is_inf_def)

lemma prepared_clean:
  "cells_clean (replace_inf (SStr ''Inf'') (fillna_frame (SStr ''NaN'') (copy_frame f)))"
  unfolding cells_clean_def prepared_values
  by (simp add: list_all_iff clean_cell_clean)

lemma del_column_clean:
  "del_column f key = Inr f' \<Longrightarrow> cells_clean f \<Longrightarrow> cells_clean f'"
proof -
  assume d: "del_column f key = Inr f'" and c: "cells_clean f"
  from d obtain nm vs where f': "f' = f\<lparr>df_columns := Index nm (filter (\<lambda>c. c \<noteq> key) vs),
      df_values := map (\<lambda>row. map snd (filter (\<lambda>cx. fst cx \<noteq> key) (zip vs row))) (df_values f)\<rparr>"
    by (auto simp: del_column_def split: index.splits if_splits)
  have "\<And>row. set (map snd (filter (\<lambda>cx. fst cx \<noteq> key) (zip vs row))) \<subseteq> set row"
    by (auto dest: set_zip_rightD)
  with c show "cells_clean f'"
    unfolding f' cells_clean_def list_all_iff by fastforce
qed

lemma map_display_values_clean:
  "map_display_values env st df dims ddv = Inr r \<Longrightarrow> df < length st \<Longrightarrow>
   cells_clean (st ! df) \<Longrightarrow> cells_clean (snd r ! df)"
proof (induction env st df dims ddv arbitrary: r rule: map_display_values.induct)
  case (1 env st df ddv)
  then show ?case by auto
next
  case (2 env st df dimension rest ddv)
  let ?fk = "SStr (format_dimension_key env (dim_key dimension))"
  let ?step = "if dim_has_display_field dimension
            then (let f_display_key = SStr (format_dimension_key env (dim_display_key dimension))
                  in bind_err (display_dict (st ! df) f_display_key ?fk)
                       (\<lambda>d. bind_err (del_column (st ! df) f_display_key)
                          (\<lambda>f. Inr (ddv(?fk := Some d), st[df := f]))))
            else Inr (ddv, st)"
  from "2.prems"(1) obtain r1 where s: "?step = Inr r1"
    and rest: "map_display_values env (snd r1) df rest
                  (case dim_display_values dimension of
                     Some dv \<Rightarrow> (fst r1)(?fk := Some dv)
                   | None \<Rightarrow> fst r1) = Inr r"
    by (auto simp: Let_def bind_err_def split: sum.splits)
  from s "2.prems"(2,3) have one: "df < length (snd r1) \<and> cells_clean (snd r1 ! df)"
    by (auto simp: Let_def bind_err_def del_column_clean split: if_splits sum.splits)
  from "2.IH" [OF refl rest] one show ?case by simp
qed

lemma map_display_values_no_display:
  "map_display_values env st df dims ddv = Inr r \<Longrightarrow>
   list_all (\<lambda>d. \<not> dim_has_display_field d) dims \<Longrightarrow> snd r = st"
proof (induction env st df dims ddv arbitrary: r rule: map_display_values.induct)
  case (1 env st df ddv)
  then show ?case by auto
next
  case (2 env st df dimension rest ddv)
  from "2.prems" have nd: "\<not> dim_has_display_field dimension"
    and rest: "list_all (\<lambda>d. \<not> dim_has_display_field d) rest" by simp_all
  let ?fk = "SStr (format_dimension_key env (dim_key dimension))"
  from "2.prems"(1) nd have "map_display_values env st df rest
                  (case dim_display_values dimension of
                     Some dv \<Rightarrow> ddv(?fk := Some dv)
                   | None \<Rightarrow> ddv) = Inr r"
    by (simp add: Let_def bind_err_def split: option.splits)
  then have "map_display_values env (snd (ddv, st)) df rest
                  (case dim_display_values dimension of
                     Some dv \<Rightarrow> (fst (ddv, st))(?fk := Some dv)
                   | None \<Rightarrow> fst (ddv, st)) = Inr r"
    by (simp split: option.splits)
  from "2.IH" [OF refl this rest] show ?case by simp
qed

lemma format_data_frame_values:
  "format_data_frame env st df dims = Inr st' \<Longrightarrow> df < length st \<Longrightarrow>
   df_values (st' ! df) = df_values (st ! df)"
  by (auto simp: format_data_frame_def bind_err_def split: sum.splits)

text \<open>The frames \<open>transform\<close> leaves in the store, after the frames that were there.\<close>

lemma transform_steps:
  assumes "transform env self st data_frame dimensions references = Inr (out, st')"
  obtains selected r st2 pivoted where
    "select_columns (st ! data_frame)
       (map (\<lambda>d. SStr (format_dimension_key env (dim_display_key d)))
          (filter dim_has_display_field dimensions)
        @ map fst (item_pairs env self references)) = Inr selected"
    and "map_display_values env
       (st @ [selected, copy_frame selected, fillna_frame (SStr ''NaN'') (copy_frame selected),
              replace_inf (SStr ''Inf'') (fillna_frame (SStr ''NaN'') (copy_frame selected))])
       (length st + 3) dimensions (\<lambda>k. None) = Inr r"
    and "format_data_frame env (snd r) (length st + 3) dimensions = Inr st2"
    and "pivot_data_frame env (st2 ! (length st + 3))
           (map (\<lambda>d. SStr (format_dimension_key env (dim_key d))) (w_pivot self))
           (w_transpose self) = Inr pivoted"
    and "transform_data (float_str env) pivoted
           (map_of (AList.update TOTALS_VALUE TotalsItem (item_pairs env self references)))
           (fst r) = Inr (out_data out)"
    and "st' = st2 @ [pivoted]"
  using assms
  by (auto simp: transform_def Let_def bind_err_def split: sum.splits)

lemma ex_item_pairs:
  "item_pairs ex_env ex_widget [] =
     [(SStr ''$m$wins'', \<lparr>it_key = SStr ''wins'', it_label = ''Wins'', it_prefix = Some ''$'',
         it_suffix = None, it_precision = None\<rparr>)]"
  by (simp add: item_pairs_def ordered_dict_def ex_env_def ex_widget_def ReferenceItem_def)

lemma ex_select:
  "select_columns ex_result_set [SStr ''$d$state_display'', SStr ''$m$wins''] = Inr ex_selected"
  by (simp add: select_columns_def ex_result_set_def positions_def ex_selected_def)

lemma ex_prepared:
  "copy_frame ex_selected = ex_selected"
  "fillna_frame (SStr ''NaN'') ex_selected
   = ex_selected\<lparr>df_values := [[SStr ''Texas'', SStr ''NaN''], [SStr ''NaN'', SFloat (Infinity False)]]\<rparr>"
  "replace_inf (SStr ''Inf'')
     (ex_selected\<lparr>df_values := [[SStr ''Texas'', SStr ''NaN''], [SStr ''NaN'', SFloat (Infinity False)]]\<rparr>)
   = ex_selected\<lparr>df_values := [[SStr ''Texas'', SStr ''NaN''], [SStr ''NaN'', SStr ''Inf'']]\<rparr>"
  by (simp_all add: replace_inf_def fillna_frame_def copy_frame_def ex_selected_def isnull_def
        is_inf_def)

lemma ex_del_column:
  "del_column (ex_selected\<lparr>df_values := [[SStr ''Texas'', SStr ''NaN''], [SStr ''NaN'', SStr ''Inf'']]\<rparr>)
     (SStr ''$d$state_display'')
   = Inr (ex_selected\<lparr>df_columns := Index SNone [SStr ''$m$wins''],
                       df_values := [[SStr ''NaN''], [SStr ''Inf'']]\<rparr>)"
  by (simp add: del_column_def ex_selected_def positions_def)

lemma ex_display_dict:
  "display_dict (ex_selected\<lparr>df_values := [[SStr ''Texas'', SStr ''NaN''], [SStr ''NaN'', SStr ''Inf'']]\<rparr>)
     (SStr ''$d$state_display'') (SStr ''$d$state'') = Inr d \<Longrightarrow>
   d (SStr ''tx'') = Some (SStr ''Texas'') \<and> d (SStr ''Totals'') = None"
  by (auto simp: display_dict_def ex_selected_def positions_def index_values_def
      index_names_def index_tuples_def isnull_def Let_def)

lemma ex_env_simps:
  "format_dimension_key ex_env k = ''$d$'' @ k"
  "format_metric_key ex_env k = ''$m$'' @ k"
  "pivot_data_frame ex_env f keys t = Inr f"
  "strftime ex_env fmt v = v"
  "float_str ex_env = repr_unmodelled"
  "sort_le ex_env = key_le"
  "metrics_dimension_key ex_env = SStr ''$d$metrics''"
  "dim_key (metrics ex_env) = ''metrics''"
  "dim_label (metrics ex_env) = Some ''''"
  "w_pivot ex_widget = []"
  "w_transpose ex_widget = False"
  by (simp_all add: ex_env_def metrics_dimension_key_def ex_widget_def)

lemma ex_map_display_values:
  "\<exists>ddv. map_display_values ex_env
      [ex_result_set, ex_selected, ex_selected,
       ex_selected\<lparr>df_values := [[SStr ''Texas'', SStr ''NaN''], [SStr ''NaN'', SFloat (Infinity False)]]\<rparr>,
       ex_selected\<lparr>df_values := [[SStr ''Texas'', SStr ''NaN''], [SStr ''NaN'', SStr ''Inf'']]\<rparr>]
      4 ex_dimensions (\<lambda>k. None)
    = Inr (ddv,
       [ex_result_set, ex_selected, ex_selected,
        ex_selected\<lparr>df_values := [[SStr ''Texas'', SStr ''NaN''], [SStr ''NaN'', SFloat (Infinity False)]]\<rparr>,
        ex_selected\<lparr>df_columns := Index SNone [SStr ''$m$wins''],
                       df_values := [[SStr ''NaN''], [SStr ''Inf'']]\<rparr>])
    \<and> getdeepattr ddv (SStr ''$d$state'', SStr ''tx'') SNone = SStr ''Texas''
    \<and> getdeepattr ddv (SStr ''$d$state'', SStr ''Totals'') SNone = SNone"
proof -
  obtain d where d: "display_dict (ex_selected\<lparr>df_values := [[SStr ''Texas'', SStr ''NaN''], [SStr ''NaN'', SStr ''Inf'']]\<rparr>)
     (SStr ''$d$state_display'') (SStr ''$d$state'') = Inr d"
    by (simp add: display_dict_def ex_selected_def positions_def index_values_def
      index_names_def Let_def)
  from ex_display_dict [OF d] d show ?thesis
    by (simp add: ex_dimensions_def ex_env_simps Let_def bind_err_def ex_del_column getdeepattr_def)
qed

lemma ex_item_map:
  "map_of (AList.update TOTALS_VALUE TotalsItem (item_pairs ex_env ex_widget [])) (SStr ''$m$wins'')
     = Some \<lparr>it_key = SStr ''wins'', it_label = ''Wins'', it_prefix = Some ''$'',
         it_suffix = None, it_precision = None\<rparr>"
  "map_of (AList.update TOTALS_VALUE TotalsItem (item_pairs ex_env ex_widget [])) TOTALS_VALUE
     = Some TotalsItem"
  "map_of (AList.update TOTALS_VALUE TotalsItem (item_pairs ex_env ex_widget [])) (SStr ''tx'')
     = None"
  by (simp_all add: ex_item_pairs TOTALS_VALUE_def)

lemma ex_format_data_frame:
  "format_data_frame ex_env
     [ex_result_set, ex_selected, ex_selected,
      ex_selected\<lparr>df_values := [[SStr ''Texas'', SStr ''NaN''], [SStr ''NaN'', SFloat (Infinity False)]]\<rparr>,
      ex_selected\<lparr>df_columns := Index SNone [SStr ''$m$wins''],
                     df_values := [[SStr ''NaN''], [SStr ''Inf'']]\<rparr>]
     4 ex_dimensions
   = Inr [ex_result_set, ex_selected, ex_selected,
      ex_selected\<lparr>df_values := [[SStr ''Texas'', SStr ''NaN''], [SStr ''NaN'', SFloat (Infinity False)]]\<rparr>,
      ex_working_copy]"
  by (simp add: format_data_frame_def ex_dimensions_def bind_err_def ex_selected_def
      fillna_index_def isnull_def set_index_name_def ex_env_simps ex_working_copy_def)

lemma ex_dimension_headers:
  "transform_dimension_column_headers ex_env ex_working_copy ex_dimensions
   = Inr [Column (SStr ''State'') None (Some ''$d$state'') None]"
  by (simp add: transform_dimension_column_headers_def ex_working_copy_def is_range_index_def
      index_names_def dimension_map_def ex_dimensions_def ex_env_simps)

lemma ex_metric_headers:
  assumes "im (SStr ''$m$wins'') = Some \<lparr>it_key = SStr ''wins'', it_label = ''Wins'',
      it_prefix = Some ''$'', it_suffix = None, it_precision = None\<rparr>"
  shows "transform_metric_column_headers key_le (SStr ''$d$metrics'') ex_working_copy im ddv
   = Inr [Column (SStr ''Wins'') None (Some ''$m$wins'') None]"
  using assms
  by (simp add: transform_metric_column_headers_def ex_working_copy_def make_column_def
      get_header_def TOTALS_VALUE_def leaf_branch_def join_levels_def bind_err_def)

lemma ex_transform_data:
  assumes "im (SStr ''$m$wins'') = Some \<lparr>it_key = SStr ''wins'', it_label = ''Wins'',
      it_prefix = Some ''$'', it_suffix = None, it_precision = None\<rparr>"
    and "im TOTALS_VALUE = Some TotalsItem"
    and "im (SStr ''tx'') = None"
    and "getdeepattr ddv (SStr ''$d$state'', SStr ''tx'') SNone = SStr ''Texas''"
    and "getdeepattr ddv (SStr ''$d$state'', SStr ''Totals'') SNone = SNone"
  shows "transform_data repr_unmodelled ex_working_copy im ddv = Inr (out_data ex_output)"
  using assms
  by (simp add: transform_data_def iterrows_def row_record_def ex_working_copy_def
      index_tuples_def index_values_def index_names_def index_labels_def
      TotalsItem_def column_cell_def display_value_def format_numeric_value_def py_str_def
      or_empty_def bind_err_def cell_value_def RAW_VALUE_def ex_output_def TOTALS_VALUE_def)

lemma ex_transform:
  "transform ex_env ex_widget [ex_result_set] 0 ex_dimensions [] = Inr (ex_output, ex_final_store)"
proof -
  obtain ddv where md: "map_display_values ex_env
      [ex_result_set, ex_selected, ex_selected,
       ex_selected\<lparr>df_values := [[SStr ''Texas'', SStr ''NaN''], [SStr ''NaN'', SFloat (Infinity False)]]\<rparr>,
       ex_selected\<lparr>df_values := [[SStr ''Texas'', SStr ''NaN''], [SStr ''NaN'', SStr ''Inf'']]\<rparr>]
      4 ex_dimensions (\<lambda>k. None)
    = Inr (ddv,
       [ex_result_set, ex_selected, ex_selected,
        ex_selected\<lparr>df_values := [[SStr ''Texas'', SStr ''NaN''], [SStr ''NaN'', SFloat (Infinity False)]]\<rparr>,
        ex_selected\<lparr>df_columns := Index SNone [SStr ''$m$wins''],
                       df_values := [[SStr ''NaN''], [SStr ''Inf'']]\<rparr>])"
    and g1: "getdeepattr ddv (SStr ''$d$state'', SStr ''tx'') SNone = SStr ''Texas''"
    and g2: "getdeepattr ddv (SStr ''$d$state'', SStr ''Totals'') SNone = SNone"
    using ex_map_display_values by blast
  have cols: "map (\<lambda>d. SStr (format_dimension_key ex_env (dim_display_key d)))
          (filter dim_has_display_field ex_dimensions)
        @ map fst (item_pairs ex_env ex_widget [])
        = [SStr ''$d$state_display'', SStr ''$m$wins'']"
    by (simp add: ex_dimensions_def ex_env_simps ex_item_pairs)
  let ?im = "map_of (AList.update TOTALS_VALUE TotalsItem (item_pairs ex_env ex_widget []))"
  note mh = ex_metric_headers [of ?im, OF ex_item_map(1)]
  note td = ex_transform_data [of ?im, OF ex_item_map g1 g2]
  show ?thesis
    unfolding transform_def Let_def cols
    by (simp add: ex_select ex_prepared bind_err_def md ex_format_data_frame ex_env_simps
        ex_dimension_headers mh td ex_final_store_def)
       (simp add: ex_output_def)
qed

theorem transform_leaves_store_witness:
  "transform ex_env ex_widget [ex_result_set] 0 ex_dimensions [] = Inr (ex_output, ex_final_store)
   \<and> length [ex_result_set] \<le> length ex_final_store
   \<and> ex_final_store ! 0 = ex_result_set"
  using transform_leaves_store [OF ex_transform] ex_transform by simp

lemma wf_ex_working_copy: "wf_frame ex_working_copy"
  by (simp add: wf_frame_def wf_index_def ex_working_copy_def index_size_def index_tuples_def
      index_values_def)

section \<open>The transform of a table with no rows\<close>

lemma map_index_level_empty: "index_size idx = 0 \<Longrightarrow> map_index_level idx level func = Inr idx"
  by (simp add: map_index_level_def)

lemma fillna_index_empty: "index_size idx = 0 \<Longrightarrow> fillna_index idx v = idx"
  by (cases idx) (simp_all add: fillna_index_def index_size_def index_tuples_def index_values_def)

lemma format_dates_empty: "index_size idx = 0 \<Longrightarrow> format_dates env idx i dims = Inr idx"
proof (induction dims arbitrary: i)
  case Nil
  then show ?case by simp
next
  case (Cons d dims)
  then show ?case
    by (cases "dim_interval d") (simp_all add: map_index_level_empty bind_err_def)
qed

lemma transform_data_empty:
  "index_size (df_index df) = 0 \<Longrightarrow> transform_data fs df im ddv = Inr []"
  by (simp add: transform_data_def iterrows_def index_size_def)

lemma positions_nonempty: "positions xs x \<noteq> [] \<longleftrightarrow> x \<in> set xs"
  by (auto simp: positions_def filter_empty_conv in_set_conv_nth)

lemma sequence_err_all_Inr:
  "list_all (\<lambda>x. f x = Inr (g x)) xs \<Longrightarrow> sequence_err (map f xs) = Inr (map g xs)"
  by (induction xs) simp_all

lemma ordered_dict_keys_aux:
  "fst ` set (foldl (\<lambda>d kv. AList.update (fst kv) (snd kv) d) acc ps) = fst ` set acc \<union> fst ` set ps"
proof (induction ps arbitrary: acc)
  case Nil
  then show ?case by simp
next
  case (Cons p ps)
  have "fst ` set (AList.update (fst p) (snd p) acc) = insert (fst p) (fst ` set acc)"
    by (simp add: dom_update)
  with Cons show ?case by auto
qed

lemma ordered_dict_keys: "fst ` set (ordered_dict ps) = fst ` set ps"
  by (simp add: ordered_dict_def ordered_dict_keys_aux)

text \<open>Every metric column key is a string and has an item.\<close>

lemma item_pairs_keys:
  assumes "k \<in> fst ` set (item_pairs env self references)"
  shows "\<exists>s. k = SStr s"
proof -
  from assms have "k \<in> fst ` set (concat (map (\<lambda>i. map (\<lambda>reference.
                       (SStr (format_metric_key env (reference_key env i reference)),
                        ReferenceItem env i reference))
                     (None # map Some references))
                  (w_items self)))"
    by (simp add: item_pairs_def ordered_dict_keys)
  then show ?thesis by auto
qed

lemma item_map_has_metric:
  assumes "k \<in> fst ` set items"
  shows "\<exists>it. map_of (AList.update TOTALS_VALUE TotalsItem items) k = Some it"
proof (cases "k = TOTALS_VALUE")
  case True
  then show ?thesis by (simp add: update_conv')
next
  case False
  from assms obtain it where "map_of items k = Some it"
    by (metis domIff dom_map_of_conv_image_fst not_Some_eq)
  with False show ?thesis by (simp add: update_conv')
qed

lemma filter_eq_upt: "i < n \<Longrightarrow> filter (\<lambda>j. j = i) [0..<n] = [i]"
  by (induction n) (auto simp: less_Suc_eq)

lemma positions_distinct:
  assumes "distinct xs" and "x \<in> set xs"
  shows "\<exists>i. positions xs x = [i]"
proof -
  from assms(2) obtain i where i: "i < length xs" "xs ! i = x"
    by (auto simp: in_set_conv_nth)
  have "filter (\<lambda>j. xs ! j = x) [0..<length xs] = filter (\<lambda>j. j = i) [0..<length xs]"
    using assms(1) i by (intro filter_cong refl) (auto simp: nth_eq_iff_index_eq)
  with i show ?thesis by (simp add: positions_def filter_eq_upt)
qed

lemma select_columns_distinct:
  assumes "df_columns f = Index nm vs" and "distinct vs" and "set keys \<subseteq> set vs"
  shows "\<exists>s. select_columns f keys = Inr s \<and> df_index s = df_index f
           \<and> df_columns s = Index nm keys \<and> df_name s = None"
proof -
  have one: "\<And>k. k \<in> set vs \<Longrightarrow> map (\<lambda>j. k) (positions vs k) = [k]"
    using positions_distinct [OF assms(2)] by fastforce
  have cc: "set ks \<subseteq> set vs \<Longrightarrow> concat (map (\<lambda>k. map (\<lambda>j. k) (positions vs k)) ks) = ks" for ks
    using one by (induction ks) auto
  have c: "concat (map (\<lambda>k. map (\<lambda>j. k) (positions vs k)) keys) = keys"
    by (rule cc [OF assms(3)])
  have "list_all (\<lambda>k. positions vs k \<noteq> []) keys"
    using assms(3) by (auto simp: list_all_iff positions_nonempty)
  then show ?thesis using assms(1) c by (simp add: select_columns_def)
qed

lemma display_dict_succeeds:
  assumes "dk \<in> set (index_values (df_columns f))" and "fk \<in> set (index_names (df_index f))"
  shows "\<exists>d. display_dict f dk fk = Inr d"
proof -
  from assms obtain j js p ps where
    "positions (index_values (df_columns f)) dk = j # js"
    "positions (index_names (df_index f)) fk = p # ps"
    by (metis positions_nonempty neq_Nil_conv)
  then show ?thesis by (simp add: display_dict_def Let_def)
qed

lemma del_column_succeeds:
  assumes "df_columns f = Index nm vs" and "dk \<in> set vs"
  shows "del_column f dk = Inr (f\<lparr>df_columns := Index nm (filter (\<lambda>c. c \<noteq> dk) vs),
            df_values := map (\<lambda>row. map snd (filter (\<lambda>cx. fst cx \<noteq> dk) (zip vs row))) (df_values f)\<rparr>)"
  using assms by (simp add: del_column_def positions_nonempty)

lemma map_display_values_succeeds:
  "df < length st \<Longrightarrow> df_columns (st ! df) = Index nm vs \<Longrightarrow>
   list_all (\<lambda>d. SStr (format_dimension_key env (dim_display_key d)) \<in> set vs
                \<and> SStr (format_dimension_key env (dim_key d)) \<in> set (index_names (df_index (st ! df))))
     (filter dim_has_display_field dims) \<Longrightarrow>
   distinct (map (\<lambda>d. SStr (format_dimension_key env (dim_display_key d)))
               (filter dim_has_display_field dims)) \<Longrightarrow>
   \<exists>ddv' f. map_display_values env st df dims ddv = Inr (ddv', st[df := f])
       \<and> df_index f = df_index (st ! df) \<and> df_name f = df_name (st ! df)
       \<and> df_columns f = Index nm (filter (\<lambda>c. c \<notin> set (map (\<lambda>d. SStr (format_dimension_key env (dim_display_key d)))
               (filter dim_has_display_field dims))) vs)"
proof (induction dims arbitrary: st vs ddv)
  case Nil
  have "st = st[df := st ! df]" by simp
  with Nil show ?case by (intro exI [of _ ddv] exI [of _ "st ! df"]) simp
next
  case (Cons d dims)
  let ?dk = "SStr (format_dimension_key env (dim_display_key d))"
  let ?fk = "SStr (format_dimension_key env (dim_key d))"
  let ?dks = "map (\<lambda>d. SStr (format_dimension_key env (dim_display_key d)))
               (filter dim_has_display_field dims)"
  show ?case
  proof (cases "dim_has_display_field d")
    case False
    with Cons.prems have
      "list_all (\<lambda>d. SStr (format_dimension_key env (dim_display_key d)) \<in> set vs
                \<and> SStr (format_dimension_key env (dim_key d)) \<in> set (index_names (df_index (st ! df))))
         (filter dim_has_display_field dims)" "distinct ?dks"
      by simp_all
    from Cons.IH [OF Cons.prems(1,2) this] False show ?thesis
      by (simp add: bind_err_def Let_def)
  next
    case True
    with Cons.prems have dk: "?dk \<in> set vs" and fk: "?fk \<in> set (index_names (df_index (st ! df)))"
      and rest: "list_all (\<lambda>d. SStr (format_dimension_key env (dim_display_key d)) \<in> set vs
                \<and> SStr (format_dimension_key env (dim_key d)) \<in> set (index_names (df_index (st ! df))))
         (filter dim_has_display_field dims)"
      and dist: "distinct ?dks" and notin: "?dk \<notin> set ?dks"
      by simp_all
    let ?f1 = "(st ! df)\<lparr>df_columns := Index nm (filter (\<lambda>c. c \<noteq> ?dk) vs),
            df_values := map (\<lambda>row. map snd (filter (\<lambda>cx. fst cx \<noteq> ?dk) (zip vs row))) (df_values (st ! df))\<rparr>"
    let ?st1 = "st[df := ?f1]"
    from dk Cons.prems(2) obtain dd where dd: "display_dict (st ! df) ?dk ?fk = Inr dd"
      using display_dict_succeeds [of ?dk "st ! df" ?fk] fk by (auto simp: index_values_def)
    have del: "del_column (st ! df) ?dk = Inr ?f1"
      by (rule del_column_succeeds [OF Cons.prems(2) dk])
    have l1: "df < length ?st1" using Cons.prems(1) by simp
    have at: "?st1 ! df = ?f1" using Cons.prems(1) by simp
    have c1: "df_columns (?st1 ! df) = Index nm (filter (\<lambda>c. c \<noteq> ?dk) vs)"
      by (simp add: at)
    have rest1: "list_all (\<lambda>d. SStr (format_dimension_key env (dim_display_key d)) \<in> set (filter (\<lambda>c. c \<noteq> ?dk) vs)
                \<and> SStr (format_dimension_key env (dim_key d)) \<in> set (index_names (df_index (?st1 ! df))))
         (filter dim_has_display_field dims)"
      using rest notin unfolding at by (fastforce simp: list_all_iff image_iff)
    let ?ddv1 = "case dim_display_values d of
                     Some dv \<Rightarrow> (ddv(?fk := Some dd))(?fk := Some dv)
                   | None \<Rightarrow> ddv(?fk := Some dd)"
    from Cons.IH [OF l1 c1 rest1 dist, of ?ddv1] obtain ddv' f where
      r: "map_display_values env ?st1 df dims ?ddv1 = Inr (ddv', ?st1[df := f])"
      and i: "df_index f = df_index (?st1 ! df)" and n: "df_name f = df_name (?st1 ! df)"
      and c: "df_columns f = Index nm (filter (\<lambda>c. c \<notin> set ?dks) (filter (\<lambda>c. c \<noteq> ?dk) vs))"
      by blast
    have m: "map_display_values env st df (d # dims) ddv = Inr (ddv', st[df := f])"
      using True dd del r by (cases "dim_display_values d") (simp_all add: bind_err_def Let_def)
    have c': "df_columns f = Index nm (filter (\<lambda>c. c \<notin> set (?dk # ?dks)) vs)"
      unfolding c by (simp add: conj_commute)
    have i': "df_index f = df_index (st ! df)" using i unfolding at by simp
    have n': "df_name f = df_name (st ! df)" using n unfolding at by simp
    have c'': "df_columns f = Index nm (filter (\<lambda>c. c \<notin> set (map (\<lambda>d. SStr (format_dimension_key env (dim_display_key d)))
               (filter dim_has_display_field (d # dims)))) vs)"
      using c' True by simp
    from m i' n' c'' show ?thesis by blast
  qed
qed

lemma format_data_frame_empty:
  assumes "index_size (df_index (st ! df)) = 0"
  shows "format_data_frame env st df dims
         = Inr (st[df := (st ! df)\<lparr>df_columns := set_index_name (df_columns (st ! df))
                                                      (metrics_dimension_key env)\<rparr>])"
  using assms by (simp add: format_data_frame_def format_dates_empty fillna_index_empty bind_err_def)

lemma dimension_headers_succeed:
  assumes "levels_are_dimensions env dims (df_index p)"
  shows "transform_dimension_column_headers env p dims
         = Inr (if is_range_index (df_index p) then []
                else map (dimension_column env dims) (index_names (df_index p)))"
proof (cases "is_range_index (df_index p)")
  case True
  then show ?thesis by (simp add: transform_dimension_column_headers_def)
next
  case False
  with assms have "list_all (\<lambda>n. (case (n, dimension_map env dims n) of
                       (SStr s, Some d) \<Rightarrow>
                         Inr (Column (SStr (case dim_label d of Some l \<Rightarrow> l | None \<Rightarrow> dim_key d))
                                None (Some s) None)
                     | _ \<Rightarrow> Inl KeyError) = Inr (dimension_column env dims n))
        (index_names (df_index p))"
    by (auto simp: levels_are_dimensions_def list_all_iff dimension_column_def key_string_def
        split: scalar.splits option.splits)
  from sequence_err_all_Inr [OF this] False show ?thesis
    by (simp add: transform_dimension_column_headers_def)
qed

lemma metric_headers_succeed:
  assumes "df_columns p = Index mdk vs" and "df_name p = None"
    and "list_all (\<lambda>v. (\<exists>s. v = SStr s) \<and> (\<exists>it. im v = Some it)) vs"
  shows "transform_metric_column_headers le mdk p im ddv = Inr (map (metric_column im) vs)"
proof -
  have "make_column im ddv mdk mdk v (leaf_branch None ([] @ [v])) = Inr (metric_column im v)"
    if "v \<in> set vs" for v
  proof -
    from that assms(3) obtain s it where "v = SStr s" "im v = Some it"
      by (auto simp: list_all_iff)
    then show ?thesis
      by (simp add: make_column_def get_header_def leaf_branch_def join_levels_def
          bind_err_def metric_column_def key_string_def Let_def)
  qed
  then have "list_all (\<lambda>v. make_column im ddv mdk mdk v (leaf_branch None ([] @ [v]))
                       = Inr (metric_column im v)) vs"
    by (simp add: list_all_iff)
  from sequence_err_all_Inr [OF this] assms(1,2) show ?thesis
    by (simp add: transform_metric_column_headers_def)
qed

lemma bind_err_Inr: "bind_err (Inr x) f = f x"
  by (simp add: bind_err_def)

lemma filter_append_own:
  "filter (\<lambda>c. c \<notin> set xs) (xs @ ys) = filter (\<lambda>c. c \<notin> set xs) ys"
  by simp

text \<open>
  Claim C3. On a table with no rows the whole transform returns: the selection finds
  its columns in the flat, duplicate-free column index, every dimension with a display
  field finds its display column and its index level, the date formatting and the fill
  of the index leave the empty index as it is, the header builders give one column
  definition per index level, from its dimension, and one per metric column, from its
  item, and the list of rows is empty. The pivot step is taken to return the frame it
  is given.
\<close>

theorem zero_row_transform:
  fixes env :: "'r env"
  assumes rows: "index_size (df_index (st ! data_frame)) = 0"
    and cols: "df_columns (st ! data_frame) = Index nm vs"
    and dvs: "distinct vs"
    and sel: "set (map (\<lambda>d. SStr (format_dimension_key env (dim_display_key d)))
                     (filter dim_has_display_field dimensions))
              \<union> fst ` set (item_pairs env self references) \<subseteq> set vs"
    and disp: "distinct (map (\<lambda>d. SStr (format_dimension_key env (dim_display_key d)))
                           (filter dim_has_display_field dimensions))"
    and lev: "list_all (\<lambda>d. SStr (format_dimension_key env (dim_key d))
                              \<in> set (index_names (df_index (st ! data_frame))))
                (filter dim_has_display_field dimensions)"
    and names: "levels_are_dimensions env dimensions (df_index (st ! data_frame))"
    and engine: "\<And>f keys t. pivot_data_frame env f keys t = Inr f"
  shows "\<exists>out st'. transform env self st data_frame dimensions references = Inr (out, st')
           \<and> df_index (st' ! (length st + 3)) = df_index (st ! data_frame)
           \<and> out_columns out =
               (if is_range_index (df_index (st ! data_frame)) then []
                else map (dimension_column env dimensions) (index_names (df_index (st ! data_frame))))
               @ map (metric_column (map_of (AList.update TOTALS_VALUE TotalsItem
                                               (item_pairs env self references))))
                   (filter (\<lambda>c. c \<notin> set (map (\<lambda>d. SStr (format_dimension_key env (dim_display_key d)))
                                             (filter dim_has_display_field dimensions)))
                      (map fst (item_pairs env self references)))
           \<and> out_data out = []"
proof -
  let ?dcols = "map (\<lambda>d. SStr (format_dimension_key env (dim_display_key d)))
                  (filter dim_has_display_field dimensions)"
  let ?items = "item_pairs env self references"
  let ?mcols = "map fst ?items"
  let ?im = "map_of (AList.update TOTALS_VALUE TotalsItem ?items)"
  let ?idx = "df_index (st ! data_frame)"
  let ?mdk = "metrics_dimension_key env"
  let ?df = "length st + 3"
  have keys: "set (?dcols @ ?mcols) \<subseteq> set vs" using sel by simp
  from select_columns_distinct [OF cols dvs keys] obtain selected where
    s: "select_columns (st ! data_frame) (?dcols @ ?mcols) = Inr selected"
    and si: "df_index selected = ?idx" and sc: "df_columns selected = Index nm (?dcols @ ?mcols)"
    by blast
  let ?replaced = "replace_inf (SStr ''Inf'') (fillna_frame (SStr ''NaN'') (copy_frame selected))"
  let ?st1 = "st @ [selected, copy_frame selected, fillna_frame (SStr ''NaN'') (copy_frame selected),
                     ?replaced]"
  have at1: "?st1 ! ?df = ?replaced" by (simp add: nth_append)
  have l1: "?df < length ?st1" by simp
  have ri: "df_index ?replaced = ?idx" and rn: "df_name ?replaced = None"
    and rc: "df_columns ?replaced = Index nm (?dcols @ ?mcols)"
    using si sc by (simp_all add: replace_inf_def fillna_frame_def copy_frame_def)
  have c1: "df_columns (?st1 ! ?df) = Index nm (?dcols @ ?mcols)" unfolding at1 by (rule rc)
  have lev1: "list_all (\<lambda>d. SStr (format_dimension_key env (dim_display_key d)) \<in> set (?dcols @ ?mcols)
                \<and> SStr (format_dimension_key env (dim_key d)) \<in> set (index_names (df_index (?st1 ! ?df))))
     (filter dim_has_display_field dimensions)"
    unfolding at1 ri using lev by (auto simp: list_all_iff)
  from map_display_values_succeeds [OF l1 c1 lev1 disp, of "\<lambda>k. None"] obtain ddv f where
    md: "map_display_values env ?st1 ?df dimensions (\<lambda>k. None) = Inr (ddv, ?st1[?df := f])"
    and fi: "df_index f = ?idx" and fn: "df_name f = None"
    and fc: "df_columns f = Index nm (filter (\<lambda>c. c \<notin> set ?dcols) ?mcols)"
    unfolding at1 ri rn filter_append_own by auto
  let ?p = "f\<lparr>df_columns := Index ?mdk (filter (\<lambda>c. c \<notin> set ?dcols) ?mcols)\<rparr>"
  let ?st2 = "?st1[?df := ?p]"
  have at2: "?st1[?df := f] ! ?df = f" using l1 by simp
  have "index_size (df_index (?st1[?df := f] ! ?df)) = 0" unfolding at2 fi by (rule rows)
  from format_data_frame_empty [OF this, of env dimensions]
  have fd: "format_data_frame env (?st1[?df := f]) ?df dimensions = Inr ?st2"
    unfolding at2 fc by (simp add: set_index_name_def)
  have at3: "?st2 ! ?df = ?p" using l1 by simp
  have dh: "transform_dimension_column_headers env ?p dimensions
            = Inr (if is_range_index ?idx then [] else map (dimension_column env dimensions) (index_names ?idx))"
    using dimension_headers_succeed [of env dimensions ?p] names fi by simp
  have "list_all (\<lambda>v. (\<exists>s. v = SStr s) \<and> (\<exists>it. ?im v = Some it))
          (filter (\<lambda>c. c \<notin> set ?dcols) ?mcols)"
    using item_pairs_keys [of _ env self references] item_map_has_metric [of _ ?items]
    by (auto simp: list_all_iff)
  from metric_headers_succeed [of ?p ?mdk _ ?im, OF _ _ this]
  have mh: "transform_metric_column_headers (sort_le env) ?mdk ?p ?im ddv
            = Inr (map (metric_column ?im) (filter (\<lambda>c. c \<notin> set ?dcols) ?mcols))"
    using fn by simp
  have td: "transform_data (float_str env) ?p ?im ddv = Inr []"
    by (rule transform_data_empty) (simp add: fi rows)
  let ?out = "\<lparr>out_columns =
                  (if is_range_index ?idx then [] else map (dimension_column env dimensions) (index_names ?idx))
                  @ map (metric_column ?im) (filter (\<lambda>c. c \<notin> set ?dcols) ?mcols),
                out_data = []\<rparr>"
  have t: "transform env self st data_frame dimensions references = Inr (?out, ?st2 @ [?p])"
    unfolding transform_def Let_def s bind_err_Inr md fst_conv snd_conv fd engine at3 dh mh td
    by (rule refl)
  have i: "df_index ((?st2 @ [?p]) ! ?df) = ?idx"
    by (simp add: nth_append fi)
  show ?thesis
  proof (intro exI conjI)
    show "transform env self st data_frame dimensions references = Inr (?out, ?st2 @ [?p])"
      by (rule t)
    show "df_index ((?st2 @ [?p]) ! ?df) = ?idx" by (rule i)
    show "out_columns ?out =
            (if is_range_index ?idx then [] else map (dimension_column env dimensions) (index_names ?idx))
            @ map (metric_column ?im) (filter (\<lambda>c. c \<notin> set ?dcols) ?mcols)"
      by simp
    show "out_data ?out = []" by simp
  qed
qed

lemma ex_dimension_map:
  "dimension_map ex_env ex_dimensions (SStr ''$d$state'') = Some (hd ex_dimensions)"
  by (simp add: dimension_map_def ex_dimensions_def ex_env_simps)

text \<open>The worked call on the result set without rows.\<close>

theorem zero_row_transform_witness:
  "\<exists>out st'. transform ex_env ex_widget [ex_empty_result_set] 0 ex_dimensions [] = Inr (out, st')
     \<and> df_index (st' ! 4) = Index (SStr ''$d$state'') []
     \<and> out_columns out = [Column (SStr ''State'') None (Some ''$d$state'') None,
                           Column (SStr ''Wins'') None (Some ''$m$wins'') None]
     \<and> out_data out = []"
proof -
  let ?vs = "[SStr ''$m$wins'', SStr ''$d$state_display'', SStr ''$m$other'']"
  have rows: "index_size (df_index ([ex_empty_result_set] ! 0)) = 0"
    by (simp add: ex_empty_result_set_def index_size_def index_tuples_def index_values_def)
  have cols: "df_columns ([ex_empty_result_set] ! 0) = Index SNone ?vs"
    by (simp add: ex_empty_result_set_def)
  have dvs: "distinct ?vs" by simp
  have sel: "set (map (\<lambda>d. SStr (format_dimension_key ex_env (dim_display_key d)))
                     (filter dim_has_display_field ex_dimensions))
              \<union> fst ` set (item_pairs ex_env ex_widget []) \<subseteq> set ?vs"
    by (simp add: ex_dimensions_def ex_env_simps ex_item_pairs)
  have disp: "distinct (map (\<lambda>d. SStr (format_dimension_key ex_env (dim_display_key d)))
                           (filter dim_has_display_field ex_dimensions))"
    by (simp add: ex_dimensions_def)
  have lev: "list_all (\<lambda>d. SStr (format_dimension_key ex_env (dim_key d))
                              \<in> set (index_names (df_index ([ex_empty_result_set] ! 0))))
                (filter dim_has_display_field ex_dimensions)"
    by (simp add: ex_dimensions_def ex_env_simps ex_empty_result_set_def index_names_def)
  have names: "levels_are_dimensions ex_env ex_dimensions (df_index ([ex_empty_result_set] ! 0))"
    by (simp add: levels_are_dimensions_def ex_empty_result_set_def index_names_def
        ex_dimension_map)
  have cs: "(if is_range_index (Index (SStr ''$d$state'') []) then []
             else map (dimension_column ex_env ex_dimensions)
                    (index_names (Index (SStr ''$d$state'') [])))
            = [Column (SStr ''State'') None (Some ''$d$state'') None]"
    by (simp add: ex_empty_result_set_def is_range_index_def index_names_def dimension_column_def
        ex_dimension_map key_string_def) (simp add: ex_dimensions_def)
  have ms: "map (metric_column (map_of (AList.update TOTALS_VALUE TotalsItem
                                               (item_pairs ex_env ex_widget []))))
                   (filter (\<lambda>c. c \<notin> set (map (\<lambda>d. SStr (format_dimension_key ex_env (dim_display_key d)))
                                             (filter dim_has_display_field ex_dimensions)))
                      (map fst (item_pairs ex_env ex_widget [])))
            = [Column (SStr ''Wins'') None (Some ''$m$wins'') None]"
    by (simp add: ex_item_pairs ex_dimensions_def ex_env_simps metric_column_def key_string_def
        TOTALS_VALUE_def)
  have idx: "df_index ([ex_empty_result_set] ! 0) = Index (SStr ''$d$state'') []"
    by (simp add: ex_empty_result_set_def)
  from zero_row_transform [where env = ex_env and self = ex_widget and st = "[ex_empty_result_set]"
      and data_frame = 0 and dimensions = ex_dimensions and references = "[]",
      OF rows cols dvs sel disp lev names ex_env_simps(3)]
  show ?thesis unfolding idx cs ms by simp
qed

section \<open>The cells of the working copy\<close>

lemma select_cells_map: "map f (select_cells vs keys cell) = select_cells vs keys (\<lambda>k j. f (cell k j))"
  by (simp add: select_cells_def map_concat o_def)

lemma select_cells_append:
  "select_cells vs (ks @ ks') cell = select_cells vs ks cell @ select_cells vs ks' cell"
  by (simp add: select_cells_def)

lemma select_cells_filter_own:
  "select_cells vs (filter (\<lambda>k. k \<notin> set ks) (ks @ ks')) cell
   = select_cells vs (filter (\<lambda>k. k \<notin> set ks) ks') cell"
  by simp

lemma select_cells_filter_filter:
  "filter (\<lambda>k. k \<notin> set ds) (filter (\<lambda>k. k \<noteq> d) ks) = filter (\<lambda>k. k \<notin> set (d # ds)) ks"
  by (induction ks) auto

lemma zip_filter_key:
  "map snd (filter (\<lambda>cx. fst cx \<noteq> dk) (zip (map (\<lambda>j. k) ps) (map h ps)))
   = (if k = dk then [] else map h ps)"
  by (induction ps) auto

lemma del_cells_values:
  "map snd (filter (\<lambda>cx. fst cx \<noteq> dk)
              (zip (select_cells vs keys (\<lambda>k j. k)) (select_cells vs keys h)))
   = select_cells vs (filter (\<lambda>k. k \<noteq> dk) keys) h"
proof (induction keys)
  case Nil
  then show ?case by (simp add: select_cells_def)
next
  case (Cons k keys)
  have "select_cells vs (k # keys) (\<lambda>k j. k) = map (\<lambda>j. k) (positions vs k) @ select_cells vs keys (\<lambda>k j. k)"
    and "select_cells vs (k # keys) h = map (h k) (positions vs k) @ select_cells vs keys h"
    by (simp_all add: select_cells_def)
  then have "map snd (filter (\<lambda>cx. fst cx \<noteq> dk)
              (zip (select_cells vs (k # keys) (\<lambda>k j. k)) (select_cells vs (k # keys) h)))
     = map snd (filter (\<lambda>cx. fst cx \<noteq> dk) (zip (map (\<lambda>j. k) (positions vs k)) (map (h k) (positions vs k))))
       @ map snd (filter (\<lambda>cx. fst cx \<noteq> dk)
              (zip (select_cells vs keys (\<lambda>k j. k)) (select_cells vs keys h)))"
    by (simp add: zip_append)
  also have "\<dots> = (if k = dk then [] else map (h k) (positions vs k))
                  @ select_cells vs (filter (\<lambda>k. k \<noteq> dk) keys) h"
    unfolding zip_filter_key Cons.IH ..
  also have "\<dots> = select_cells vs (filter (\<lambda>k. k \<noteq> dk) (k # keys)) h"
    by (simp add: select_cells_def)
  finally show ?case .
qed

lemma del_cells_columns:
  "filter (\<lambda>c. c \<noteq> dk) (select_cells vs keys (\<lambda>k j. k))
   = select_cells vs (filter (\<lambda>k. k \<noteq> dk) keys) (\<lambda>k j. k)"
  by (induction keys) (auto simp: select_cells_def filter_empty_conv)

lemma select_columns_cells:
  assumes "select_columns f keys = Inr s"
  shows "\<exists>nm. df_columns f = Index nm (index_values (df_columns f))
           \<and> df_columns s = Index nm (select_cells (index_values (df_columns f)) keys (\<lambda>k j. k))
           \<and> df_values s = map (\<lambda>row. select_cells (index_values (df_columns f)) keys (\<lambda>k j. row ! j))
                              (df_values f)"
  using assms
  by (auto simp: select_columns_def select_cells_def index_values_def split: index.splits if_splits)

lemma del_column_cells:
  assumes "del_column f dk = Inr f'"
    and "df_columns f = Index nm (select_cells vs keys (\<lambda>k j. k))"
    and "df_values f = map (\<lambda>row. select_cells vs keys (h row)) rows"
  shows "df_columns f' = Index nm (select_cells vs (filter (\<lambda>k. k \<noteq> dk) keys) (\<lambda>k j. k))
       \<and> df_values f' = map (\<lambda>row. select_cells vs (filter (\<lambda>k. k \<noteq> dk) keys) (h row)) rows"
  using assms
  by (auto simp: del_column_def del_cells_values del_cells_columns split: if_splits)

lemma map_display_values_cells:
  "map_display_values env st df dims ddv = Inr r \<Longrightarrow> df < length st \<Longrightarrow>
   df_columns (st ! df) = Index nm (select_cells vs keys (\<lambda>k j. k)) \<Longrightarrow>
   df_values (st ! df) = map (\<lambda>row. select_cells vs keys (h row)) rows \<Longrightarrow>
   df_columns (snd r ! df)
     = Index nm (select_cells vs
         (filter (\<lambda>k. k \<notin> set (map (\<lambda>d. SStr (format_dimension_key env (dim_display_key d)))
                                  (filter dim_has_display_field dims))) keys) (\<lambda>k j. k))
   \<and> df_values (snd r ! df)
     = map (\<lambda>row. select_cells vs
         (filter (\<lambda>k. k \<notin> set (map (\<lambda>d. SStr (format_dimension_key env (dim_display_key d)))
                                  (filter dim_has_display_field dims))) keys) (h row)) rows"
proof (induction env st df dims ddv arbitrary: r keys rule: map_display_values.induct)
  case (1 env st df ddv)
  then show ?case by auto
next
  case (2 env st df dimension rest ddv)
  let ?fk = "SStr (format_dimension_key env (dim_key dimension))"
  let ?dk = "SStr (format_dimension_key env (dim_display_key dimension))"
  let ?dks = "map (\<lambda>d. SStr (format_dimension_key env (dim_display_key d)))
                (filter dim_has_display_field rest)"
  let ?step = "if dim_has_display_field dimension
            then (let f_display_key = SStr (format_dimension_key env (dim_display_key dimension))
                  in bind_err (display_dict (st ! df) f_display_key ?fk)
                       (\<lambda>d. bind_err (del_column (st ! df) f_display_key)
                          (\<lambda>f. Inr (ddv(?fk := Some d), st[df := f]))))
            else Inr (ddv, st)"
  let ?keys1 = "if dim_has_display_field dimension then filter (\<lambda>k. k \<noteq> ?dk) keys else keys"
  from "2.prems"(1) obtain r1 where s: "?step = Inr r1"
    and rest: "map_display_values env (snd r1) df rest
                  (case dim_display_values dimension of
                     Some dv \<Rightarrow> (fst r1)(?fk := Some dv)
                   | None \<Rightarrow> fst r1) = Inr r"
    by (auto simp: Let_def bind_err_def split: sum.splits)
  have one: "df < length (snd r1)
     \<and> df_columns (snd r1 ! df) = Index nm (select_cells vs ?keys1 (\<lambda>k j. k))
     \<and> df_values (snd r1 ! df) = map (\<lambda>row. select_cells vs ?keys1 (h row)) rows"
  proof (cases "dim_has_display_field dimension")
    case False
    with s "2.prems"(2,3,4) show ?thesis by auto
  next
    case True
    with s obtain f where del: "del_column (st ! df) ?dk = Inr f" and r1: "snd r1 = st[df := f]"
      by (auto simp: Let_def bind_err_def split: sum.splits)
    from del_column_cells [OF del "2.prems"(3,4)] True r1 "2.prems"(2) show ?thesis by simp
  qed
  then have l: "df < length (snd r1)"
    and c: "df_columns (snd r1 ! df) = Index nm (select_cells vs ?keys1 (\<lambda>k j. k))"
    and v: "df_values (snd r1 ! df) = map (\<lambda>row. select_cells vs ?keys1 (h row)) rows"
    by blast+
  have k: "filter (\<lambda>k. k \<notin> set ?dks) ?keys1
           = filter (\<lambda>k. k \<notin> set (map (\<lambda>d. SStr (format_dimension_key env (dim_display_key d)))
                                  (filter dim_has_display_field (dimension # rest)))) keys"
    by (simp add: select_cells_filter_filter)
  from "2.IH" [OF refl rest l c v] show ?case unfolding k .
qed

lemma select_columns_keys:
  "select_columns f keys = Inr s \<Longrightarrow> set keys \<subseteq> set (index_values (df_columns f))"
  by (auto simp: select_columns_def index_values_def list_all_iff positions_nonempty
      split: index.splits if_splits)

lemma select_cells_distinct:
  assumes "distinct vs" and "set ks \<subseteq> set vs"
  shows "select_cells vs ks cell = map (\<lambda>k. cell k (hd (positions vs k))) ks"
proof -
  have "map (cell k) (positions vs k) = [cell k (hd (positions vs k))]" if "k \<in> set vs" for k
    using positions_distinct [OF assms(1) that] by auto
  then have "set ks \<subseteq> set vs \<Longrightarrow> concat (map (\<lambda>k. map (cell k) (positions vs k)) ks)
               = map (\<lambda>k. cell k (hd (positions vs k))) ks" for ks
    by (induction ks) auto
  from this [OF assms(2)] show ?thesis by (simp add: select_cells_def)
qed

lemma format_data_frame_columns:
  "format_data_frame env st df dims = Inr st' \<Longrightarrow> df < length st \<Longrightarrow>
   df_columns (st' ! df) = set_index_name (df_columns (st ! df)) (metrics_dimension_key env)"
  by (auto simp: format_data_frame_def bind_err_def split: sum.splits)

lemma prepared_columns:
  "df_columns (replace_inf a (fillna_frame b (copy_frame f))) = df_columns f"
  by (simp add: replace_inf_def fillna_frame_def copy_frame_def)

text \<open>The working copy, from the caller's frame.\<close>

lemma working_copy_cells:
  assumes "transform env self st data_frame dimensions references = Inr (out, st')"
  shows "df_columns (st' ! (length st + 3))
         = Index (metrics_dimension_key env)
             (select_cells (index_values (df_columns (st ! data_frame)))
                (remaining_keys env self dimensions references) (\<lambda>k j. k))"
    and "df_values (st' ! (length st + 3))
         = map (\<lambda>row. select_cells (index_values (df_columns (st ! data_frame)))
                        (remaining_keys env self dimensions references)
                        (\<lambda>k j. clean_cell (row ! j)))
             (df_values (st ! data_frame))"
    and "set (remaining_keys env self dimensions references)
         \<subseteq> set (index_values (df_columns (st ! data_frame)))"
proof -
  let ?dcols = "map (\<lambda>d. SStr (format_dimension_key env (dim_display_key d)))
          (filter dim_has_display_field dimensions)"
  let ?mcols = "map fst (item_pairs env self references)"
  let ?vs = "index_values (df_columns (st ! data_frame))"
  let ?rem = "remaining_keys env self dimensions references"
  from assms obtain selected r st2 pivoted where
    sel: "select_columns (st ! data_frame) (?dcols @ ?mcols) = Inr selected"
    and md: "map_display_values env
       (st @ [selected, copy_frame selected, fillna_frame (SStr ''NaN'') (copy_frame selected),
              replace_inf (SStr ''Inf'') (fillna_frame (SStr ''NaN'') (copy_frame selected))])
       (length st + 3) dimensions (\<lambda>k. None) = Inr r"
    and fd: "format_data_frame env (snd r) (length st + 3) dimensions = Inr st2"
    and st': "st' = st2 @ [pivoted]"
    by (rule transform_steps)
  let ?prep = "replace_inf (SStr ''Inf'') (fillna_frame (SStr ''NaN'') (copy_frame selected))"
  let ?st1 = "st @ [selected, copy_frame selected, fillna_frame (SStr ''NaN'') (copy_frame selected),
              ?prep]"
  let ?df = "length st + 3"
  have df1: "?df < length ?st1" by simp
  have w1: "?st1 ! ?df = ?prep" by (simp add: nth_append)
  from select_columns_cells [OF sel] obtain nm where
    sc: "df_columns selected = Index nm (select_cells ?vs (?dcols @ ?mcols) (\<lambda>k j. k))"
    and sv: "df_values selected = map (\<lambda>row. select_cells ?vs (?dcols @ ?mcols) (\<lambda>k j. row ! j))
                              (df_values (st ! data_frame))"
    by blast
  have c1: "df_columns (?st1 ! ?df) = Index nm (select_cells ?vs (?dcols @ ?mcols) (\<lambda>k j. k))"
    unfolding w1 prepared_columns by (rule sc)
  have v1: "df_values (?st1 ! ?df)
            = map (\<lambda>row. select_cells ?vs (?dcols @ ?mcols) (\<lambda>k j. clean_cell (row ! j)))
                (df_values (st ! data_frame))"
    unfolding w1 prepared_values sv by (simp add: select_cells_map o_def)
  have rem: "filter (\<lambda>k. k \<notin> set ?dcols) (?dcols @ ?mcols) = ?rem"
    by (simp add: remaining_keys_def)
  from map_display_values_cells [OF md df1 c1 v1]
  have c2: "df_columns (snd r ! ?df) = Index nm (select_cells ?vs ?rem (\<lambda>k j. k))"
    and v2: "df_values (snd r ! ?df)
             = map (\<lambda>row. select_cells ?vs ?rem (\<lambda>k j. clean_cell (row ! j)))
                 (df_values (st ! data_frame))"
    unfolding rem by blast+
  from map_display_values_store [OF md] have l1: "length (snd r) = length st + 4" by simp
  from format_data_frame_store [OF fd] l1 have l2: "length st2 = length st + 4" by simp
  then have s3: "st' ! ?df = st2 ! ?df" by (simp add: st' nth_append)
  from format_data_frame_columns [OF fd] l1 c2
  show "df_columns (st' ! ?df) = Index (metrics_dimension_key env) (select_cells ?vs ?rem (\<lambda>k j. k))"
    unfolding s3 by (simp add: set_index_name_def)
  from format_data_frame_values [OF fd] l1 v2
  show "df_values (st' ! ?df)
        = map (\<lambda>row. select_cells ?vs ?rem (\<lambda>k j. clean_cell (row ! j))) (df_values (st ! data_frame))"
    unfolding s3 by simp
  from select_columns_keys [OF sel] show "set ?rem \<subseteq> set ?vs"
    by (auto simp: remaining_keys_def)
qed

lemma ordered_dict_distinct_aux:
  "distinct (map fst acc) \<Longrightarrow>
   distinct (map fst (foldl (\<lambda>d kv. AList.update (fst kv) (snd kv) d) acc ps))"
  by (induction ps arbitrary: acc) (simp_all add: distinct_update)

lemma remaining_keys_distinct: "distinct (remaining_keys env self dimensions references)"
  by (simp add: remaining_keys_def item_pairs_def ordered_dict_def ordered_dict_distinct_aux)

text \<open>
  Claim C10. When \<open>transform\<close> returns, the frames it has created follow the frames
  the store held: the selection of the caller's columns first, the working copy
  fourth, the pivoted frame fifth. The working copy keeps the metric columns that are
  not display columns, and each of its cells is the caller's cell of that row and
  column after the two fills: the string \<open>NaN\<close> if the caller's cell is null, the
  string \<open>Inf\<close> if it is an infinity of either sign, the cell itself otherwise; so
  no cell of the working copy is null or infinite. With distinct column labels in the
  caller's frame that is one cell per remaining key. When the pivot step returns the
  working copy as it is, the \<open>raw\<close> of every cell of every row record is the cell
  of the working copy: the record of row \<open>i\<close> holds, under a remaining key, the
  filled cell of the caller's row \<open>i\<close> in the column of that key.
\<close>

theorem null_and_infinite_cells:
  assumes "transform env self st data_frame dimensions references = Inr (out, st')"
  shows "length st' = length st + 5
     \<and> (\<exists>keys. select_columns (st ! data_frame) keys = Inr (st' ! length st))
     \<and> cells_clean (st' ! (length st + 3))
     \<and> df_columns (st' ! (length st + 3))
         = Index (metrics_dimension_key env)
             (select_cells (index_values (df_columns (st ! data_frame)))
                (remaining_keys env self dimensions references) (\<lambda>k j. k))
     \<and> df_values (st' ! (length st + 3))
         = map (\<lambda>row. select_cells (index_values (df_columns (st ! data_frame)))
                        (remaining_keys env self dimensions references)
                        (\<lambda>k j. clean_cell (row ! j)))
             (df_values (st ! data_frame))
     \<and> (distinct (index_values (df_columns (st ! data_frame))) \<longrightarrow>
          df_columns (st' ! (length st + 3))
            = Index (metrics_dimension_key env) (remaining_keys env self dimensions references)
          \<and> df_values (st' ! (length st + 3))
            = map (\<lambda>row. map (\<lambda>k. clean_cell
                       (row ! hd (positions (index_values (df_columns (st ! data_frame))) k)))
                     (remaining_keys env self dimensions references))
                (df_values (st ! data_frame)))
     \<and> df_values (replace_inf (SStr ''Inf'') (fillna_frame (SStr ''NaN'')
          (copy_frame (st' ! length st)))) = map (map clean_cell) (df_values (st' ! length st))
     \<and> (list_all (\<lambda>d. \<not> dim_has_display_field d) dimensions \<longrightarrow>
          df_values (st' ! (length st + 3)) = map (map clean_cell) (df_values (st' ! length st)))
     \<and> (isnull x \<longrightarrow> clean_cell x = SStr ''NaN'')
     \<and> (is_inf x \<longrightarrow> clean_cell x = SStr ''Inf'')
     \<and> (\<not> isnull x \<and> \<not> is_inf x \<longrightarrow> clean_cell x = x)
     \<and> (st' ! (length st + 4) = st' ! (length st + 3)
          \<and> wf_frame (st' ! (length st + 4))
          \<and> distinct (index_tuples (df_columns (st' ! (length st + 4))))
          \<and> i < length (out_data out)
          \<and> j < index_size (df_columns (st' ! (length st + 4))) \<longrightarrow>
          (let v = df_values (st' ! (length st + 4)) ! i ! j
           in lookup (out_data out ! i)
                (index_tuples (df_columns (st' ! (length st + 4))) ! j @ [RAW_VALUE])
                = Some (Scalar v)
              \<and> \<not> isnull v \<and> \<not> is_inf v))
     \<and> (st' ! (length st + 4) = st' ! (length st + 3)
          \<and> wf_frame (st' ! (length st + 4))
          \<and> distinct (index_values (df_columns (st ! data_frame)))
          \<and> i < length (out_data out)
          \<and> m < length (remaining_keys env self dimensions references) \<longrightarrow>
          lookup (out_data out ! i) [remaining_keys env self dimensions references ! m, RAW_VALUE]
          = Some (Scalar (clean_cell (df_values (st ! data_frame) ! i
                  ! hd (positions (index_values (df_columns (st ! data_frame)))
                         (remaining_keys env self dimensions references ! m))))))"
proof -
  let ?vs = "index_values (df_columns (st ! data_frame))"
  let ?rem = "remaining_keys env self dimensions references"
  let ?mdk = "metrics_dimension_key env"
  from assms obtain selected r st2 pivoted where
    sel: "select_columns (st ! data_frame)
       (map (\<lambda>d. SStr (format_dimension_key env (dim_display_key d)))
          (filter dim_has_display_field dimensions)
        @ map fst (item_pairs env self references)) = Inr selected"
    and md: "map_display_values env
       (st @ [selected, copy_frame selected, fillna_frame (SStr ''NaN'') (copy_frame selected),
              replace_inf (SStr ''Inf'') (fillna_frame (SStr ''NaN'') (copy_frame selected))])
       (length st + 3) dimensions (\<lambda>k. None) = Inr r"
    and fd: "format_data_frame env (snd r) (length st + 3) dimensions = Inr st2"
    and td: "transform_data (float_str env) pivoted
           (map_of (AList.update TOTALS_VALUE TotalsItem (item_pairs env self references)))
           (fst r) = Inr (out_data out)"
    and st': "st' = st2 @ [pivoted]"
    by (rule transform_steps)
  let ?st1 = "st @ [selected, copy_frame selected, fillna_frame (SStr ''NaN'') (copy_frame selected),
              replace_inf (SStr ''Inf'') (fillna_frame (SStr ''NaN'') (copy_frame selected))]"
  let ?df = "length st + 3"
  have df1: "?df < length ?st1" by simp
  have w1: "?st1 ! ?df = replace_inf (SStr ''Inf'') (fillna_frame (SStr ''NaN'') (copy_frame selected))"
    by (simp add: nth_append)
  from map_display_values_store [OF md]
  have l1: "length (snd r) = length st + 4" and k1: "snd r ! length st = selected"
    by (simp_all add: nth_append)
  from format_data_frame_store [OF fd] l1 k1
  have l2: "length st2 = length st + 4" and k2: "st2 ! length st = selected"
    by simp_all
  from l2 have len: "length st' = length st + 5" by (simp add: st')
  from l2 k2 have s0: "st' ! length st = selected" by (simp add: st' nth_append)
  from l2 have s3: "st' ! ?df = st2 ! ?df" by (simp add: st' nth_append)
  from l2 have s4: "st' ! (length st + 4) = pivoted" by (simp add: st' nth_append)
  from map_display_values_clean [OF md df1] w1 prepared_clean
  have c1: "cells_clean (snd r ! ?df)" by simp
  from format_data_frame_values [OF fd] l1 have v2: "df_values (st2 ! ?df) = df_values (snd r ! ?df)"
    by simp
  with c1 have clean: "cells_clean (st' ! ?df)" by (simp add: s3 cells_clean_def)
  note wc = working_copy_cells [OF assms]
  have cols: "df_columns (st' ! ?df) = Index ?mdk (select_cells ?vs ?rem (\<lambda>k j. k))"
    by (rule wc(1))
  have vals: "df_values (st' ! ?df)
              = map (\<lambda>row. select_cells ?vs ?rem (\<lambda>k j. clean_cell (row ! j)))
                  (df_values (st ! data_frame))"
    by (rule wc(2))
  have dist: "distinct ?vs \<longrightarrow>
          df_columns (st' ! ?df) = Index ?mdk ?rem
          \<and> df_values (st' ! ?df)
            = map (\<lambda>row. map (\<lambda>k. clean_cell (row ! hd (positions ?vs k))) ?rem)
                (df_values (st ! data_frame))"
  proof
    assume d: "distinct ?vs"
    note sd = select_cells_distinct [OF d wc(3)]
    show "df_columns (st' ! ?df) = Index ?mdk ?rem
          \<and> df_values (st' ! ?df)
            = map (\<lambda>row. map (\<lambda>k. clean_cell (row ! hd (positions ?vs k))) ?rem)
                (df_values (st ! data_frame))"
      unfolding cols vals sd by simp
  qed
  have nodisp: "list_all (\<lambda>d. \<not> dim_has_display_field d) dimensions \<longrightarrow>
          df_values (st' ! ?df) = map (map clean_cell) (df_values (st' ! length st))"
  proof
    assume "list_all (\<lambda>d. \<not> dim_has_display_field d) dimensions"
    from map_display_values_no_display [OF md this] have "snd r ! ?df = ?st1 ! ?df" by simp
    with v2 w1 show "df_values (st' ! ?df) = map (map clean_cell) (df_values (st' ! length st))"
      by (simp add: s3 s0 prepared_values)
  qed
  have rows: "st' ! (length st + 4) = st' ! ?df
          \<and> wf_frame (st' ! (length st + 4))
          \<and> distinct (index_tuples (df_columns (st' ! (length st + 4))))
          \<and> i < length (out_data out)
          \<and> j < index_size (df_columns (st' ! (length st + 4))) \<longrightarrow>
          (let v = df_values (st' ! (length st + 4)) ! i ! j
           in lookup (out_data out ! i)
                (index_tuples (df_columns (st' ! (length st + 4))) ! j @ [RAW_VALUE])
                = Some (Scalar v)
              \<and> \<not> isnull v \<and> \<not> is_inf v)"
  proof
    assume A: "st' ! (length st + 4) = st' ! ?df
          \<and> wf_frame (st' ! (length st + 4))
          \<and> distinct (index_tuples (df_columns (st' ! (length st + 4))))
          \<and> i < length (out_data out)
          \<and> j < index_size (df_columns (st' ! (length st + 4)))"
    then have A': "pivoted = st' ! ?df
          \<and> wf_frame pivoted
          \<and> distinct (index_tuples (df_columns pivoted))
          \<and> i < length (out_data out)
          \<and> j < index_size (df_columns pivoted)"
      unfolding s4 .
    then have same: "pivoted = st' ! ?df" and wf: "wf_frame pivoted"
      and d: "distinct (index_tuples (df_columns pivoted))"
      and i: "i < length (out_data out)" and j: "j < index_size (df_columns pivoted)"
      by blast+
    from row_cells_at_columns [OF td wf d i j]
    have raw: "lookup (out_data out ! i) (index_tuples (df_columns pivoted) ! j @ [RAW_VALUE])
                = Some (Scalar (df_values pivoted ! i ! j))"
      by (simp add: Let_def)
    from transform_data_rows(1) [OF td wf i] i have i': "i < length (df_values pivoted)"
      using wf by (simp add: wf_frame_def)
    with wf have "length (df_values pivoted ! i) = index_size (df_columns pivoted)"
      by (simp add: wf_frame_def list_all_iff)
    with j have j': "j < length (df_values pivoted ! i)" by simp
    from clean same have "cells_clean pivoted" by simp
    with i' j' have "\<not> isnull (df_values pivoted ! i ! j) \<and> \<not> is_inf (df_values pivoted ! i ! j)"
      by (simp add: cells_clean_def list_all_length)
    with raw show "let v = df_values (st' ! (length st + 4)) ! i ! j
           in lookup (out_data out ! i)
                (index_tuples (df_columns (st' ! (length st + 4))) ! j @ [RAW_VALUE])
                = Some (Scalar v)
              \<and> \<not> isnull v \<and> \<not> is_inf v"
      by (simp add: Let_def s4)
  qed
  have surf: "st' ! (length st + 4) = st' ! ?df
          \<and> wf_frame (st' ! (length st + 4))
          \<and> distinct ?vs
          \<and> i < length (out_data out)
          \<and> m < length ?rem \<longrightarrow>
          lookup (out_data out ! i) [?rem ! m, RAW_VALUE]
          = Some (Scalar (clean_cell (df_values (st ! data_frame) ! i
                  ! hd (positions ?vs (?rem ! m)))))"
  proof
    assume A: "st' ! (length st + 4) = st' ! ?df
          \<and> wf_frame (st' ! (length st + 4))
          \<and> distinct ?vs
          \<and> i < length (out_data out)
          \<and> m < length ?rem"
    then have same: "pivoted = st' ! ?df" and wf: "wf_frame pivoted" and dv: "distinct ?vs"
      and i: "i < length (out_data out)" and m: "m < length ?rem"
      unfolding s4 by blast+
    from dist dv have pc: "df_columns pivoted = Index ?mdk ?rem"
      and pv: "df_values pivoted
            = map (\<lambda>row. map (\<lambda>k. clean_cell (row ! hd (positions ?vs k))) ?rem)
                (df_values (st ! data_frame))"
      unfolding same by blast+
    have it: "index_tuples (df_columns pivoted) = map (\<lambda>v. [v]) ?rem"
      unfolding pc by (simp add: index_tuples_def index_values_def)
    have d: "distinct (index_tuples (df_columns pivoted))"
      unfolding it using remaining_keys_distinct [of env self dimensions references]
      by (simp add: distinct_map inj_on_def)
    have j: "m < index_size (df_columns pivoted)"
      using m by (simp add: index_size_def it)
    from row_cells_at_columns [OF td wf d i j]
    have raw: "lookup (out_data out ! i) (index_tuples (df_columns pivoted) ! m @ [RAW_VALUE])
                = Some (Scalar (df_values pivoted ! i ! m))"
      by (simp add: Let_def)
    from transform_data_rows(1) [OF td wf i] i have "i < length (df_values pivoted)"
      using wf by (simp add: wf_frame_def)
    then have i': "i < length (df_values (st ! data_frame))" unfolding pv by simp
    from i' m have cell: "df_values pivoted ! i ! m
        = clean_cell (df_values (st ! data_frame) ! i ! hd (positions ?vs (?rem ! m)))"
      unfolding pv by simp
    from m have key: "index_tuples (df_columns pivoted) ! m @ [RAW_VALUE] = [?rem ! m, RAW_VALUE]"
      unfolding it by simp
    from raw show "lookup (out_data out ! i) [?rem ! m, RAW_VALUE]
          = Some (Scalar (clean_cell (df_values (st ! data_frame) ! i
                  ! hd (positions ?vs (?rem ! m)))))"
      unfolding key cell .
  qed
  from sel s0 have ex: "\<exists>keys. select_columns (st ! data_frame) keys = Inr (st' ! length st)"
    by blast
  from clean_cell_cases [of x] have cc: "(isnull x \<longrightarrow> clean_cell x = SStr ''NaN'')"
    "(is_inf x \<longrightarrow> clean_cell x = SStr ''Inf'')" "(\<not> isnull x \<and> \<not> is_inf x \<longrightarrow> clean_cell x = x)"
    by blast+
  show ?thesis
    by (intro conjI len ex clean cols vals dist prepared_values nodisp cc rows surf)
qed

lemma ex_remaining_keys:
  "remaining_keys ex_env ex_widget ex_dimensions [] = [SStr ''$m$wins'']"
  by (simp add: remaining_keys_def ex_item_pairs ex_dimensions_def ex_env_simps)

lemma ex_caller_columns:
  "index_values (df_columns ex_result_set)
   = [SStr ''$m$wins'', SStr ''$d$state_display'', SStr ''$m$other'']"
  by (simp add: ex_result_set_def index_values_def)

lemma ex_caller_values:
  "df_values ex_result_set
   = [[SFloat NaN, SStr ''Texas'', SInt 1], [SFloat (Infinity False), SNone, SInt 2]]"
  by (simp add: ex_result_set_def)

lemma ex_positions_wins:
  "positions [SStr ''$m$wins'', SStr ''$d$state_display'', SStr ''$m$other''] (SStr ''$m$wins'') = [0]"
  by (simp add: positions_def)

text \<open>The worked call: a null and an infinite metric cell reach the rows as strings.\<close>

theorem null_and_infinite_cells_witness:
  "transform ex_env ex_widget [ex_result_set] 0 ex_dimensions [] = Inr (ex_output, ex_final_store)
   \<and> df_values ex_result_set
       = [[SFloat NaN, SStr ''Texas'', SInt 1], [SFloat (Infinity False), SNone, SInt 2]]
   \<and> cells_clean (ex_final_store ! 4)
   \<and> df_values (ex_final_store ! 4) = [[SStr ''NaN''], [SStr ''Inf'']]
   \<and> lookup (out_data ex_output ! 0) [SStr ''$m$wins'', RAW_VALUE] = Some (Scalar (SStr ''NaN''))
   \<and> lookup (out_data ex_output ! 1) [SStr ''$m$wins'', RAW_VALUE] = Some (Scalar (SStr ''Inf''))"
proof -
  have s45: "ex_final_store ! 5 = ex_final_store ! 4" and s5: "ex_final_store ! 5 = ex_working_copy"
    by (simp_all add: ex_final_store_def)
  have wf: "wf_frame (ex_final_store ! 5)" unfolding s5 by (rule wf_ex_working_copy)
  have n: "length (out_data ex_output) = 2" by (simp add: ex_output_def)
  have cn: "clean_cell (SFloat NaN) = SStr ''NaN''"
    and ci: "clean_cell (SFloat (Infinity False)) = SStr ''Inf''"
    by (simp_all add: clean_cell_def isnull_def is_inf_def)
  note th = null_and_infinite_cells [OF ex_transform]
  from th [of SNone 0 0 0] have c: "cells_clean (ex_final_store ! 4)" by simp
  from th [of SNone 0 0 0]
  have "df_values (ex_final_store ! 4)
         = map (\<lambda>row. select_cells (index_values (df_columns ex_result_set))
                        (remaining_keys ex_env ex_widget ex_dimensions [])
                        (\<lambda>k j. clean_cell (row ! j)))
             (df_values ex_result_set)"
    by simp
  then have v: "df_values (ex_final_store ! 4) = [[SStr ''NaN''], [SStr ''Inf'']]"
    unfolding ex_remaining_keys ex_caller_columns ex_caller_values
    by (simp add: select_cells_def ex_positions_wins cn ci)
  from th [of SNone 0 0 0] s45 wf n
  have "lookup (out_data ex_output ! 0) [remaining_keys ex_env ex_widget ex_dimensions [] ! 0, RAW_VALUE]
          = Some (Scalar (clean_cell (df_values ex_result_set ! 0
                  ! hd (positions (index_values (df_columns ex_result_set))
                         (remaining_keys ex_env ex_widget ex_dimensions [] ! 0)))))"
    by (simp add: ex_remaining_keys ex_caller_columns)
  then have r0: "lookup (out_data ex_output ! 0) [SStr ''$m$wins'', RAW_VALUE] = Some (Scalar (SStr ''NaN''))"
    unfolding ex_remaining_keys ex_caller_columns ex_caller_values
    by (simp add: ex_positions_wins cn)
  from th [of SNone 1 0 0] s45 wf n
  have "lookup (out_data ex_output ! 1) [remaining_keys ex_env ex_widget ex_dimensions [] ! 0, RAW_VALUE]
          = Some (Scalar (clean_cell (df_values ex_result_set ! 1
                  ! hd (positions (index_values (df_columns ex_result_set))
                         (remaining_keys ex_env ex_widget ex_dimensions [] ! 0)))))"
    by (simp add: ex_remaining_keys ex_caller_columns)
  then have r1: "lookup (out_data ex_output ! 1) [SStr ''$m$wins'', RAW_VALUE] = Some (Scalar (SStr ''Inf''))"
    unfolding ex_remaining_keys ex_caller_columns ex_caller_values
    by (simp add: ex_positions_wins ci)
  have "df_values ex_result_set
       = [[SFloat NaN, SStr ''Texas'', SInt 1], [SFloat (Infinity False), SNone, SInt 2]]"
    by (simp add: ex_result_set_def)
  with ex_transform c v r0 r1 show ?thesis by simp
qed

end
